(* ===== verification/Prelude.thy ===== *)
theory Prelude
  imports Main "HOL-Library.Word"
begin

text \<open>
  Shared vocabulary of the audioscrobbler development: the C types of
  \<^verbatim>\<open>src/modules/misc/audioscrobbler.c\<close> as HOL types, the model of a C
  \<^verbatim>\<open>char *\<close> field (NULL, a live string, or a pointer that was freed but not
  cleared), the lemma collections the component theories fill, and generic lemmas
  on lists and options that several components use.
\<close>

section \<open>C types\<close>

text \<open>
  \<^verbatim>\<open>mtime_t\<close> (microseconds, from \<^verbatim>\<open>mdate()\<close>) and \<^verbatim>\<open>time_t\<close>
  (seconds, from \<^verbatim>\<open>time()\<close>) are 64-bit signed; no claim here depends on their
  overflow, which would need 292000 years of uptime, so they are \<open>int\<close>.
  \<^verbatim>\<open>unsigned int\<close> is 32 bits, and its wrap-around matters for the backoff delay,
  so it is \<open>32 word\<close>.
\<close>

type_synonym mtime = int
type_synonym time_t = int
type_synonym uint = "32 word"

text \<open>
  A \<^verbatim>\<open>char *\<close> field of a struct: \<open>NULL\<close>, a pointer to a live
  NUL-terminated string, or a dangling pointer (freed with \<^verbatim>\<open>free\<close> but not
  set to NULL). Reading or freeing a dangling pointer is undefined behaviour.
\<close>

datatype cptr = NULL | Ptr string | Dangling

text \<open>
  The test \<^verbatim>\<open>!p || !*p\<close> of the source: NULL or the empty string. A dangling
  pointer is read by the test, which is undefined; the model counts it as not
  empty only to keep the function total, and no theorem relies on that case.
\<close>

fun cptr_empty :: "cptr \<Rightarrow> bool" where
  "cptr_empty NULL = True"
| "cptr_empty (Ptr s) = (s = [])"
| "cptr_empty Dangling = False"

text \<open>
  \<^verbatim>\<open>FREENULL(p)\<close>: free the pointer and set it to NULL. Freeing a dangling
  pointer is a double free, an error value of the model.
\<close>

datatype c_error = DoubleFree | UseAfterFree

fun freenull :: "cptr \<Rightarrow> c_error + cptr" where
  "freenull Dangling = Inl DoubleFree"
| "freenull _ = Inr NULL"

text \<open>The value \<^verbatim>\<open>printf("%s", p)\<close> prints (glibc prints NULL as \<^verbatim>\<open>(null)\<close>).\<close>

fun cptr_str :: "cptr \<Rightarrow> string" where
  "cptr_str NULL = ''(null)''"
| "cptr_str (Ptr s) = s"
| "cptr_str Dangling = []"

text \<open>C integer division truncates towards zero (HOL's \<open>div\<close> rounds down).\<close>

definition c_div :: "int \<Rightarrow> int \<Rightarrow> int" where
  "c_div a b = sgn a * sgn b * (\<bar>a\<bar> div \<bar>b\<bar>)"

section \<open>Lemma collections\<close>

text \<open>
  \<open>cstring_simps\<close> collects the evaluation rules of the C string functions
  (CString); \<open>model_simps\<close> collects the unfolding rules of the program's
  operations that proofs about whole steps use.
\<close>

named_theorems cstring_simps "evaluation rules of the C string model"
named_theorems model_simps "unfolding rules of the program's operations"

section \<open>Generic lemmas\<close>

lemma takeWhile_append_stop [simp]:
  "(ys = [] \<or> \<not> P (hd ys)) \<Longrightarrow> \<forall>x\<in>set xs. P x \<Longrightarrow> takeWhile P (xs @ ys) = xs"
  by (cases ys) (simp_all add: takeWhile_append2)

lemma dropWhile_append_stop [simp]:
  "(ys = [] \<or> \<not> P (hd ys)) \<Longrightarrow> \<forall>x\<in>set xs. P x \<Longrightarrow> dropWhile P (xs @ ys) = ys"
  by (cases ys) (simp_all add: dropWhile_append2)

lemma c_div_nonneg [simp]: "0 \<le> a \<Longrightarrow> 0 < b \<Longrightarrow> c_div a b = a div b"
  by (cases "a = 0") (simp_all add: c_div_def)

lemma freenull_not_dangling [simp]:
  "p \<noteq> Dangling \<Longrightarrow> freenull p = Inr NULL"
  by (cases p) simp_all

end
