(* ===== verification/Backoff.thy ===== *)
theory Backoff
  imports Prelude
begin

text \<open>
  The backoff controller: \<^verbatim>\<open>HandleInterval\<close> (audioscrobbler.c, lines
  1008--1023) and the reset that \<^verbatim>\<open>Run\<close> performs after a successful
  handshake or submission. The interval is an \<^verbatim>\<open>unsigned int\<close>
  (\<open>32 word\<close>), doubled by \<^verbatim>\<open><<= 1\<close> and capped at 120 minutes; the next
  allowed exchange is \<^verbatim>\<open>mdate() + (i * 1000000 * 60)\<close>, where the product is
  computed in \<^verbatim>\<open>unsigned int\<close> and so wraps modulo \<open>2^32\<close>.
\<close>

section \<open>Definitions\<close>

text \<open>
  The state the C function receives by pointer: \<^verbatim>\<open>next_exchange\<close> and
  \<^verbatim>\<open>i_interval\<close>. \<open>now\<close> is the value \<^verbatim>\<open>mdate()\<close> returns.
\<close>

definition next_interval :: "uint \<Rightarrow> uint" where
  "next_interval i = (if i = 0 then 1 else (let d = push_bit 1 i in if 120 < d then 120 else d))"

definition interval_delay :: "uint \<Rightarrow> uint" where
  "interval_delay i = i * 1000000 * 60"

definition HandleInterval :: "mtime \<Rightarrow> mtime \<times> uint \<Rightarrow> mtime \<times> uint" where
  "HandleInterval now s = (let i' = next_interval (snd s) in (now + uint (interval_delay i'), i'))"

text \<open>The reset of \<^verbatim>\<open>Run\<close> after a success: \<^verbatim>\<open>i_interval = 0; next_exchange = mdate();\<close>\<close>

definition reset_interval :: "mtime \<Rightarrow> mtime \<times> uint \<Rightarrow> mtime \<times> uint" where
  "reset_interval now s = (now, 0)"

text \<open>\<open>k\<close> consecutive failures at the same clock value.\<close>

fun failures :: "nat \<Rightarrow> mtime \<Rightarrow> mtime \<times> uint \<Rightarrow> mtime \<times> uint" where
  "failures 0 now s = s"
| "failures (Suc k) now s = HandleInterval now (failures k now s)"

text \<open>
  The intervals the code can hold: 0 after a reset, then the doubling sequence up
  to the cap.
\<close>

definition interval_ok :: "uint \<Rightarrow> bool" where
  "interval_ok i \<longleftrightarrow> i \<in> {0, 1, 2, 4, 8, 16, 32, 64, 120}"

text \<open>The specification's controller (spec section 4.4), on unbounded naturals.\<close>

definition on_failure_spec :: "nat \<Rightarrow> nat" where
  "on_failure_spec i = (if i = 0 then 1 else min (2 * i) 120)"

section \<open>Lemmas\<close>

lemma push_bit_1_unat:
  "unat i < 2 ^ 31 \<Longrightarrow> unat (push_bit 1 (i :: uint)) = 2 * unat i"
  using unat_mult_lem [of i 2] by (simp add: push_bit_eq_mult)

lemma next_interval_unat:
  assumes "unat i < 2 ^ 31"
  shows "unat (next_interval i) = on_failure_spec (unat i)"
proof (cases "i = 0")
  case True
  then show ?thesis by (simp add: next_interval_def on_failure_spec_def)
next
  case False
  then have nz: "unat i \<noteq> 0" by (simp add: unat_eq_zero)
  have pb: "unat (push_bit 1 i) = 2 * unat i" using assms by (rule push_bit_1_unat)
  have "120 < push_bit 1 i \<longleftrightarrow> 120 < 2 * unat i"
    by (simp only: word_less_nat_alt pb) simp
  with False nz pb show ?thesis
    by (auto simp: next_interval_def on_failure_spec_def Let_def)
qed

lemma next_interval_ok [simp]: "interval_ok i \<Longrightarrow> interval_ok (next_interval i)"
  by (auto simp: interval_ok_def next_interval_def)

lemma interval_ok_0 [simp]: "interval_ok 0"
  by (simp add: interval_ok_def)

lemma interval_ok_unat_le: "interval_ok i \<Longrightarrow> unat i \<le> 120"
  by (auto simp: interval_ok_def)

lemma unat_interval_delay:
  "unat (interval_delay i) = (unat i * 60000000) mod 2 ^ 32"
  by (simp add: interval_delay_def unat_word_ariths mod_mult_left_eq mult.commute)

lemma HandleInterval_simps [model_simps]:
  "HandleInterval now (nx, i) = (now + int ((unat (next_interval i) * 60000000) mod 2 ^ 32), next_interval i)"
  by (simp add: HandleInterval_def uint_nat unat_interval_delay Let_def)

lemma snd_failures: "snd (failures k now s) = (next_interval ^^ k) (snd s)"
  by (induction k) (simp_all add: HandleInterval_def Let_def)

lemma next_interval_120 [simp]: "next_interval 120 = 120"
  by (simp add: next_interval_def)

section \<open>Properties\<close>

text \<open>
  C4. The interval stays in the doubling sequence 0, 1, 2, 4, ..., 64, 120: after a
  failure it is between 1 and 120 minutes, whatever the clock.
\<close>

theorem HandleInterval_interval_bound:
  assumes "interval_ok (snd s)"
  shows "interval_ok (snd (HandleInterval now s)) \<and>
         1 \<le> unat (snd (HandleInterval now s)) \<and> unat (snd (HandleInterval now s)) \<le> 120"
proof -
  have ok: "interval_ok (next_interval (snd s))" using assms by simp
  have "next_interval (snd s) \<noteq> 0"
    using assms by (auto simp: interval_ok_def next_interval_def)
  then have "1 \<le> unat (next_interval (snd s))" by (simp add: Suc_le_eq unat_gt_0)
  with ok interval_ok_unat_le show ?thesis by (simp add: HandleInterval_def Let_def)
qed

theorem HandleInterval_interval_bound_witness:
  "interval_ok (snd ((0::int), 64 :: uint)) \<and>
   interval_ok (snd (HandleInterval 5 (0, 64))) \<and>
   1 \<le> unat (snd (HandleInterval 5 (0, 64))) \<and> unat (snd (HandleInterval 5 (0, 64))) \<le> 120"
  using HandleInterval_interval_bound [of "(0, 64)" 5] by (simp add: interval_ok_def)

text \<open>
  C7. \<^verbatim>\<open>HandleInterval\<close> implements the specification's \<open>OnFailure\<close> on the
  interval: read as a natural number, the new interval is 1 after 0 and otherwise
  the double of the old one, capped at 120, as long as the shift does not overflow.
\<close>

theorem HandleInterval_refines_on_failure:
  "unat (snd s) < 2 ^ 31 \<Longrightarrow> unat (snd (HandleInterval now s)) = on_failure_spec (unat (snd s))"
  by (simp add: HandleInterval_def Let_def next_interval_unat)

theorem HandleInterval_refines_on_failure_witness:
  "unat (snd ((0::int), 40 :: uint)) < 2 ^ 31 \<and>
   unat (snd (HandleInterval 0 (0, 40))) = on_failure_spec 40"
  using HandleInterval_refines_on_failure [of "(0, 40)" 0] by simp

text \<open>
  Starting from interval 0, consecutive failures give the intervals 1, 2, 4, 8,
  16, 32, 64 and then 120 minutes.
\<close>

theorem failures_sequence:
  "map (\<lambda>k. snd (failures k now (nx, 0))) [1..<9] = [1, 2, 4, 8, 16, 32, 64, 120]"
proof -
  have "map (\<lambda>k. (next_interval ^^ k) 0) [1..<9] = [1, 2, 4, 8, 16, 32, 64, 120 :: uint]"
    by code_simp
  then show ?thesis by (simp add: snd_failures)
qed

text \<open>From the eighth consecutive failure on, the interval stays at the cap of 120.\<close>

theorem failures_capped:
  assumes "8 \<le> k"
  shows "snd (failures k now (nx, 0)) = 120"
proof -
  obtain j where k: "k = j + 8" using assms by (metis add.commute le_Suc_ex)
  have eight: "(next_interval ^^ 8) (0::uint) = 120" by code_simp
  have "(next_interval ^^ j) (120::uint) = 120" by (induction j) simp_all
  with eight show ?thesis by (simp add: snd_failures k funpow_add)
qed

theorem failures_capped_witness: "(8::nat) \<le> 10 \<and> snd (failures 10 0 (0, 0)) = 120"
  using failures_capped [of 10 0 0] by simp

text \<open>
  C16. The delay is computed in 32-bit \<^verbatim>\<open>unsigned int\<close> and wraps exactly at
  the cap. For every interval the code can hold, the next exchange after a failure
  is the new interval in minutes later, except when the new interval is the cap of
  120: then it is 2905032704 microseconds (about 48.4 minutes) later, which is less
  than the 64 minutes of the step before it. The backoff shrinks when it reaches
  its cap.
\<close>

theorem HandleInterval_delay_wraps_at_cap:
  assumes "interval_ok (snd s)"
  shows "fst (HandleInterval now s) - now =
           (if next_interval (snd s) = 120 then 2905032704
            else 60000000 * int (unat (next_interval (snd s))))"
proof -
  let ?n = "next_interval (snd s)"
  have ok: "interval_ok ?n" using assms by simp
  show ?thesis
  proof (cases "?n = 120")
    case True
    then show ?thesis by (cases s) (simp add: HandleInterval_simps)
  next
    case False
    with ok have "unat ?n \<le> 64" by (auto simp: interval_ok_def)
    then have "unat ?n * 60000000 < 2 ^ 32" by simp
    with False show ?thesis by (cases s) (simp add: HandleInterval_simps)
  qed
qed

theorem HandleInterval_delay_wraps_at_cap_witness:
  "interval_ok (snd ((0::int), 64::uint)) \<and> fst (HandleInterval 0 (0, 64)) - 0 = 2905032704 \<and>
   interval_ok (snd ((0::int), 32::uint)) \<and> fst (HandleInterval 0 (0, 32)) - 0 = 3840000000"
proof -
  have h: "interval_ok (snd ((0::int), 64::uint))" "interval_ok (snd ((0::int), 32::uint))"
    by (simp_all add: interval_ok_def)
  have "next_interval 64 = 120" "next_interval 32 = 64" "unat (64::uint) = 64"
    by (simp_all add: next_interval_def)
  with HandleInterval_delay_wraps_at_cap [OF h(1), of 0] HandleInterval_delay_wraps_at_cap [OF h(2), of 0] h
  show ?thesis by simp
qed

text \<open>
  Below the overflow threshold the delay is exact: when the new interval is at
  most 71 minutes, the next exchange is exactly that many minutes away.
\<close>

theorem HandleInterval_delay_exact:
  assumes "unat (next_interval (snd s)) \<le> 71"
  shows "fst (HandleInterval now s) = now + 60000000 * int (unat (next_interval (snd s)))"
proof -
  have "unat (next_interval (snd s)) * 60000000 < 2 ^ 32" using assms by simp
  then show ?thesis
    by (cases s) (simp add: HandleInterval_simps)
qed

theorem HandleInterval_delay_exact_witness:
  "unat (next_interval (snd ((0::int), 32::uint))) \<le> 71 \<and>
   fst (HandleInterval 7 (0, 32)) = 7 + 60000000 * int (unat (next_interval (snd ((0::int), 32::uint))))"
proof -
  have h: "unat (next_interval (snd ((0::int), 32::uint))) \<le> 71"
    by (simp add: next_interval_def)
  show ?thesis using h HandleInterval_delay_exact [OF h, of 7] by simp
qed

end
