(* ===== verification/Sys.thy ===== *)
theory Sys
  imports Prelude
begin

text \<open>
  The plugin's state, \<^verbatim>\<open>intf_sys_t\<close> (audioscrobbler.c, lines 58--108), and
  the helper \<^verbatim>\<open>DeleteSong\<close> (lines 905--912) that every component uses to
  release a song. The fixed array \<^verbatim>\<open>p_queue[QUEUE_MAX]\<close> is a list of
  \<open>QUEUE_MAX\<close> songs updated by index; \<^verbatim>\<open>i_songs\<close> counts the live
  entries, and the queue the rest of the program sees is the first \<^verbatim>\<open>i_songs\<close>
  entries (\<open>queue_list\<close>). The mutex and the callback bookkeeping are not fields:
  the theories that need them model them where they matter.
\<close>

section \<open>Data\<close>

definition QUEUE_MAX :: int where
  "QUEUE_MAX = 50"

text \<open>\<^verbatim>\<open>audioscrobbler_song_t\<close>.\<close>

record song =
  psz_a :: cptr
  psz_t :: cptr
  psz_b :: cptr
  psz_n :: cptr
  i_l :: int
  psz_m :: cptr
  date :: time_t

text \<open>\<^verbatim>\<open>intf_sys_t\<close>; \<^verbatim>\<open>psz_auth_token\<close> is the \<^verbatim>\<open>char[33]\<close> buffer's string.\<close>

record intf_sys =
  p_queue :: "song list"
  i_songs :: int
  next_exchange :: mtime
  i_interval :: uint
  psz_submit_host :: cptr
  i_submit_port :: int
  psz_submit_file :: cptr
  b_handshaked :: bool
  psz_auth_token :: string
  p_current_song :: song
  time_pause :: mtime
  time_total_pauses :: mtime
  b_submit :: bool
  b_state_cb :: bool
  b_meta_read :: bool

definition null_song :: song where
  "null_song = \<lparr>psz_a = NULL, psz_t = NULL, psz_b = NULL, psz_n = NULL, i_l = 0, psz_m = NULL, date = 0\<rparr>"

text \<open>The state \<^verbatim>\<open>Open\<close> allocates with \<^verbatim>\<open>calloc\<close>: every field zero or NULL.\<close>

definition sys_init :: intf_sys where
  "sys_init = \<lparr>p_queue = replicate (nat QUEUE_MAX) null_song, i_songs = 0, next_exchange = 0,
     i_interval = 0, psz_submit_host = NULL, i_submit_port = 0, psz_submit_file = NULL,
     b_handshaked = False, psz_auth_token = [], p_current_song = null_song, time_pause = 0,
     time_total_pauses = 0, b_submit = False, b_state_cb = False, b_meta_read = False\<rparr>"

text \<open>
  \<^verbatim>\<open>DeleteSong\<close>: \<^verbatim>\<open>FREENULL\<close> on the five string fields, in the source's
  order. The first dangling field is a double free.
\<close>

definition DeleteSong :: "song \<Rightarrow> c_error + song" where
  "DeleteSong s =
     (if Dangling \<in> set [psz_a s, psz_b s, psz_t s, psz_m s, psz_n s] then Inl DoubleFree
      else Inr (s\<lparr>psz_a := NULL, psz_b := NULL, psz_t := NULL, psz_m := NULL, psz_n := NULL\<rparr>))"

text \<open>The queue as the program uses it: the live prefix of the array.\<close>

definition queue_list :: "intf_sys \<Rightarrow> song list" where
  "queue_list s = take (nat (i_songs s)) (p_queue s)"

text \<open>
  The well-formedness of the queue: the array keeps its size, the count is within
  bounds, and no live entry holds a dangling pointer.
\<close>

definition song_ok :: "song \<Rightarrow> bool" where
  "song_ok x \<longleftrightarrow> Dangling \<notin> set [psz_a x, psz_b x, psz_t x, psz_m x, psz_n x]"

definition queue_inv :: "intf_sys \<Rightarrow> bool" where
  "queue_inv s \<longleftrightarrow> length (p_queue s) = nat QUEUE_MAX \<and> 0 \<le> i_songs s \<and> i_songs s \<le> QUEUE_MAX
                   \<and> (\<forall>x\<in>set (queue_list s). song_ok x)"

section \<open>Lemmas\<close>

lemma DeleteSong_ok_iff: "(\<exists>s'. DeleteSong s = Inr s') \<longleftrightarrow> song_ok s"
  by (simp add: DeleteSong_def song_ok_def)

lemma DeleteSong_Inr [simp]:
  "song_ok s \<Longrightarrow> DeleteSong s = Inr (s\<lparr>psz_a := NULL, psz_b := NULL, psz_t := NULL, psz_m := NULL, psz_n := NULL\<rparr>)"
  by (simp add: DeleteSong_def song_ok_def)

lemma song_ok_null_fields [simp]:
  "song_ok (s\<lparr>psz_a := NULL, psz_b := NULL, psz_t := NULL, psz_m := NULL, psz_n := NULL\<rparr>)"
  by (simp add: song_ok_def)

lemma length_queue_list:
  "queue_inv s \<Longrightarrow> length (queue_list s) = nat (i_songs s)"
  unfolding queue_inv_def queue_list_def QUEUE_MAX_def by auto

lemma queue_inv_init: "queue_inv sys_init"
  by (simp add: queue_inv_def sys_init_def queue_list_def QUEUE_MAX_def)

text \<open>The queue is untouched by updates of the session, backoff and metadata fields.\<close>

lemma queue_list_frame [simp]:
  "queue_list (s\<lparr>next_exchange := a\<rparr>) = queue_list s"
  "queue_list (s\<lparr>i_interval := b\<rparr>) = queue_list s"
  "queue_list (s\<lparr>b_handshaked := c\<rparr>) = queue_list s"
  "queue_list (s\<lparr>psz_auth_token := d\<rparr>) = queue_list s"
  "queue_list (s\<lparr>psz_submit_host := h\<rparr>) = queue_list s"
  "queue_list (s\<lparr>psz_submit_file := f\<rparr>) = queue_list s"
  "queue_list (s\<lparr>i_submit_port := p\<rparr>) = queue_list s"
  "queue_list (s\<lparr>p_current_song := x\<rparr>) = queue_list s"
  "queue_list (s\<lparr>b_submit := bs\<rparr>) = queue_list s"
  "queue_list (s\<lparr>b_meta_read := bm\<rparr>) = queue_list s"
  "queue_list (s\<lparr>b_state_cb := bc\<rparr>) = queue_list s"
  "queue_list (s\<lparr>time_pause := tp\<rparr>) = queue_list s"
  "queue_list (s\<lparr>time_total_pauses := tt\<rparr>) = queue_list s"
  by (simp_all add: queue_list_def)

lemma queue_inv_frame [simp]:
  "queue_inv (s\<lparr>next_exchange := a\<rparr>) = queue_inv s"
  "queue_inv (s\<lparr>i_interval := b\<rparr>) = queue_inv s"
  "queue_inv (s\<lparr>b_handshaked := c\<rparr>) = queue_inv s"
  "queue_inv (s\<lparr>psz_auth_token := d\<rparr>) = queue_inv s"
  "queue_inv (s\<lparr>psz_submit_host := h\<rparr>) = queue_inv s"
  "queue_inv (s\<lparr>psz_submit_file := f\<rparr>) = queue_inv s"
  "queue_inv (s\<lparr>i_submit_port := p\<rparr>) = queue_inv s"
  "queue_inv (s\<lparr>p_current_song := x\<rparr>) = queue_inv s"
  "queue_inv (s\<lparr>b_submit := bs\<rparr>) = queue_inv s"
  "queue_inv (s\<lparr>b_meta_read := bm\<rparr>) = queue_inv s"
  "queue_inv (s\<lparr>b_state_cb := bc\<rparr>) = queue_inv s"
  "queue_inv (s\<lparr>time_pause := tp\<rparr>) = queue_inv s"
  "queue_inv (s\<lparr>time_total_pauses := tt\<rparr>) = queue_inv s"
  by (simp_all add: queue_inv_def queue_list_def)

end
