(* ===== verification/Queue.thy ===== *)
theory Queue
  imports Sys
begin

text \<open>
  The play queue's producer side: \<^verbatim>\<open>AddToQueue\<close> (audioscrobbler.c, lines
  566--636), called from the \<^verbatim>\<open>state\<close> callback when a play ends. Its guard
  chain is the eligibility filter of the specification, in the source's order:
  nothing to submit (\<^verbatim>\<open>b_submit\<close>), not listened long enough, shorter than 30
  seconds, artist or title missing, queue full. An accepted song is copied into
  \<^verbatim>\<open>p_queue[i_songs]\<close> and the current song's pointers are moved (set to
  NULL); on every path the current song is then released with \<^verbatim>\<open>DeleteSong\<close>
  and \<^verbatim>\<open>b_submit\<close> cleared. \<open>now\<close> is the value of \<^verbatim>\<open>mdate()\<close>
  (microseconds), while \<^verbatim>\<open>date\<close> was set by \<^verbatim>\<open>time()\<close> (seconds).
\<close>

section \<open>Definitions\<close>

text \<open>Which \<^verbatim>\<open>goto end\<close> the function takes, or \<open>Queued\<close> when it reaches the copy.\<close>

datatype add_result = NotSubmitting | NotListenedEnough | TooShort | MissingArtistTitle
  | QueueFull | Queued

definition played_time :: "mtime \<Rightarrow> intf_sys \<Rightarrow> int" where
  "played_time now s = c_div (now - date (p_current_song s) - time_total_pauses s) 1000000"

definition add_check :: "mtime \<Rightarrow> intf_sys \<Rightarrow> add_result" where
  "add_check now s =
     (let cur = p_current_song s; pt = played_time now s in
      if \<not> b_submit s then NotSubmitting
      else if pt < 240 \<and> pt < c_div (i_l cur) 2 then NotListenedEnough
      else if i_l cur < 30 then TooShort
      else if cptr_empty (psz_a cur) \<or> cptr_empty (psz_t cur) then MissingArtistTitle
      else if QUEUE_MAX \<le> i_songs s then QueueFull
      else Queued)"

text \<open>\<^verbatim>\<open>QUEUE_COPY\<close> / \<^verbatim>\<open>QUEUE_COPY_NULL\<close> of every field, then \<^verbatim>\<open>i_songs++\<close>.\<close>

definition queue_copy :: "intf_sys \<Rightarrow> intf_sys" where
  "queue_copy s =
     (let cur = p_current_song s in
      s\<lparr>p_queue := (p_queue s)[nat (i_songs s) := cur],
        p_current_song := cur\<lparr>psz_n := NULL, psz_a := NULL, psz_t := NULL, psz_b := NULL, psz_m := NULL\<rparr>,
        i_songs := i_songs s + 1\<rparr>)"

definition AddToQueue :: "mtime \<Rightarrow> intf_sys \<Rightarrow> c_error + add_result \<times> intf_sys" where
  "AddToQueue now s =
     (let r = add_check now s;
          s1 = (if r = Queued then queue_copy s else s)
      in case DeleteSong (p_current_song s1) of
           Inl e \<Rightarrow> Inl e
         | Inr c \<Rightarrow> Inr (r, s1\<lparr>p_current_song := c, b_submit := False\<rparr>))"

text \<open>
  The current song may be queued only when it holds no dangling pointer; the
  metadata reader establishes this whenever it sets \<^verbatim>\<open>b_submit\<close>.
\<close>

definition current_inv :: "intf_sys \<Rightarrow> bool" where
  "current_inv s \<longleftrightarrow> (b_submit s \<longrightarrow> song_ok (p_current_song s))"

text \<open>The specification's eligibility filter (spec section 4.1) on the code's measure of listening time.\<close>

definition eligible :: "mtime \<Rightarrow> mtime \<Rightarrow> song \<Rightarrow> bool" where
  "eligible now pauses x \<longleftrightarrow>
     (let pt = c_div (now - date x - pauses) 1000000 in
      \<not> (pt < 240 \<and> pt < c_div (i_l x) 2) \<and> \<not> i_l x < 30
      \<and> \<not> cptr_empty (psz_a x) \<and> \<not> cptr_empty (psz_t x))"

text \<open>A run of plays ending at clock \<open>now\<close>, each made current and marked for submission, then passed to \<^verbatim>\<open>AddToQueue\<close>.\<close>

fun enqueue_plays :: "mtime \<Rightarrow> song list \<Rightarrow> intf_sys \<Rightarrow> c_error + intf_sys" where
  "enqueue_plays now [] s = Inr s"
| "enqueue_plays now (x # xs) s =
     (case AddToQueue now (s\<lparr>p_current_song := x, b_submit := True\<rparr>) of
        Inl e \<Rightarrow> Inl e
      | Inr (r, s') \<Rightarrow> enqueue_plays now xs s')"

text \<open>A 300-second song with artist and title, for the concrete instances below.\<close>

definition demo_song :: song where
  "demo_song = \<lparr>psz_a = Ptr ''A'', psz_t = Ptr ''T'', psz_b = Ptr [], psz_n = Ptr [], i_l = 300,
                psz_m = Ptr [], date = 0\<rparr>"

section \<open>Lemmas\<close>

lemma queue_list_copy:
  assumes "queue_inv s" "i_songs s < QUEUE_MAX"
  shows "queue_list (queue_copy s) = queue_list s @ [p_current_song s]"
proof -
  have len: "nat (i_songs s) < length (p_queue s)"
    using assms by (simp add: queue_inv_def QUEUE_MAX_def)
  have "nat (i_songs s + 1) = Suc (nat (i_songs s))"
    using assms by (simp add: queue_inv_def nat_add_distrib)
  with len show ?thesis
    by (simp add: queue_copy_def queue_list_def Let_def take_Suc_conv_app_nth)
qed

lemma AddToQueue_cases:
  assumes "AddToQueue now s = Inr (r, s')"
  shows "r = add_check now s \<and>
         (if r = Queued then \<exists>c. s' = (queue_copy s)\<lparr>p_current_song := c, b_submit := False\<rparr>
          else \<exists>c. s' = s\<lparr>p_current_song := c, b_submit := False\<rparr>)"
  using assms by (auto simp: AddToQueue_def Let_def split: sum.splits if_splits)

lemma add_check_Queued:
  "add_check now s = Queued \<Longrightarrow>
   b_submit s \<and> i_songs s < QUEUE_MAX \<and> \<not> cptr_empty (psz_a (p_current_song s))
   \<and> \<not> cptr_empty (psz_t (p_current_song s)) \<and> 30 \<le> i_l (p_current_song s)"
  by (auto simp: add_check_def Let_def split: if_splits)

lemma add_check_eligible:
  "b_submit s \<Longrightarrow> eligible now (time_total_pauses s) (p_current_song s) \<Longrightarrow>
   add_check now s = (if QUEUE_MAX \<le> i_songs s then QueueFull else Queued)"
  by (auto simp: add_check_def eligible_def played_time_def Let_def)

lemma DeleteSong_idem: "DeleteSong x = Inr c \<Longrightarrow> DeleteSong c = Inr c"
  by (auto simp: DeleteSong_def split: if_splits)

lemma queue_inv_copy:
  assumes "queue_inv s" "i_songs s < QUEUE_MAX" "song_ok (p_current_song s)"
  shows "queue_inv (queue_copy s)"
proof -
  have "queue_list (queue_copy s) = queue_list s @ [p_current_song s]"
    using assms(1,2) by (rule queue_list_copy)
  with assms show ?thesis
    by (auto simp: queue_inv_def queue_copy_def Let_def)
qed

lemma AddToQueue_time_total_pauses:
  "AddToQueue now s = Inr (r, s') \<Longrightarrow> time_total_pauses s' = time_total_pauses s"
  by (auto simp: AddToQueue_def queue_copy_def Let_def split: sum.splits if_splits)

lemma AddToQueue_no_error:
  "current_inv s \<Longrightarrow> b_submit s \<Longrightarrow> \<exists>r s'. AddToQueue now s = Inr (r, s')"
  by (auto simp: AddToQueue_def queue_copy_def current_inv_def Let_def song_ok_def
                 DeleteSong_def split: if_splits)

lemma AddToQueue_inv_step:
  assumes "queue_inv s" "current_inv s" "AddToQueue now s = Inr (r, s')"
  shows "queue_inv s' \<and> current_inv s'"
proof -
  from AddToQueue_cases [OF assms(3)]
  have r: "r = add_check now s"
    and s': "if r = Queued then \<exists>c. s' = (queue_copy s)\<lparr>p_current_song := c, b_submit := False\<rparr>
             else \<exists>c. s' = s\<lparr>p_current_song := c, b_submit := False\<rparr>" by blast+
  have "current_inv s'"
    using s' by (auto simp: current_inv_def split: if_splits)
  moreover have "queue_inv s'"
  proof (cases "r = Queued")
    case True
    with r have "add_check now s = Queued" by simp
    then have "b_submit s \<and> i_songs s < QUEUE_MAX" by (blast dest: add_check_Queued)
    with assms(1,2) have "queue_inv (queue_copy s)"
      by (simp add: queue_inv_copy current_inv_def)
    with True s' show ?thesis by auto
  next
    case False
    with s' assms(1) show ?thesis by auto
  qed
  ultimately show ?thesis by blast
qed

lemma AddToQueue_queue_list:
  assumes "queue_inv s" "AddToQueue now s = Inr (r, s')"
  shows "queue_list s' = (if r = Queued then queue_list s @ [p_current_song s] else queue_list s)"
proof -
  from AddToQueue_cases [OF assms(2)]
  have r: "r = add_check now s"
    and s': "if r = Queued then \<exists>c. s' = (queue_copy s)\<lparr>p_current_song := c, b_submit := False\<rparr>
             else \<exists>c. s' = s\<lparr>p_current_song := c, b_submit := False\<rparr>" by blast+
  show ?thesis
  proof (cases "r = Queued")
    case True
    with r have "add_check now s = Queued" by simp
    then have "i_songs s < QUEUE_MAX" by (blast dest: add_check_Queued)
    with assms(1) have "queue_list (queue_copy s) = queue_list s @ [p_current_song s]"
      by (rule queue_list_copy)
    with True s' show ?thesis by auto
  next
    case False
    with s' show ?thesis by auto
  qed
qed

lemma take_append_full:
  "length q \<le> n \<Longrightarrow> take n ((if length q < n then q @ [x] else q) @ xs) = take n (q @ x # xs)"
  by (cases "length q < n") simp_all

lemma enqueue_plays_step:
  assumes "queue_inv s" "time_total_pauses s = 0" "song_ok x" "eligible now 0 x"
  obtains s1 where "AddToQueue now (s\<lparr>p_current_song := x, b_submit := True\<rparr>) =
                      Inr (if i_songs s < QUEUE_MAX then Queued else QueueFull, s1)"
    and "queue_inv s1" "time_total_pauses s1 = 0"
    and "queue_list s1 = (if length (queue_list s) < nat QUEUE_MAX then queue_list s @ [x] else queue_list s)"
proof -
  let ?s0 = "s\<lparr>p_current_song := x, b_submit := True\<rparr>"
  have inv0: "queue_inv ?s0" "current_inv ?s0"
    using assms by (simp_all add: current_inv_def)
  obtain r s1 where add: "AddToQueue now ?s0 = Inr (r, s1)"
    using AddToQueue_no_error [of ?s0 now] inv0(2) by auto
  have r: "r = (if i_songs s < QUEUE_MAX then Queued else QueueFull)"
    using AddToQueue_cases [OF add] add_check_eligible [of ?s0 now] assms(2,4) by auto
  have "queue_inv s1" using AddToQueue_inv_step [OF inv0 add] by blast
  moreover have "time_total_pauses s1 = 0"
    using AddToQueue_time_total_pauses [OF add] assms(2) by simp
  moreover have "queue_list s1 = (if length (queue_list s) < nat QUEUE_MAX then queue_list s @ [x] else queue_list s)"
    using AddToQueue_queue_list [OF inv0(1) add] r length_queue_list [OF assms(1)] assms(1)
    by (auto simp: queue_inv_def)
  ultimately show ?thesis using that add r by blast
qed

lemma enqueue_plays_take:
  assumes "queue_inv s" "time_total_pauses s = 0" "\<forall>x\<in>set xs. song_ok x \<and> eligible now 0 x"
  shows "\<exists>s'. enqueue_plays now xs s = Inr s' \<and> queue_inv s' \<and>
              queue_list s' = take (nat QUEUE_MAX) (queue_list s @ xs)"
  using assms
proof (induction xs arbitrary: s)
  case Nil
  have "length (queue_list s) \<le> nat QUEUE_MAX"
    using Nil.prems(1) by (auto simp: length_queue_list queue_inv_def)
  with Nil.prems show ?case by simp
next
  case (Cons x xs)
  then have x: "song_ok x" "eligible now 0 x" by simp_all
  obtain s1 where add: "AddToQueue now (s\<lparr>p_current_song := x, b_submit := True\<rparr>) =
                      Inr (if i_songs s < QUEUE_MAX then Queued else QueueFull, s1)"
    and s1: "queue_inv s1" "time_total_pauses s1 = 0"
    and q1: "queue_list s1 = (if length (queue_list s) < nat QUEUE_MAX then queue_list s @ [x] else queue_list s)"
    using enqueue_plays_step [OF Cons.prems(1,2) x] by blast
  obtain s' where rest: "enqueue_plays now xs s1 = Inr s'" "queue_inv s'"
      "queue_list s' = take (nat QUEUE_MAX) (queue_list s1 @ xs)"
    using Cons.IH [OF s1] Cons.prems(3) by auto
  have "length (queue_list s) \<le> nat QUEUE_MAX"
    using Cons.prems(1) by (auto simp: length_queue_list queue_inv_def)
  then have "take (nat QUEUE_MAX) (queue_list s1 @ xs) = take (nat QUEUE_MAX) (queue_list s @ x # xs)"
    by (simp only: q1 take_append_full)
  with add rest show ?case by simp
qed

section \<open>Properties\<close>

text \<open>
  C2. \<^verbatim>\<open>AddToQueue\<close> keeps the queue well formed: the array keeps its 50
  entries, \<^verbatim>\<open>0 \<le> i_songs \<le> QUEUE_MAX\<close>, no queued song holds a dangling
  pointer, and the current song is again safe to queue.
\<close>

theorem AddToQueue_queue_inv:
  "queue_inv s \<Longrightarrow> current_inv s \<Longrightarrow> AddToQueue now s = Inr (r, s') \<Longrightarrow>
   queue_inv s' \<and> current_inv s'"
  by (rule AddToQueue_inv_step)

theorem AddToQueue_queue_inv_witness:
  "queue_inv sys_init \<and> current_inv sys_init \<and> AddToQueue 0 sys_init = Inr (NotSubmitting, sys_init) \<and>
   queue_inv sys_init \<and> current_inv sys_init"
proof -
  have h1: "queue_inv sys_init" by (rule queue_inv_init)
  have h2: "current_inv sys_init" by (simp add: current_inv_def sys_init_def)
  have h3: "AddToQueue 0 sys_init = Inr (NotSubmitting, sys_init)"
    by (simp add: AddToQueue_def add_check_def sys_init_def null_song_def DeleteSong_def)
  show ?thesis using AddToQueue_queue_inv [OF h1 h2 h3] h1 h2 h3 by simp
qed

text \<open>
  C5. \<^verbatim>\<open>AddToQueue\<close> implements the specification's \<open>Enqueue\<close> on the queue
  seen as a list: an accepted song is appended at the end (play order is kept),
  and every other outcome, a full queue included, leaves the queue unchanged
  (nothing is evicted or overwritten).
\<close>

theorem AddToQueue_refines_enqueue:
  "queue_inv s \<Longrightarrow> AddToQueue now s = Inr (r, s') \<Longrightarrow>
   queue_list s' = (if r = Queued then queue_list s @ [p_current_song s] else queue_list s)"
  by (rule AddToQueue_queue_list)

theorem AddToQueue_refines_enqueue_witness:
  "queue_inv sys_init \<and> AddToQueue 0 sys_init = Inr (NotSubmitting, sys_init) \<and>
   queue_list sys_init = (if NotSubmitting = Queued then queue_list sys_init @ [p_current_song sys_init]
                          else queue_list sys_init)"
proof -
  have h1: "queue_inv sys_init" by (rule queue_inv_init)
  have h2: "AddToQueue 0 sys_init = Inr (NotSubmitting, sys_init)"
    by (simp add: AddToQueue_def add_check_def sys_init_def null_song_def DeleteSong_def)
  show ?thesis using AddToQueue_refines_enqueue [OF h1 h2] h1 h2 by simp
qed

text \<open>
  C6. A queued song is moved, not copied: the queue's new last entry holds the
  current song's strings, and the current song keeps none of its five pointers,
  so the \<^verbatim>\<open>DeleteSong\<close> that ends \<^verbatim>\<open>AddToQueue\<close> frees no string the
  queue still holds.
\<close>

theorem AddToQueue_moves_song:
  "add_check now s = Queued \<Longrightarrow> queue_inv s \<Longrightarrow>
   queue_list (queue_copy s) = queue_list s @ [p_current_song s] \<and>
   psz_a (p_current_song (queue_copy s)) = NULL \<and> psz_t (p_current_song (queue_copy s)) = NULL \<and>
   psz_b (p_current_song (queue_copy s)) = NULL \<and> psz_n (p_current_song (queue_copy s)) = NULL \<and>
   psz_m (p_current_song (queue_copy s)) = NULL"
proof -
  assume q: "add_check now s = Queued" and inv: "queue_inv s"
  have "i_songs s < QUEUE_MAX" using add_check_Queued [OF q] by simp
  with inv have "queue_list (queue_copy s) = queue_list s @ [p_current_song s]" by (rule queue_list_copy)
  then show ?thesis by (simp add: queue_copy_def Let_def)
qed

theorem AddToQueue_moves_song_witness:
  "add_check 400000000 (sys_init\<lparr>p_current_song := demo_song, b_submit := True\<rparr>) = Queued \<and>
   queue_inv (sys_init\<lparr>p_current_song := demo_song, b_submit := True\<rparr>) \<and>
   queue_list (queue_copy (sys_init\<lparr>p_current_song := demo_song, b_submit := True\<rparr>)) = [demo_song] \<and>
   psz_a (p_current_song (queue_copy (sys_init\<lparr>p_current_song := demo_song, b_submit := True\<rparr>))) = NULL"
proof -
  let ?s = "sys_init\<lparr>p_current_song := demo_song, b_submit := True\<rparr>"
  have h1: "add_check 400000000 ?s = Queued"
    by (simp add: add_check_def played_time_def demo_song_def sys_init_def c_div_def QUEUE_MAX_def Let_def)
  have h2: "queue_inv ?s" using queue_inv_init by simp
  have "queue_list ?s = []" by (simp add: queue_list_def sys_init_def)
  with AddToQueue_moves_song [OF h1 h2] h1 h2 show ?thesis by simp
qed

text \<open>
  C32. The specification's capacity scenario: from any well-formed state with no
  paused time, a run of eligible plays leaves exactly the first \<^verbatim>\<open>QUEUE_MAX\<close>
  songs of the old queue followed by the plays, in play order; the plays beyond
  capacity are dropped, never evicting an earlier one.
\<close>

theorem enqueue_plays_keeps_first:
  "queue_inv s \<Longrightarrow> time_total_pauses s = 0 \<Longrightarrow> \<forall>x\<in>set xs. song_ok x \<and> eligible now 0 x \<Longrightarrow>
   \<exists>s'. enqueue_plays now xs s = Inr s' \<and> queue_inv s' \<and>
        queue_list s' = take (nat QUEUE_MAX) (queue_list s @ xs)"
  by (rule enqueue_plays_take)

theorem enqueue_plays_keeps_first_witness:
  "queue_inv sys_init \<and> time_total_pauses sys_init = 0 \<and>
   song_ok demo_song \<and> eligible 400000000 0 demo_song \<and>
   (\<exists>s'. enqueue_plays 400000000 [demo_song, demo_song] sys_init = Inr s' \<and> queue_inv s' \<and>
        queue_list s' = take (nat QUEUE_MAX) (queue_list sys_init @ [demo_song, demo_song]))"
proof -
  have h1: "queue_inv sys_init" by (rule queue_inv_init)
  have h2: "time_total_pauses sys_init = 0" by (simp add: sys_init_def)
  have h0: "song_ok demo_song" "eligible 400000000 0 demo_song"
    by (simp_all add: demo_song_def song_ok_def eligible_def c_div_def)
  then have h3: "\<forall>x\<in>set [demo_song, demo_song]. song_ok x \<and> eligible 400000000 0 x"
    by simp
  show ?thesis using enqueue_plays_keeps_first [OF h1 h2 h3] h1 h2 h0 by blast
qed

text \<open>
  A play is queued at most once: after \<^verbatim>\<open>AddToQueue\<close> returns,
  \<^verbatim>\<open>b_submit\<close> is clear and the current song's strings are released, so a second
  end-of-play event for the same item is a no-op.
\<close>

theorem AddToQueue_consumes_play:
  assumes "AddToQueue now s = Inr (r, s')"
  shows "AddToQueue now' s' = Inr (NotSubmitting, s')"
proof -
  obtain s1 c where del: "DeleteSong (p_current_song s1) = Inr c"
    and s': "s' = s1\<lparr>p_current_song := c, b_submit := False\<rparr>"
    using assms by (auto simp: AddToQueue_def Let_def split: sum.splits)
  have "DeleteSong (p_current_song s') = Inr (p_current_song s')"
    using DeleteSong_idem [OF del] s' by simp
  moreover have "add_check now' s' = NotSubmitting"
    using s' by (simp add: add_check_def)
  ultimately show ?thesis
    using s' by (simp add: AddToQueue_def)
qed

theorem AddToQueue_consumes_play_witness:
  "AddToQueue 0 sys_init = Inr (NotSubmitting, sys_init) \<and>
   AddToQueue 5 sys_init = Inr (NotSubmitting, sys_init)"
proof -
  have h: "AddToQueue 0 sys_init = Inr (NotSubmitting, sys_init)"
    by (simp add: AddToQueue_def add_check_def sys_init_def null_song_def DeleteSong_def)
  show ?thesis using AddToQueue_consumes_play [OF h, of 5] h by simp
qed

text \<open>
  C22. The listening time mixes units: \<^verbatim>\<open>mdate()\<close> is in microseconds and the
  song's \<^verbatim>\<open>date\<close>, from \<^verbatim>\<open>time()\<close>, in seconds. On a wall clock in
  microseconds, \<open>now = (d + L) * 1000000\<close> after \<open>L\<close> seconds of play, the
  computed time is at least 240 seconds for any date after 1970-01-01 00:16:40, so
  "not listened long enough" never rejects a play.
\<close>

theorem add_check_wallclock_never_too_short:
  assumes "date (p_current_song s) = d" "time_total_pauses s = 0" "1000 \<le> d" "0 \<le> L"
  shows "add_check ((d + L) * 1000000) s \<noteq> NotListenedEnough"
proof -
  have big: "240 * 1000000 \<le> (d + L) * 1000000 - d" using assms(3,4) by simp
  then have "240 \<le> ((d + L) * 1000000 - d) div 1000000"
    by (metis nonzero_mult_div_cancel_right zdiv_mono1 zero_less_numeral zero_neq_numeral)
  with big have "240 \<le> played_time ((d + L) * 1000000) s"
    using assms(1,2) by (simp add: played_time_def)
  then show ?thesis by (auto simp: add_check_def Let_def)
qed

theorem add_check_wallclock_never_too_short_witness:
  "date (p_current_song (sys_init\<lparr>p_current_song := demo_song\<lparr>date := 1200000000\<rparr>, b_submit := True\<rparr>)) = 1200000000 \<and>
   time_total_pauses (sys_init\<lparr>p_current_song := demo_song\<lparr>date := 1200000000\<rparr>, b_submit := True\<rparr>) = 0 \<and>
   (1000::int) \<le> 1200000000 \<and> (0::int) \<le> 10 \<and>
   add_check ((1200000000 + 10) * 1000000) (sys_init\<lparr>p_current_song := demo_song\<lparr>date := 1200000000\<rparr>, b_submit := True\<rparr>) \<noteq> NotListenedEnough"
proof -
  let ?s = "sys_init\<lparr>p_current_song := demo_song\<lparr>date := 1200000000\<rparr>, b_submit := True\<rparr>"
  have h1: "date (p_current_song ?s) = 1200000000" by simp
  have h2: "time_total_pauses ?s = 0" by (simp add: sys_init_def)
  show ?thesis using add_check_wallclock_never_too_short [OF h1 h2, of 10] h1 h2 by simp
qed

end
