(* ===== verification/CString.thy ===== *)
theory CString
  imports Prelude
begin

text \<open>
  The C library string functions that \<^verbatim>\<open>audioscrobbler.c\<close> calls, on
  \<open>string\<close> (a list of 8-bit \<open>char\<close>s, the bytes of a NUL-terminated C string
  without its terminator): \<^verbatim>\<open>strstr\<close> (a pointer into the haystack is the
  suffix it points to), \<^verbatim>\<open>strcspn\<close>, \<^verbatim>\<open>atoi\<close>, the \<^verbatim>\<open>%d\<close> and
  \<^verbatim>\<open>%llu\<close> conversions of \<^verbatim>\<open>printf\<close>, and the NUL-termination of a
  byte buffer read from the network. They are the C standard's semantics, not code
  of the repository; the lemmas here are the facts the codec proofs use.
\<close>

section \<open>Buffers\<close>

text \<open>
  \<^verbatim>\<open>p_buffer[i_ret] = '\0'\<close> after reading at most 1023 bytes: the C string
  seen by \<^verbatim>\<open>strstr\<close> is the bytes read up to the first NUL.
\<close>

definition cstr_of_buffer :: "string \<Rightarrow> string" where
  "cstr_of_buffer bs = takeWhile (\<lambda>c. c \<noteq> CHR 0x00) (take 1023 bs)"

text \<open>Line feed and carriage return (Isabelle string literals have no escapes).\<close>

abbreviation LF :: char where "LF \<equiv> CHR 0x0A"
abbreviation CR :: char where "CR \<equiv> CHR 0x0D"

section \<open>Searching\<close>

fun starts_with :: "string \<Rightarrow> string \<Rightarrow> bool" where
  "starts_with s [] = True"
| "starts_with [] (c # cs) = False"
| "starts_with (x # xs) (c # cs) = (x = c \<and> starts_with xs cs)"

text \<open>\<^verbatim>\<open>strstr(h, n)\<close>: the suffix of \<open>h\<close> at the first occurrence of \<open>n\<close>.\<close>

fun strstr :: "string \<Rightarrow> string \<Rightarrow> string option" where
  "strstr [] n = (if n = [] then Some [] else None)"
| "strstr (x # xs) n = (if starts_with (x # xs) n then Some (x # xs) else strstr xs n)"

text \<open>\<^verbatim>\<open>strcspn(s, r)\<close>: the length of the longest prefix with no byte of \<open>r\<close>.\<close>

definition strcspn :: "string \<Rightarrow> string \<Rightarrow> nat" where
  "strcspn s r = length (takeWhile (\<lambda>c. c \<notin> set r) s)"

section \<open>Numbers\<close>

definition is_digit :: "char \<Rightarrow> bool" where
  "is_digit c \<longleftrightarrow> (48::nat) \<le> of_char c \<and> of_char c \<le> (57::nat)"

definition is_space :: "char \<Rightarrow> bool" where
  "is_space c \<longleftrightarrow> c = CHR '' '' \<or> c = CHR 0x09 \<or> c = CHR 0x0A \<or> c = CHR 0x0B
                    \<or> c = CHR 0x0C \<or> c = CHR 0x0D"

definition digit_val :: "char \<Rightarrow> nat" where
  "digit_val c = of_char c - 48"

definition digit_char :: "nat \<Rightarrow> char" where
  "digit_char d = char_of (48 + d)"

fun digits_acc :: "int \<Rightarrow> string \<Rightarrow> int" where
  "digits_acc acc [] = acc"
| "digits_acc acc (c # cs) = (if is_digit c then digits_acc (10 * acc + int (digit_val c)) cs else acc)"

text \<open>
  \<^verbatim>\<open>atoi\<close>: leading white space, an optional sign, then decimal digits. The
  result of an out-of-range value is undefined in C; the model computes the
  mathematical value, which the port check then compares with 0.
\<close>

definition atoi :: "string \<Rightarrow> int" where
  "atoi s = (case dropWhile is_space s of
      [] \<Rightarrow> 0
    | c # cs \<Rightarrow> (if c = CHR ''-'' then - digits_acc 0 cs
                else if c = CHR ''+'' then digits_acc 0 cs
                else digits_acc 0 (c # cs)))"

text \<open>\<^verbatim>\<open>%llu\<close>/\<^verbatim>\<open>%u\<close> of an unsigned value and \<^verbatim>\<open>%d\<close> of an \<^verbatim>\<open>int\<close>.\<close>

fun dec_nat :: "nat \<Rightarrow> string" where
  "dec_nat n = (if n < 10 then [digit_char n] else dec_nat (n div 10) @ [digit_char (n mod 10)])"

definition dec_int :: "int \<Rightarrow> string" where
  "dec_int i = (if i < 0 then CHR ''-'' # dec_nat (nat (- i)) else dec_nat (nat i))"

declare dec_nat.simps [simp del]

section \<open>Lemmas\<close>

lemma starts_with_append [simp, cstring_simps]: "starts_with (n @ r) n"
  by (induction n) simp_all

lemma starts_with_iff: "starts_with s n \<longleftrightarrow> (\<exists>r. s = n @ r)"
  by (induction s n rule: starts_with.induct) auto

lemma strstr_Some_suffix:
  "strstr h n = Some r \<Longrightarrow> \<exists>p. h = p @ r \<and> starts_with r n"
proof (induction h n rule: strstr.induct)
  case (1 n)
  then show ?case by (simp split: if_splits)
next
  case (2 x xs n)
  show ?case
  proof (cases "starts_with (x # xs) n")
    case True
    with "2.prems" show ?thesis by auto
  next
    case False
    with "2.prems" have "strstr xs n = Some r" by simp
    with "2.IH" False obtain p where "xs = p @ r" and "starts_with r n" by blast
    then show ?thesis by (metis append_Cons)
  qed
qed

lemma strstr_None_iff: "strstr h n = None \<longleftrightarrow> (\<nexists>p q. h = p @ n @ q)"
proof (induction h n rule: strstr.induct)
  case (1 n)
  then show ?case by auto
next
  case (2 x xs n)
  have split: "(\<exists>p q. x # xs = p @ n @ q) \<longleftrightarrow>
               starts_with (x # xs) n \<or> (\<exists>p q. xs = p @ n @ q)"
    by (auto simp: starts_with_iff Cons_eq_append_conv)
  show ?case
    using "2.IH" by (simp only: strstr.simps split) auto
qed

lemma strstr_Some_iff: "(\<exists>r. strstr h n = Some r) \<longleftrightarrow> (\<exists>p q. h = p @ n @ q)"
proof -
  have "(\<exists>r. strstr h n = Some r) \<longleftrightarrow> strstr h n \<noteq> None" by auto
  then show ?thesis using strstr_None_iff [of h n] by simp
qed

lemma is_digit_digit_char [simp]: "d < 10 \<Longrightarrow> is_digit (digit_char d)"
  by (simp add: is_digit_def digit_char_def)

lemma digit_val_digit_char [simp]: "d < 10 \<Longrightarrow> digit_val (digit_char d) = d"
  by (simp add: digit_val_def digit_char_def)

lemma dec_nat_nonempty [simp]: "dec_nat n \<noteq> []"
  by (subst dec_nat.simps) simp

lemma dec_nat_digits: "\<forall>c\<in>set (dec_nat n). is_digit c"
proof (induction n rule: dec_nat.induct)
  case (1 n)
  then show ?case by (subst dec_nat.simps) simp
qed

lemma digits_acc_append:
  "\<forall>c\<in>set ds. is_digit c \<Longrightarrow> digits_acc acc (ds @ rest) = digits_acc (digits_acc acc ds) rest"
  by (induction ds arbitrary: acc) simp_all

lemma digits_acc_stop [simp]: "rest = [] \<or> \<not> is_digit (hd rest) \<Longrightarrow> digits_acc acc rest = acc"
  by (cases rest) simp_all

lemma digits_acc_dec_nat_exact:
  "digits_acc acc (dec_nat n) = acc * 10 ^ length (dec_nat n) + int n"
proof (induction n arbitrary: acc rule: dec_nat.induct)
  case (1 n)
  show ?case
  proof (cases "n < 10")
    case True
    then show ?thesis by (simp add: dec_nat.simps [of n])
  next
    case False
    have "digits_acc acc (dec_nat n) =
          digits_acc (digits_acc acc (dec_nat (n div 10))) [digit_char (n mod 10)]"
      using False dec_nat_digits [of "n div 10"]
      by (simp add: dec_nat.simps [of n] digits_acc_append)
    also have "\<dots> = 10 * (acc * 10 ^ length (dec_nat (n div 10)) + int (n div 10)) + int (n mod 10)"
      using "1.IH" [OF False] by simp
    also have "\<dots> = acc * 10 ^ length (dec_nat n) + int n"
      using False by (simp add: dec_nat.simps [of n] algebra_simps of_nat_mod of_nat_div)
    finally show ?thesis .
  qed
qed

text \<open>Round trip of printing and parsing a decimal number: the digit loop of \<^verbatim>\<open>atoi\<close> reads back what \<^verbatim>\<open>%u\<close> wrote.\<close>

lemma digits_acc_dec_nat:
  "rest = [] \<or> \<not> is_digit (hd rest) \<Longrightarrow> digits_acc 0 (dec_nat n @ rest) = int n"
  by (simp add: digits_acc_append dec_nat_digits digits_acc_dec_nat_exact)

lemma atoi_dec_nat:
  assumes "rest = [] \<or> \<not> is_digit (hd rest)"
  shows "atoi (dec_nat n @ rest) = int n"
proof -
  obtain c cs where dc: "dec_nat n = c # cs"
    by (cases "dec_nat n") simp_all
  have dig: "is_digit c"
    using dec_nat_digits [of n] dc by simp
  then have "\<not> is_space c" "c \<noteq> CHR ''-''" "c \<noteq> CHR ''+''"
    by (auto simp: is_digit_def is_space_def)
  with dc have "atoi (dec_nat n @ rest) = digits_acc 0 (dec_nat n @ rest)"
    by (simp add: atoi_def del: digits_acc.simps)
  with assms show ?thesis by (simp add: digits_acc_dec_nat)
qed

lemma strstr_here [simp, cstring_simps]: "n \<noteq> [] \<Longrightarrow> strstr (n @ s) n = Some (n @ s)"
  by (cases n) simp_all

lemma strstr_skip:
  "(\<forall>i<length p. \<not> starts_with (drop i p @ s) n) \<Longrightarrow> strstr (p @ s) n = strstr s n"
proof (induction p)
  case Nil
  then show ?case by simp
next
  case (Cons x p)
  from Cons.prems have "\<not> starts_with (x # p @ s) n" by (metis drop0 length_Cons zero_less_Suc append_Cons)
  moreover from Cons.prems have "\<forall>i<length p. \<not> starts_with (drop i p @ s) n"
    by (metis Suc_mono drop_Suc_Cons length_Cons)
  ultimately show ?case using Cons.IH by simp
qed

lemma starts_with_sep:
  "c \<notin> set n \<Longrightarrow> starts_with (p @ c # s) n \<Longrightarrow> starts_with p n"
  by (induction p n rule: starts_with.induct) auto

lemma starts_with_imp_strstr:
  "starts_with p n \<Longrightarrow> n \<noteq> [] \<Longrightarrow> strstr p n \<noteq> None"
  by (auto simp: starts_with_iff strstr_None_iff)

lemma strstr_None_drop:
  "strstr p n = None \<Longrightarrow> strstr (drop i p) n = None"
  by (auto simp: strstr_None_iff) (metis append.assoc append_take_drop_id)

text \<open>Skipping a field that does not contain the needle, up to a separator the needle does not contain.\<close>

lemma strstr_past_sep [cstring_simps]:
  assumes "c \<notin> set n" "n \<noteq> []" "strstr p n = None"
  shows "strstr (p @ c # s) n = strstr s n"
proof -
  have "\<forall>i<length p. \<not> starts_with (drop i p @ c # s) n"
  proof (intro allI impI)
    fix i assume "i < length p"
    show "\<not> starts_with (drop i p @ c # s) n"
    proof
      assume "starts_with (drop i p @ c # s) n"
      then have "starts_with (drop i p) n" by (rule starts_with_sep [OF assms(1)])
      then have "strstr (drop i p) n \<noteq> None" using assms(2) by (rule starts_with_imp_strstr)
      with strstr_None_drop [OF assms(3)] show False by simp
    qed
  qed
  then have "strstr (p @ c # s) n = strstr (c # s) n" by (rule strstr_skip)
  also have "\<dots> = strstr s n"
    using assms(1,2) by (cases n) auto
  finally show ?thesis .
qed

lemma strstr_char_skip [cstring_simps]:
  assumes "c \<notin> set p"
  shows "strstr (p @ s) [c] = strstr s [c]"
proof (rule strstr_skip, intro allI impI)
  fix i assume i: "i < length p"
  then have "drop i p = p ! i # drop (Suc i) p" by (simp add: Cons_nth_drop_Suc)
  moreover have "p ! i \<noteq> c" using i assms by (metis nth_mem)
  ultimately show "\<not> starts_with (drop i p @ s) [c]" by simp
qed

lemma strcspn_stop [cstring_simps]: "\<forall>x\<in>set u. x \<notin> set r \<Longrightarrow> c \<in> set r \<Longrightarrow> strcspn (u @ c # s) r = length u"
  by (simp add: strcspn_def)

lemma strcspn_all [cstring_simps]: "\<forall>x\<in>set u. x \<notin> set r \<Longrightarrow> strcspn u r = length u"
  by (simp add: strcspn_def takeWhile_eq_all_conv [THEN iffD2])

end
