(* ===== verification/Codec.thy ===== *)
theory Codec
  imports Sys CString
begin

text \<open>
  The protocol codec of audioscrobbler.c: the handshake request (the URL and the
  authentication token built in \<^verbatim>\<open>Handshake\<close>, lines 734--779), the parsing
  of the handshake response (lines 798--892) with \<^verbatim>\<open>ParseURL\<close> (lines
  652--691), the submission body that \<^verbatim>\<open>Run\<close> builds under the lock (lines
  344--383), the HTTP request it sends (\<^verbatim>\<open>POST_REQUEST\<close>, lines 144--153) and
  the classification of the submission reply (lines 426--461). Parsing is by
  \<^verbatim>\<open>strstr\<close> on the NUL-terminated buffer, as in the source. Allocation
  failures of \<^verbatim>\<open>strndup\<close>/\<^verbatim>\<open>strdup\<close> are not modelled.
\<close>

section \<open>Definitions\<close>

text \<open>The return codes the functions use (VLC's error codes and \<^verbatim>\<open>VLC_AUDIOSCROBBLER_EFATAL\<close>).\<close>

datatype vlc_ret = VLC_SUCCESS | VLC_ENOMEM | VLC_ENOVAR | VLC_EGENERIC | VLC_AUDIOSCROBBLER_EFATAL

text \<open>
  \<^verbatim>\<open>ParseURL(url, &host, &file, &port)\<close>: the old host and file are freed
  first; the result is the return code and the new host, file and port. The split
  is at the first \<^verbatim>\<open>:\<close> and at the first \<^verbatim>\<open>/\<close> of the whole URL.
\<close>

definition ParseURL :: "string \<Rightarrow> int \<Rightarrow> vlc_ret \<times> cptr \<times> cptr \<times> int" where
  "ParseURL url port =
     (let len = length url; pos = strcspn url '':'' in
      if pos = len then (VLC_EGENERIC, NULL, NULL, port)
      else let host = Ptr (take pos url); port' = atoi (drop (Suc pos) url) in
      if port' \<le> 0 then (VLC_EGENERIC, NULL, NULL, port')
      else let pos2 = strcspn url ''/'' in
      if pos2 = len then (VLC_EGENERIC, host, NULL, port')
      else (VLC_SUCCESS, host, Ptr (drop (Suc pos2) url), port'))"

text \<open>
  The endpoint fields of \<^verbatim>\<open>intf_sys_t\<close> that the handshake writes:
  \<^verbatim>\<open>psz_submit_host\<close>, \<^verbatim>\<open>psz_submit_file\<close>, \<^verbatim>\<open>i_submit_port\<close>.
\<close>

type_synonym endpoint = "cptr \<times> cptr \<times> int"

text \<open>
  The response part of \<^verbatim>\<open>Handshake\<close>: from the received C string \<open>buf\<close> and
  the token buffer \<open>tok\<close> (which holds the MD5 authentication token at this
  point), the return code, the new token buffer (the session id, 32 bytes copied
  by \<^verbatim>\<open>snprintf\<close>) and the new endpoint. \<^verbatim>\<open>goto proto\<close> is
  \<open>VLC_EGENERIC\<close>; the first \<^verbatim>\<open>http://\<close> URL (now-playing) is skipped.
\<close>

definition parse_handshake_response ::
  "string \<Rightarrow> string \<Rightarrow> endpoint \<Rightarrow> vlc_ret \<times> string \<times> endpoint" where
  "parse_handshake_response buf tok ep =
     (if strstr buf ''FAILED '' \<noteq> None then (VLC_EGENERIC, tok, ep)
      else if strstr buf ''BADAUTH'' \<noteq> None then (VLC_AUDIOSCROBBLER_EFATAL, tok, ep)
      else if strstr buf ''BANNED'' \<noteq> None then (VLC_AUDIOSCROBBLER_EFATAL, tok, ep)
      else if strstr buf ''BADTIME'' \<noteq> None then (VLC_AUDIOSCROBBLER_EFATAL, tok, ep)
      else case strstr buf ''OK'' of
        None \<Rightarrow> (VLC_EGENERIC, tok, ep)
      | Some p1 \<Rightarrow>
        (case strstr p1 [LF] of
          None \<Rightarrow> (VLC_EGENERIC, tok, ep)
        | Some p2 \<Rightarrow>
          if length p2 < 34 then (VLC_EGENERIC, tok, ep)
          else let p3 = tl p2; tok' = take 32 p3 in
          (case strstr p3 ''http://'' of
            None \<Rightarrow> (VLC_EGENERIC, tok', ep)
          | Some p4 \<Rightarrow>
            if length p4 = 7 then (VLC_EGENERIC, tok', ep)
            else (case strstr (drop 7 p4) ''http://'' of
              None \<Rightarrow> (VLC_EGENERIC, tok', ep)
            | Some p6 \<Rightarrow>
              if length p6 = 7 then (VLC_EGENERIC, tok', ep)
              else let p7 = drop 7 p6; url = take (strcspn p7 [LF]) p7 in
                (case ParseURL url (snd (snd ep)) of
                  (r, h, f, port) \<Rightarrow> (r, tok', h, f, port))))))"

text \<open>
  The authentication token: the MD5 of the first 32 bytes of the hex MD5 of the
  password followed by the decimal timestamp (\<^verbatim>\<open>%llu\<close> of the
  \<^verbatim>\<open>time_t\<close> cast to \<^verbatim>\<open>uintmax_t\<close>). \<open>md5\<close> is \<^verbatim>\<open>psz_md5_hash\<close>
  after \<^verbatim>\<open>AddMD5\<close>/\<^verbatim>\<open>EndMD5\<close>, a library function, taken as a parameter.
\<close>

definition timestamp_str :: "time_t \<Rightarrow> string" where
  "timestamp_str ts = dec_nat (nat (ts mod 2 ^ 64))"

definition auth_token :: "(string \<Rightarrow> string) \<Rightarrow> string \<Rightarrow> time_t \<Rightarrow> string" where
  "auth_token md5 password ts = md5 (take 32 (md5 password) @ timestamp_str ts)"

definition handshake_url :: "string \<Rightarrow> string \<Rightarrow> string \<Rightarrow> time_t \<Rightarrow> string \<Rightarrow> string" where
  "handshake_url client version user ts token =
     ''http://post.audioscrobbler.com/?hs=true&p=1.2&c='' @ client @ ''&v='' @ version @
     ''&u='' @ user @ ''&t='' @ timestamp_str ts @ ''&a='' @ token"

text \<open>One song's parameters, the \<^verbatim>\<open>asprintf\<close> of lines 356--365, at index \<open>i\<close>.\<close>

definition song_params :: "nat \<Rightarrow> song \<Rightarrow> string" where
  "song_params i x =
     ''&a%5B'' @ dec_nat i @ ''%5D='' @ cptr_str (psz_a x) @
     ''&t%5B'' @ dec_nat i @ ''%5D='' @ cptr_str (psz_t x) @
     ''&i%5B'' @ dec_nat i @ ''%5D='' @ timestamp_str (date x) @
     ''&o%5B'' @ dec_nat i @ ''%5D=P'' @ ''&r%5B'' @ dec_nat i @ ''%5D='' @
     ''&l%5B'' @ dec_nat i @ ''%5D='' @ dec_int (i_l x) @
     ''&b%5B'' @ dec_nat i @ ''%5D='' @ cptr_str (psz_b x) @
     ''&n%5B'' @ dec_nat i @ ''%5D='' @ cptr_str (psz_n x) @
     ''&m%5B'' @ dec_nat i @ ''%5D='' @ cptr_str (psz_m x)"

text \<open>The loop over \<^verbatim>\<open>i_song\<close>, appending each song's parameters to \<^verbatim>\<open>psz_submit\<close>.\<close>

fun submit_loop :: "nat \<Rightarrow> song list \<Rightarrow> string \<Rightarrow> string" where
  "submit_loop i [] acc = acc"
| "submit_loop i (x # xs) acc = submit_loop (Suc i) xs (acc @ song_params i x)"

definition submission_body :: "string \<Rightarrow> song list \<Rightarrow> string" where
  "submission_body tok xs = submit_loop 0 xs (''s='' @ tok)"

text \<open>\<^verbatim>\<open>POST_REQUEST\<close> with its five arguments (file, length, host, version, body).\<close>

definition post_request :: "string \<Rightarrow> nat \<Rightarrow> string \<Rightarrow> string \<Rightarrow> string \<Rightarrow> string" where
  "post_request file len host version body =
     ''POST /'' @ file @ '' HTTP/1.1'' @ [LF] @
     ''Accept-Encoding: identity'' @ [LF] @
     ''Content-length: '' @ dec_nat len @ [LF] @
     ''Connection: close'' @ [LF] @
     ''Content-type: application/x-www-form-urlencoded'' @ [LF] @
     ''Host: '' @ host @ [LF] @
     ''User-agent: VLC Media Player/'' @ version @ [CR, LF] @
     [CR, LF] @ body @ [CR, LF] @ [CR, LF]"

text \<open>Which marker of the submission reply \<^verbatim>\<open>Run\<close> acts on, in its order.\<close>

datatype submit_reply = ReplyFailed | ReplyBadSession | ReplyOK | ReplyOther

definition classify_reply :: "string \<Rightarrow> submit_reply" where
  "classify_reply buf =
     (if strstr buf ''FAILED'' \<noteq> None then ReplyFailed
      else if strstr buf ''BADSESSION'' \<noteq> None then ReplyBadSession
      else if strstr buf ''OK'' \<noteq> None then ReplyOK
      else ReplyOther)"

text \<open>A well-formed handshake reply of protocol 1.2, as the server sends it.\<close>

definition hs_reply_ok :: "string \<Rightarrow> string \<Rightarrow> string \<Rightarrow> nat \<Rightarrow> string \<Rightarrow> string" where
  "hs_reply_ok sid np host port path =
     ''OK'' @ [LF] @ sid @ [LF] @ ''http://'' @ np @ [LF] @
     ''http://'' @ host @ '':'' @ dec_nat port @ ''/'' @ path @ [LF]"

text \<open>A session id of the protocol's length, for the concrete instances below.\<close>

definition demo_sid :: string where
  "demo_sid = ''0123456789abcdef0123456789abcdef''"

section \<open>Lemmas\<close>

lemma digit_not_sep [simp]:
  "is_digit c \<Longrightarrow> c \<noteq> CHR ''/'' \<and> c \<noteq> CHR '':'' \<and> c \<noteq> LF"
  by (auto simp: is_digit_def)

lemma ParseURL_split:
  assumes "CHR '':'' \<notin> set host" "CHR ''/'' \<notin> set host" "0 < port"
  shows "ParseURL (host @ '':'' @ dec_nat port @ ''/'' @ path) p = (VLC_SUCCESS, Ptr host, Ptr path, int port)"
proof -
  let ?url = "host @ CHR '':'' # dec_nat port @ CHR ''/'' # path"
  have c1: "strcspn ?url '':'' = length host"
    using assms(1) by (intro strcspn_stop) auto
  have a: "atoi (dec_nat port @ CHR ''/'' # path) = int port"
    by (rule atoi_dec_nat) (simp add: is_digit_def)
  have "\<forall>x\<in>set (host @ CHR '':'' # dec_nat port). x \<notin> set ''/''"
    using assms(2) dec_nat_digits [of port] digit_not_sep by fastforce
  then have c2: "strcspn ?url ''/'' = Suc (length host + length (dec_nat port))"
    using strcspn_stop [of "host @ CHR '':'' # dec_nat port" "''/''" "CHR ''/''" path] by simp
  show ?thesis
    using assms(3) by (simp add: ParseURL_def Let_def c1 a c2)
qed

lemma ParseURL_ret: "fst (ParseURL url p) \<in> {VLC_SUCCESS, VLC_EGENERIC}"
  by (simp add: ParseURL_def Let_def)

lemma submit_loop_concat:
  "submit_loop i xs acc = acc @ concat (map (\<lambda>(j, x). song_params j x) (zip [i..<i + length xs] xs))"
proof (induction xs arbitrary: i acc)
  case Nil
  then show ?case by simp
next
  case (Cons x xs)
  have "[i..<i + length (x # xs)] = i # [Suc i..<Suc i + length xs]"
    using upt_conv_Cons [of i "i + Suc (length xs)"] by simp
  then show ?case using Cons.IH by simp
qed

lemma parse_handshake_reply_ok:
  assumes sid: "length sid = 32" "strstr sid ''http://'' = None"
    and np: "strstr np ''http://'' = None"
    and url: "LF \<notin> set host" "LF \<notin> set path" "CHR '':'' \<notin> set host" "CHR ''/'' \<notin> set host" "0 < port"
    and mk: "strstr (hs_reply_ok sid np host port path) ''FAILED '' = None"
      "strstr (hs_reply_ok sid np host port path) ''BADAUTH'' = None"
      "strstr (hs_reply_ok sid np host port path) ''BANNED'' = None"
      "strstr (hs_reply_ok sid np host port path) ''BADTIME'' = None"
  shows "parse_handshake_response (hs_reply_ok sid np host port path) tok ep =
           (VLC_SUCCESS, sid, Ptr host, Ptr path, int port)"
proof -
  let ?url = "host @ '':'' @ dec_nat port @ ''/'' @ path"
  let ?p6 = "''http://'' @ ?url @ [LF]"
  let ?p4 = "''http://'' @ np @ LF # ?p6"
  let ?p3 = "sid @ LF # ?p4"
  let ?p2 = "LF # ?p3"
  have buf: "hs_reply_ok sid np host port path = ''OK'' @ ?p2"
    by (simp add: hs_reply_ok_def)
  have s1: "strstr (''OK'' @ ?p2) ''OK'' = Some (''OK'' @ ?p2)"
    by (rule strstr_here) simp
  have s2: "strstr (''OK'' @ ?p2) [LF] = Some ?p2"
    using strstr_char_skip [of LF "''OK''" ?p2] by simp
  have len: "\<not> length ?p2 < 34" using sid(1) by simp
  have tok: "take 32 ?p3 = sid" using sid(1) by simp
  have s3: "strstr ?p3 ''http://'' = Some ?p4"
    using strstr_past_sep [of LF "''http://''" sid ?p4] sid(2) by simp
  have s4: "strstr (drop 7 ?p4) ''http://'' = Some ?p6"
    using strstr_past_sep [of LF "''http://''" np ?p6] np by simp
  have nolf: "\<forall>x\<in>set ?url. x \<notin> set [LF]"
    using url(1,2) dec_nat_digits [of port] digit_not_sep by fastforce
  have s5: "strcspn (?url @ [LF]) [LF] = length ?url"
    using strcspn_stop [of ?url "[LF]" LF "[]"] nolf by simp
  have pu: "ParseURL ?url (snd (snd ep)) = (VLC_SUCCESS, Ptr host, Ptr path, int port)"
    using url(3,4,5) by (rule ParseURL_split)
  show ?thesis
    unfolding parse_handshake_response_def buf
    using mk [unfolded buf] s1 s2 len tok s3 s4 s5 pu by (simp add: Let_def)
qed
lemma parse_handshake_ret:
  "fst (parse_handshake_response buf tok ep) = VLC_AUDIOSCROBBLER_EFATAL \<longleftrightarrow>
   strstr buf ''FAILED '' = None \<and>
   (strstr buf ''BADAUTH'' \<noteq> None \<or> strstr buf ''BANNED'' \<noteq> None \<or> strstr buf ''BADTIME'' \<noteq> None)"
proof -
  have pu: "\<And>url p a b c. ParseURL url p \<noteq> (VLC_AUDIOSCROBBLER_EFATAL, a, b, c)"
    by (simp add: ParseURL_def Let_def)
  show ?thesis
    by (auto simp: parse_handshake_response_def Let_def pu split: option.splits prod.splits)
qed

section \<open>Properties\<close>

text \<open>
  C19. \<^verbatim>\<open>ParseURL\<close> reads back a \<^verbatim>\<open>host:port/path\<close> endpoint: for a host
  without \<^verbatim>\<open>:\<close> or \<^verbatim>\<open>/\<close> and a positive port printed in decimal, it
  succeeds with exactly that host, port and path.
\<close>

theorem ParseURL_roundtrip:
  "CHR '':'' \<notin> set host \<Longrightarrow> CHR ''/'' \<notin> set host \<Longrightarrow> 0 < port \<Longrightarrow>
   ParseURL (host @ '':'' @ dec_nat port @ ''/'' @ path) p = (VLC_SUCCESS, Ptr host, Ptr path, int port)"
  by (rule ParseURL_split)

theorem ParseURL_roundtrip_witness:
  "CHR '':'' \<notin> set ''post.example'' \<and> CHR ''/'' \<notin> set ''post.example'' \<and> (0::nat) < 80 \<and>
   ParseURL (''post.example'' @ '':'' @ dec_nat 80 @ ''/'' @ ''submit'') 0 =
     (VLC_SUCCESS, Ptr ''post.example'', Ptr ''submit'', int 80)"
proof -
  have h1: "CHR '':'' \<notin> set ''post.example''" by simp
  have h2: "CHR ''/'' \<notin> set ''post.example''" by simp
  have h3: "(0::nat) < 80" by simp
  show ?thesis using ParseURL_roundtrip [OF h1 h2 h3, of "''submit''" 0] by simp
qed

text \<open>
  C29. \<^verbatim>\<open>ParseURL\<close> has no default port: a URL without \<^verbatim>\<open>:\<close> is rejected
  (\<open>VLC_EGENERIC\<close>, host and file NULL, port unchanged), where the specification
  expects port 80.
\<close>

theorem ParseURL_requires_port:
  "CHR '':'' \<notin> set url \<Longrightarrow> ParseURL url p = (VLC_EGENERIC, NULL, NULL, p)"
proof -
  assume "CHR '':'' \<notin> set url"
  then have "strcspn url '':'' = length url" by (intro strcspn_all) auto
  then show ?thesis by (simp add: ParseURL_def)
qed

theorem ParseURL_requires_port_witness:
  "CHR '':'' \<notin> set ''post.example/submit'' \<and>
   ParseURL ''post.example/submit'' 7 = (VLC_EGENERIC, NULL, NULL, 7)"
proof -
  have h: "CHR '':'' \<notin> set ''post.example/submit''" by simp
  show ?thesis using ParseURL_requires_port [OF h, of 7] h by simp
qed

text \<open>
  C18. Handshake parsing reads back a well-formed 1.2 reply: for a 32-byte session
  id, a now-playing URL and a \<^verbatim>\<open>host:port/path\<close> submission URL on their
  lines, and no failure marker anywhere, the handshake succeeds with that session
  id as the token and that endpoint; the now-playing URL is skipped.
\<close>

theorem parse_handshake_roundtrip:
  "length sid = 32 \<Longrightarrow> strstr sid ''http://'' = None \<Longrightarrow> strstr np ''http://'' = None \<Longrightarrow>
   LF \<notin> set host \<Longrightarrow> LF \<notin> set path \<Longrightarrow> CHR '':'' \<notin> set host \<Longrightarrow> CHR ''/'' \<notin> set host \<Longrightarrow>
   0 < port \<Longrightarrow>
   strstr (hs_reply_ok sid np host port path) ''FAILED '' = None \<Longrightarrow>
   strstr (hs_reply_ok sid np host port path) ''BADAUTH'' = None \<Longrightarrow>
   strstr (hs_reply_ok sid np host port path) ''BANNED'' = None \<Longrightarrow>
   strstr (hs_reply_ok sid np host port path) ''BADTIME'' = None \<Longrightarrow>
   parse_handshake_response (hs_reply_ok sid np host port path) tok ep =
     (VLC_SUCCESS, sid, Ptr host, Ptr path, int port)"
  by (rule parse_handshake_reply_ok)

theorem parse_handshake_roundtrip_witness:
  "length demo_sid = 32 \<and> strstr demo_sid ''http://'' = None \<and> strstr ''np.example:80/np'' ''http://'' = None \<and>
   LF \<notin> set ''post.example'' \<and> LF \<notin> set ''submit'' \<and> CHR '':'' \<notin> set ''post.example'' \<and>
   CHR ''/'' \<notin> set ''post.example'' \<and> (0::nat) < 80 \<and>
   strstr (hs_reply_ok demo_sid ''np.example:80/np'' ''post.example'' 80 ''submit'') ''FAILED '' = None \<and>
   strstr (hs_reply_ok demo_sid ''np.example:80/np'' ''post.example'' 80 ''submit'') ''BADAUTH'' = None \<and>
   strstr (hs_reply_ok demo_sid ''np.example:80/np'' ''post.example'' 80 ''submit'') ''BANNED'' = None \<and>
   strstr (hs_reply_ok demo_sid ''np.example:80/np'' ''post.example'' 80 ''submit'') ''BADTIME'' = None \<and>
   parse_handshake_response (hs_reply_ok demo_sid ''np.example:80/np'' ''post.example'' 80 ''submit'') [] (NULL, NULL, 0) =
     (VLC_SUCCESS, demo_sid, Ptr ''post.example'', Ptr ''submit'', int 80)"
proof -
  have h1: "length demo_sid = 32" by (simp add: demo_sid_def)
  have h2: "strstr demo_sid ''http://'' = None" by (simp add: demo_sid_def)
  have h3: "strstr ''np.example:80/np'' ''http://'' = None" by simp
  have h4: "LF \<notin> set ''post.example''" "LF \<notin> set ''submit''" "CHR '':'' \<notin> set ''post.example''"
    "CHR ''/'' \<notin> set ''post.example''" "(0::nat) < 80" by simp_all
  have h5: "strstr (hs_reply_ok demo_sid ''np.example:80/np'' ''post.example'' 80 ''submit'') ''FAILED '' = None"
    "strstr (hs_reply_ok demo_sid ''np.example:80/np'' ''post.example'' 80 ''submit'') ''BADAUTH'' = None"
    "strstr (hs_reply_ok demo_sid ''np.example:80/np'' ''post.example'' 80 ''submit'') ''BANNED'' = None"
    "strstr (hs_reply_ok demo_sid ''np.example:80/np'' ''post.example'' 80 ''submit'') ''BADTIME'' = None"
    by (simp_all add: hs_reply_ok_def demo_sid_def dec_nat.simps digit_char_def)
  show ?thesis
    using parse_handshake_roundtrip [OF h1 h2 h3 h4 h5, of "[]" "(NULL, NULL, 0)"] h1 h2 h3 h4 h5
    by blast
qed

text \<open>
  C30. The handshake gives up for good (\<open>VLC_AUDIOSCROBBLER_EFATAL\<close>) exactly
  when the reply has no \<^verbatim>\<open>FAILED \<close> marker and has one of \<^verbatim>\<open>BADAUTH\<close>,
  \<^verbatim>\<open>BANNED\<close>, \<^verbatim>\<open>BADTIME\<close>; a \<^verbatim>\<open>FAILED \<close> marker takes priority and
  leaves the token and endpoint as they were.
\<close>

theorem parse_handshake_fatal_iff:
  "(fst (parse_handshake_response buf tok ep) = VLC_AUDIOSCROBBLER_EFATAL \<longleftrightarrow>
    strstr buf ''FAILED '' = None \<and>
    (strstr buf ''BADAUTH'' \<noteq> None \<or> strstr buf ''BANNED'' \<noteq> None \<or> strstr buf ''BADTIME'' \<noteq> None)) \<and>
   (strstr buf ''FAILED '' \<noteq> None \<longrightarrow> parse_handshake_response buf tok ep = (VLC_EGENERIC, tok, ep))"
  using parse_handshake_ret by (simp add: parse_handshake_response_def)

theorem parse_handshake_fatal_iff_witness:
  "strstr ''FAILED BADAUTH'' ''FAILED '' \<noteq> None \<and> strstr ''FAILED BADAUTH'' ''BADAUTH'' \<noteq> None \<and>
   fst (parse_handshake_response ''FAILED BADAUTH'' [] (NULL, NULL, 0)) \<noteq> VLC_AUDIOSCROBBLER_EFATAL \<and>
   parse_handshake_response ''FAILED BADAUTH'' [] (NULL, NULL, 0) = (VLC_EGENERIC, [], NULL, NULL, 0)"
  using parse_handshake_fatal_iff [of "''FAILED BADAUTH''" "[]" "(NULL, NULL, 0)"] by simp

text \<open>
  C31. The submission loop computes the reference body: \<^verbatim>\<open>s=<token>\<close>
  followed by the parameters of each queued song, at its zero-based index, in
  queue order and with no other index.
\<close>

theorem submission_body_reference:
  "submission_body tok xs =
     ''s='' @ tok @ concat (map (\<lambda>(j, x). song_params j x) (zip [0..<length xs] xs))"
  by (simp add: submission_body_def submit_loop_concat)

end
