(* ===== verification/Session.thy ===== *)
theory Session
  imports Backoff Queue Codec
begin

text \<open>
  The session state machine and the submission loop: \<^verbatim>\<open>Handshake\<close>
  (audioscrobbler.c, lines 696--900) and one iteration of the \<^verbatim>\<open>for(;;)\<close>
  loop of \<^verbatim>\<open>Run\<close> (lines 258--463). The authentication state is
  \<^verbatim>\<open>b_handshaked\<close> with the session token \<^verbatim>\<open>psz_auth_token\<close> and the
  endpoint \<^verbatim>\<open>psz_submit_host\<close>/\<^verbatim>\<open>i_submit_port\<close>/\<^verbatim>\<open>psz_submit_file\<close>;
  the backoff state is \<^verbatim>\<open>next_exchange\<close>/\<^verbatim>\<open>i_interval\<close>. Everything the
  outside world decides in an iteration (how the wait ended, the clock, the
  configuration, the server's replies, whether the connection and the send
  succeeded) is an input record; one clock value stands for the \<^verbatim>\<open>mdate()\<close>
  calls of the iteration. \<open>Run\<close> runs iterations over a list of such inputs until
  one leaves the loop.
\<close>

section \<open>Definitions\<close>

subsection \<open>Handshake\<close>

text \<open>
  What \<^verbatim>\<open>Handshake\<close> receives from outside: the configured username and
  password (\<^verbatim>\<open>config_GetPsz\<close>, NULL as \<open>None\<close>), \<^verbatim>\<open>time()\<close>, the MD5
  hex digest, the client name and version macros, and the HTTP layer
  (\<^verbatim>\<open>stream_UrlNew\<close> + \<^verbatim>\<open>stream_Read\<close>: \<open>None\<close> when the stream cannot be
  opened, otherwise the bytes the server sends, of which 1023 at most are read).
\<close>

record hs_env =
  cfg_username :: "string option"
  cfg_password :: "string option"
  hs_time :: time_t
  md5 :: "string \<Rightarrow> string"
  client_name :: string
  client_version :: string
  http_get :: "string \<Rightarrow> string option"

definition Handshake :: "hs_env \<Rightarrow> intf_sys \<Rightarrow> vlc_ret \<times> intf_sys" where
  "Handshake e s =
     (case cfg_username e of
        None \<Rightarrow> (VLC_ENOMEM, s)
      | Some user \<Rightarrow>
        (case cfg_password e of
           None \<Rightarrow> (VLC_ENOMEM, s)
         | Some pw \<Rightarrow>
           if user = [] \<or> pw = [] then (VLC_ENOVAR, s)
           else
             let tok = take 32 (auth_token (md5 e) pw (hs_time e));
                 s1 = s\<lparr>psz_auth_token := tok\<rparr>;
                 url = handshake_url (client_name e) (client_version e) user (hs_time e) tok
             in case http_get e url of
                  None \<Rightarrow> (VLC_EGENERIC, s1)
                | Some bytes \<Rightarrow>
                  if take 1023 bytes = [] then (VLC_EGENERIC, s1)
                  else case parse_handshake_response (cstr_of_buffer bytes) tok
                              (psz_submit_host s, psz_submit_file s, i_submit_port s) of
                         (r, tok', h, f, p) \<Rightarrow>
                           (r, s1\<lparr>psz_auth_token := tok', psz_submit_host := h,
                                  psz_submit_file := f, i_submit_port := p\<rparr>)))"

subsection \<open>One iteration of Run\<close>

text \<open>How the wait at the top of the loop ended.\<close>

datatype wake = Killed | Signalled | TimedOut

text \<open>
  The inputs of one iteration; \<open>reply\<close> is what \<^verbatim>\<open>net_Read\<close> gets back for
  the request sent (\<open>None\<close> when it returns a negative value).
\<close>

record iter_env =
  wake :: wake
  now :: mtime
  hs :: hs_env
  vlc_version :: string
  connect_ok :: bool
  send_ok :: bool
  reply :: "string \<Rightarrow> string option"

text \<open>
  How an iteration ends: \<^verbatim>\<open>return\<close> after the object was killed, \<^verbatim>\<open>Unload\<close>
  (fatal handshake, missing configuration, out of memory), \<^verbatim>\<open>continue\<close> or the
  end of the loop body, or a double free while clearing the queue.
\<close>

datatype run_outcome = RunExit | RunUnload | RunContinue | RunFault c_error

definition apply_backoff :: "mtime \<Rightarrow> intf_sys \<Rightarrow> intf_sys" where
  "apply_backoff t s =
     (case HandleInterval t (next_exchange s, i_interval s) of
        (nx, i) \<Rightarrow> s\<lparr>next_exchange := nx, i_interval := i\<rparr>)"

text \<open>The \<^verbatim>\<open>switch\<close> on the result of \<^verbatim>\<open>Handshake\<close>; \<open>None\<close> goes on to submit.\<close>

definition after_handshake :: "mtime \<Rightarrow> vlc_ret \<Rightarrow> intf_sys \<Rightarrow> run_outcome option \<times> intf_sys" where
  "after_handshake t r s =
     (case r of
        VLC_ENOMEM \<Rightarrow> (Some RunUnload, s)
      | VLC_ENOVAR \<Rightarrow> (Some RunUnload, s)
      | VLC_SUCCESS \<Rightarrow> (None, s\<lparr>b_handshaked := True, i_interval := 0, next_exchange := t\<rparr>)
      | VLC_AUDIOSCROBBLER_EFATAL \<Rightarrow> (Some RunUnload, s)
      | VLC_EGENERIC \<Rightarrow> (Some RunContinue, apply_backoff t s))"

text \<open>\<^verbatim>\<open>DeleteSong(&p_sys->p_queue[i])\<close> for \<open>i < n\<close>.\<close>

fun delete_prefix :: "nat \<Rightarrow> song list \<Rightarrow> c_error + song list" where
  "delete_prefix 0 xs = Inr xs"
| "delete_prefix (Suc n) [] = Inr []"
| "delete_prefix (Suc n) (x # xs) =
     (case DeleteSong x of
        Inl e \<Rightarrow> Inl e
      | Inr x' \<Rightarrow> (case delete_prefix n xs of Inl e \<Rightarrow> Inl e | Inr xs' \<Rightarrow> Inr (x' # xs')))"

text \<open>The reply handling of lines 426--461, on the received C string.\<close>

definition handle_reply :: "mtime \<Rightarrow> string \<Rightarrow> intf_sys \<Rightarrow> run_outcome \<times> intf_sys" where
  "handle_reply t buf s =
     (case classify_reply buf of
        ReplyFailed \<Rightarrow> (RunContinue, apply_backoff t s)
      | ReplyBadSession \<Rightarrow> (RunContinue, apply_backoff t (s\<lparr>b_handshaked := False\<rparr>))
      | ReplyOK \<Rightarrow>
          (case delete_prefix (nat (i_songs s)) (p_queue s) of
             Inl e \<Rightarrow> (RunFault e, s)
           | Inr q \<Rightarrow> (RunContinue, s\<lparr>p_queue := q, i_songs := 0, i_interval := 0, next_exchange := t\<rparr>))
      | ReplyOther \<Rightarrow> (RunContinue, apply_backoff t (s\<lparr>b_handshaked := False\<rparr>)))"

text \<open>
  The request of lines 399--404: the body built from the token and the queue,
  sent with the file as the path and, as the source passes it, as the
  \<^verbatim>\<open>Host\<close> header too.
\<close>

definition submit_request :: "string \<Rightarrow> intf_sys \<Rightarrow> string" where
  "submit_request version s =
     (let body = submission_body (psz_auth_token s) (queue_list s)
      in post_request (cptr_str (psz_submit_file s)) (length body) (cptr_str (psz_submit_file s))
           version body)"

text \<open>
  Connect (lines 386--396), send (399--413), read (415--424), then the reply.
  A failed read \<^verbatim>\<open>continue\<close>s without touching the state.
\<close>

definition submit_step :: "iter_env \<Rightarrow> intf_sys \<Rightarrow> run_outcome \<times> intf_sys" where
  "submit_step e s =
     (if \<not> connect_ok e then (RunContinue, (apply_backoff (now e) s)\<lparr>b_handshaked := False\<rparr>)
      else if \<not> send_ok e then (RunContinue, (apply_backoff (now e) s)\<lparr>b_handshaked := False\<rparr>)
      else case reply e (submit_request (vlc_version e) s) of
             None \<Rightarrow> (RunContinue, s)
           | Some bytes \<Rightarrow>
               if take 1023 bytes = [] then (RunContinue, s)
               else handle_reply (now e) (cstr_of_buffer bytes) s)"

text \<open>
  The wait: when the clock is before \<^verbatim>\<open>next_exchange\<close>, a signal (a new song)
  only restarts the wait, and the timeout goes on; otherwise the loop goes on when
  it is signalled. A kill leaves the loop.
\<close>

definition Run_iter :: "iter_env \<Rightarrow> intf_sys \<Rightarrow> run_outcome \<times> intf_sys" where
  "Run_iter e s =
     (if wake e = Killed then (RunExit, s)
      else if now e < next_exchange s \<and> wake e = Signalled then (RunContinue, s)
      else if b_handshaked s then submit_step e s
      else case Handshake (hs e) s of
             (r, s1) \<Rightarrow>
               (case after_handshake (now e) r s1 of
                  (Some out, s2) \<Rightarrow> (out, s2)
                | (None, s2) \<Rightarrow> submit_step e s2))"

text \<open>The loop, over the inputs of successive iterations, until one leaves it.\<close>

fun Run :: "iter_env list \<Rightarrow> intf_sys \<Rightarrow> run_outcome \<times> intf_sys" where
  "Run [] s = (RunContinue, s)"
| "Run (e # es) s =
     (case Run_iter e s of
        (RunContinue, s') \<Rightarrow> Run es s'
      | (out, s') \<Rightarrow> (out, s'))"

text \<open>
  The session invariant: an authenticated state has a submission endpoint (host
  and file allocated, a positive port).
\<close>

definition session_inv :: "intf_sys \<Rightarrow> bool" where
  "session_inv s \<longleftrightarrow>
     (b_handshaked s \<longrightarrow> psz_submit_host s \<noteq> NULL \<and> psz_submit_host s \<noteq> Dangling \<and>
                         psz_submit_file s \<noteq> NULL \<and> psz_submit_file s \<noteq> Dangling \<and>
                         0 < i_submit_port s)"

definition run_inv :: "intf_sys \<Rightarrow> bool" where
  "run_inv s \<longleftrightarrow> queue_inv s \<and> interval_ok (i_interval s) \<and> session_inv s"

subsection \<open>Concrete instances\<close>

text \<open>An iteration's inputs and an authenticated state with one queued song, used by the instances below.\<close>

definition demo_env :: iter_env where
  "demo_env = \<lparr>wake = Signalled, now = 0,
     hs = \<lparr>cfg_username = Some ''u'', cfg_password = Some ''p'', hs_time = 0, md5 = (\<lambda>x. x),
           client_name = ''vlc'', client_version = ''0.9'', http_get = (\<lambda>_. None)\<rparr>,
     vlc_version = ''0.9'', connect_ok = True, send_ok = True, reply = (\<lambda>_. Some ''OK'')\<rparr>"

definition demo_queued :: intf_sys where
  "demo_queued = sys_init\<lparr>b_handshaked := True, psz_submit_host := Ptr ''62.216.251.205'',
     psz_submit_file := Ptr ''protocol_1.2'', i_submit_port := 80,
     p_queue := demo_song # replicate 49 null_song, i_songs := 1\<rparr>"

section \<open>Lemmas\<close>

lemma apply_backoff_eq [model_simps]:
  "apply_backoff t s = s\<lparr>next_exchange := fst (HandleInterval t (next_exchange s, i_interval s)),
                         i_interval := next_interval (i_interval s)\<rparr>"
  by (simp add: apply_backoff_def HandleInterval_def Let_def split: prod.splits)

lemma ParseURL_success:
  "ParseURL url p = (VLC_SUCCESS, h, f, p') \<Longrightarrow> (\<exists>x. h = Ptr x) \<and> (\<exists>y. f = Ptr y) \<and> 0 < p'"
  by (auto simp: ParseURL_def Let_def split: if_splits)

lemma parse_handshake_success:
  "parse_handshake_response buf tok ep = (VLC_SUCCESS, tok', h, f, p) \<Longrightarrow>
   (\<exists>x. h = Ptr x) \<and> (\<exists>y. f = Ptr y) \<and> 0 < p"
  by (auto simp: parse_handshake_response_def Let_def split: if_splits option.splits prod.splits
           dest!: ParseURL_success)

lemma Handshake_frame:
  assumes "Handshake e s = (r, s')"
  shows "p_queue s' = p_queue s \<and> i_songs s' = i_songs s \<and> b_handshaked s' = b_handshaked s \<and>
         i_interval s' = i_interval s \<and> next_exchange s' = next_exchange s"
  using assms by (auto simp: Handshake_def Let_def split: option.splits if_splits prod.splits)

lemma Handshake_success_endpoint:
  assumes "Handshake e s = (VLC_SUCCESS, s')"
  shows "(\<exists>x. psz_submit_host s' = Ptr x) \<and> (\<exists>y. psz_submit_file s' = Ptr y) \<and> 0 < i_submit_port s'"
  using assms
  by (auto simp: Handshake_def Let_def split: option.splits if_splits prod.splits
           dest!: parse_handshake_success)

lemma delete_prefix_ok:
  "\<forall>x\<in>set (take n xs). song_ok x \<Longrightarrow> \<exists>q. delete_prefix n xs = Inr q \<and> length q = length xs"
proof (induction n xs rule: delete_prefix.induct)
  case (3 n x xs)
  then show ?case by (auto simp: song_ok_def DeleteSong_def)
qed simp_all

lemma queue_inv_cleared:
  "queue_inv s \<Longrightarrow> length q = length (p_queue s) \<Longrightarrow> queue_inv (s\<lparr>p_queue := q, i_songs := 0\<rparr>)"
  by (simp add: queue_inv_def queue_list_def QUEUE_MAX_def)

lemma queue_list_cleared [simp]:
  "queue_list (s\<lparr>p_queue := q, i_songs := 0\<rparr>) = []"
  by (simp add: queue_list_def)

lemma session_inv_frame [simp]:
  "session_inv (s\<lparr>next_exchange := a, i_interval := b\<rparr>) = session_inv s"
  "session_inv (s\<lparr>b_handshaked := False\<rparr>)"
  "session_inv (s\<lparr>p_queue := q, i_songs := n, i_interval := b, next_exchange := a\<rparr>) = session_inv s"
  by (simp_all add: session_inv_def)

lemma run_inv_backoff [simp]:
  "run_inv s \<Longrightarrow> run_inv (apply_backoff t s)"
  by (simp add: run_inv_def apply_backoff_eq)

lemma run_inv_backoff_unauth:
  "run_inv s \<Longrightarrow> run_inv ((apply_backoff t s)\<lparr>b_handshaked := False\<rparr>)"
  "run_inv s \<Longrightarrow> run_inv (apply_backoff t (s\<lparr>b_handshaked := False\<rparr>))"
  by (simp_all add: run_inv_def apply_backoff_eq session_inv_def)

lemma handle_reply_inv:
  assumes "run_inv s" "handle_reply t buf s = (out, s')"
  shows "run_inv s'"
proof (cases "classify_reply buf")
  case ReplyOK
  from assms(1) have "\<forall>x\<in>set (take (nat (i_songs s)) (p_queue s)). song_ok x"
    by (simp add: run_inv_def queue_inv_def queue_list_def)
  then obtain q where q: "delete_prefix (nat (i_songs s)) (p_queue s) = Inr q"
    "length q = length (p_queue s)" using delete_prefix_ok by blast
  with assms ReplyOK show ?thesis
    by (auto simp: handle_reply_def run_inv_def queue_inv_cleared)
qed (use assms in \<open>auto simp: handle_reply_def run_inv_backoff_unauth\<close>)

lemma submit_step_inv:
  assumes "run_inv s" "submit_step e s = (out, s')"
  shows "run_inv s'"
  using assms handle_reply_inv [OF assms(1)]
  by (auto simp: submit_step_def run_inv_backoff_unauth split: option.splits if_splits)

lemma after_handshake_inv:
  assumes "run_inv s" "Handshake e s = (r, s1)" "after_handshake t r s1 = (x, s2)" "\<not> b_handshaked s"
  shows "run_inv s2"
proof -
  have fr: "p_queue s1 = p_queue s" "i_songs s1 = i_songs s" "b_handshaked s1 = b_handshaked s"
    "i_interval s1 = i_interval s"
    using Handshake_frame [OF assms(2)] by simp_all
  then have inv1: "run_inv s1"
    using assms(1,4) by (simp add: run_inv_def queue_inv_def queue_list_def session_inv_def)
  show ?thesis
  proof (cases r)
    case VLC_SUCCESS
    then have "(\<exists>x. psz_submit_host s1 = Ptr x) \<and> (\<exists>y. psz_submit_file s1 = Ptr y) \<and> 0 < i_submit_port s1"
      using Handshake_success_endpoint assms(2) by blast
    with inv1 assms(3) VLC_SUCCESS show ?thesis
      by (auto simp: after_handshake_def run_inv_def session_inv_def)
  qed (use inv1 assms(3) in \<open>auto simp: after_handshake_def\<close>)
qed

lemma Run_iter_inv:
  assumes "run_inv s" "Run_iter e s = (out, s')"
  shows "run_inv s'"
proof (cases "wake e = Killed \<or> (now e < next_exchange s \<and> wake e = Signalled)")
  case True
  with assms show ?thesis by (auto simp: Run_iter_def)
next
  case False
  show ?thesis
  proof (cases "b_handshaked s")
    case True
    with False assms show ?thesis by (auto simp: Run_iter_def intro: submit_step_inv)
  next
    case hs: False
    obtain r s1 where h: "Handshake (hs e) s = (r, s1)" by fastforce
    obtain x s2 where a: "after_handshake (now e) r s1 = (x, s2)" by fastforce
    have "run_inv s2" by (rule after_handshake_inv [OF assms(1) h a hs])
    with False hs h a assms(2) show ?thesis
      by (cases x) (auto simp: Run_iter_def intro: submit_step_inv)
  qed
qed

lemma Run_inv:
  "run_inv s \<Longrightarrow> Run es s = (out, s') \<Longrightarrow> run_inv s'"
proof (induction es arbitrary: s)
  case Nil
  then show ?case by simp
next
  case (Cons e es)
  obtain o1 s1 where it: "Run_iter e s = (o1, s1)" by fastforce
  have "run_inv s1" by (rule Run_iter_inv [OF Cons.prems(1) it])
  with Cons.prems(2) it Cons.IH show ?case
    by (cases o1) auto
qed

lemma run_inv_init: "run_inv sys_init"
proof -
  have "interval_ok (i_interval sys_init)" "\<not> b_handshaked sys_init" by (simp_all add: sys_init_def)
  with queue_inv_init show ?thesis by (simp add: run_inv_def session_inv_def)
qed

lemma HandleInterval_min_delay:
  "interval_ok i \<Longrightarrow> t + 60000000 \<le> fst (HandleInterval t (nx, i))"
  by (auto simp: interval_ok_def HandleInterval_simps next_interval_def)

lemma apply_backoff_min_delay:
  "interval_ok (i_interval s) \<Longrightarrow> t + 60000000 \<le> next_exchange (apply_backoff t s)"
  by (simp add: apply_backoff_eq HandleInterval_min_delay)

lemma handle_reply_queue:
  "handle_reply t buf s = (out, s') \<Longrightarrow> queue_list s' \<noteq> queue_list s \<Longrightarrow>
   classify_reply buf = ReplyOK \<and> queue_list s' = []"
  by (auto simp: handle_reply_def apply_backoff_eq split: submit_reply.splits sum.splits)

lemma submit_step_queue:
  assumes "submit_step e s = (out, s')" "queue_list s' \<noteq> queue_list s"
  shows "connect_ok e \<and> send_ok e \<and>
         (\<exists>bytes. reply e (submit_request (vlc_version e) s) = Some bytes \<and>
                  classify_reply (cstr_of_buffer bytes) = ReplyOK) \<and> queue_list s' = []"
  using assms handle_reply_queue
  by (fastforce simp: submit_step_def apply_backoff_eq split: option.splits if_splits)

lemma after_handshake_queue:
  "after_handshake t r s = (x, s') \<Longrightarrow> queue_list s' = queue_list s"
  by (auto simp: after_handshake_def apply_backoff_eq split: vlc_ret.splits)

lemma Handshake_queue: "Handshake e s = (r, s') \<Longrightarrow> queue_list s' = queue_list s"
  using Handshake_frame by (simp add: queue_list_def)

lemma submit_step_unauth_backoff:
  assumes "b_handshaked s" "interval_ok (i_interval s)" "submit_step e s = (out, s')" "\<not> b_handshaked s'"
  shows "now e + 60000000 \<le> next_exchange s'"
  using assms apply_backoff_min_delay [OF assms(2), of "now e"]
  by (auto simp: submit_step_def handle_reply_def apply_backoff_eq
           split: option.splits if_splits submit_reply.splits sum.splits)

lemma Run_iter_proceeds:
  "wake e \<noteq> Killed \<Longrightarrow> \<not> (now e < next_exchange s \<and> wake e = Signalled) \<Longrightarrow>
   Run_iter e s = (if b_handshaked s then submit_step e s
                   else case Handshake (hs e) s of (r, s1) \<Rightarrow>
                     (case after_handshake (now e) r s1 of
                        (Some out, s2) \<Rightarrow> (out, s2) | (None, s2) \<Rightarrow> submit_step e s2))"
  by (auto simp: Run_iter_def)

lemma Run_iter_reply:
  assumes "b_handshaked s" "wake e \<noteq> Killed" "\<not> (now e < next_exchange s \<and> wake e = Signalled)"
    "connect_ok e" "send_ok e" "reply e (submit_request (vlc_version e) s) = Some bytes"
    "take 1023 bytes \<noteq> []"
  shows "Run_iter e s = handle_reply (now e) (cstr_of_buffer bytes) s"
  using assms by (simp add: Run_iter_proceeds submit_step_def)

lemma run_inv_demo_queued: "run_inv demo_queued"
  by (simp add: run_inv_def queue_inv_def queue_list_def session_inv_def demo_queued_def sys_init_def
                QUEUE_MAX_def song_ok_def demo_song_def)

section \<open>Properties\<close>

text \<open>
  C1. Every run of the submission loop keeps the engine's invariant: the queue is
  well formed, the backoff interval is in the sequence 0, 1, 2, ..., 64, 120, and
  an authenticated state always has a submission host, file and positive port.
\<close>

theorem Run_keeps_invariant:
  "run_inv s \<Longrightarrow> Run es s = (out, s') \<Longrightarrow> run_inv s'"
  by (rule Run_inv)

theorem Run_keeps_invariant_witness:
  "run_inv sys_init \<and> Run [] sys_init = (RunContinue, sys_init) \<and> run_inv sys_init"
  using Run_keeps_invariant [of sys_init "[]" RunContinue sys_init] run_inv_init by simp

text \<open>
  C17. The loop never loses queued songs except on acknowledgement: if an
  iteration changes the queue, then the connection and the send succeeded, the
  server's reply to the request was classified \<^verbatim>\<open>OK\<close>, and the queue is now
  empty.
\<close>

theorem Run_iter_queue_changes_only_on_ok:
  assumes "Run_iter e s = (out, s')" "queue_list s' \<noteq> queue_list s"
  shows "connect_ok e \<and> send_ok e \<and>
         (\<exists>req bytes. reply e req = Some bytes \<and> classify_reply (cstr_of_buffer bytes) = ReplyOK) \<and>
         queue_list s' = []"
proof -
  have go: "wake e \<noteq> Killed" "\<not> (now e < next_exchange s \<and> wake e = Signalled)"
    using assms by (auto simp: Run_iter_def split: if_splits)
  show ?thesis
  proof (cases "b_handshaked s")
    case True
    with go assms show ?thesis by (auto simp: Run_iter_proceeds dest!: submit_step_queue)
  next
    case False
    obtain r s1 where h: "Handshake (hs e) s = (r, s1)" by fastforce
    obtain x s2 where a: "after_handshake (now e) r s1 = (x, s2)" by fastforce
    have q2: "queue_list s2 = queue_list s"
      using Handshake_queue [OF h] after_handshake_queue [OF a] by simp
    show ?thesis
    proof (cases x)
      case None
      with go False h a assms have "submit_step e s2 = (out, s')" "queue_list s' \<noteq> queue_list s2"
        by (simp_all add: Run_iter_proceeds q2)
      then show ?thesis by (blast dest: submit_step_queue)
    next
      case (Some o2)
      with go False h a assms q2 show ?thesis by (simp add: Run_iter_proceeds)
    qed
  qed
qed

theorem Run_iter_queue_changes_only_on_ok_witness:
  "queue_list (snd (Run_iter demo_env demo_queued)) \<noteq> queue_list demo_queued \<and>
   connect_ok demo_env \<and> send_ok demo_env \<and>
   (\<exists>req bytes. reply demo_env req = Some bytes \<and> classify_reply (cstr_of_buffer bytes) = ReplyOK) \<and>
   queue_list (snd (Run_iter demo_env demo_queued)) = []"
proof -
  let ?s' = "demo_queued\<lparr>p_queue := demo_song\<lparr>psz_a := NULL, psz_b := NULL, psz_t := NULL,
               psz_m := NULL, psz_n := NULL\<rparr> # replicate 49 null_song, i_songs := 0, i_interval := 0,
               next_exchange := 0\<rparr>"
  have h1: "Run_iter demo_env demo_queued = (RunContinue, ?s')"
    by (simp add: Run_iter_def demo_env_def demo_queued_def submit_step_def handle_reply_def
                  classify_reply_def cstr_of_buffer_def sys_init_def DeleteSong_def demo_song_def)
  have h2: "queue_list ?s' \<noteq> queue_list demo_queued"
    by (simp add: demo_queued_def queue_list_def sys_init_def)
  show ?thesis using Run_iter_queue_changes_only_on_ok [OF h1 h2] h1 h2 by simp
qed

text \<open>
  C24. No tight retry loop while unauthenticated: when an iteration that went past
  the wait ends unauthenticated, the next exchange is at least one minute away,
  whether the handshake failed or an authenticated submission was refused.
\<close>

theorem Run_iter_unauthenticated_backs_off:
  assumes "run_inv s" "Run_iter e s = (RunContinue, s')" "\<not> b_handshaked s'"
    "wake e \<noteq> Killed" "\<not> (now e < next_exchange s \<and> wake e = Signalled)"
  shows "now e + 60000000 \<le> next_exchange s'"
proof (cases "b_handshaked s")
  case True
  with assms have "submit_step e s = (RunContinue, s')" by (simp add: Run_iter_proceeds)
  with True assms(1,3) show ?thesis
    by (auto simp: run_inv_def intro: submit_step_unauth_backoff)
next
  case False
  obtain r s1 where h: "Handshake (hs e) s = (r, s1)" by fastforce
  have ok1: "interval_ok (i_interval s1)"
    using Handshake_frame [OF h] assms(1) by (simp add: run_inv_def)
  show ?thesis
  proof (cases r)
    case VLC_SUCCESS
    let ?s2 = "s1\<lparr>b_handshaked := True, i_interval := 0, next_exchange := now e\<rparr>"
    from VLC_SUCCESS False h assms(2,4,5) have "submit_step e ?s2 = (RunContinue, s')"
      by (simp add: Run_iter_proceeds after_handshake_def)
    moreover have "b_handshaked ?s2" "interval_ok (i_interval ?s2)" by simp_all
    ultimately show ?thesis using assms(3) submit_step_unauth_backoff by blast
  next
    case VLC_EGENERIC
    with False h assms(2,4,5) have "s' = apply_backoff (now e) s1"
      by (simp add: Run_iter_proceeds after_handshake_def)
    with ok1 show ?thesis by (simp add: apply_backoff_min_delay)
  qed (use False h assms(2,4,5) in \<open>simp_all add: Run_iter_proceeds after_handshake_def\<close>)
qed

theorem Run_iter_unauthenticated_backs_off_witness:
  "run_inv sys_init \<and> Run_iter demo_env sys_init = (RunContinue, snd (Run_iter demo_env sys_init)) \<and>
   \<not> b_handshaked (snd (Run_iter demo_env sys_init)) \<and> wake demo_env \<noteq> Killed \<and>
   \<not> (now demo_env < next_exchange sys_init \<and> wake demo_env = Signalled) \<and>
   now demo_env + 60000000 \<le> next_exchange (snd (Run_iter demo_env sys_init))"
proof -
  let ?s' = "sys_init\<lparr>psz_auth_token := take 32 (auth_token (\<lambda>x. x) ''p'' 0), next_exchange := 60000000,
               i_interval := 1\<rparr>"
  have it: "Run_iter demo_env sys_init = (RunContinue, ?s')"
    by (simp add: Run_iter_def demo_env_def Handshake_def sys_init_def after_handshake_def
                  apply_backoff_eq HandleInterval_simps next_interval_def)
  have h3: "\<not> b_handshaked ?s'" "wake demo_env \<noteq> Killed"
    "\<not> (now demo_env < next_exchange sys_init \<and> wake demo_env = Signalled)"
    by (simp_all add: sys_init_def demo_env_def)
  show ?thesis
    using Run_iter_unauthenticated_backs_off [OF run_inv_init it h3] it h3 run_inv_init by simp
qed

text \<open>
  C25. A fatal handshake reply (bad credentials, banned client, bad clock) ends the
  loop: the run stops with \<^verbatim>\<open>Unload\<close> at that iteration, whatever inputs
  would follow.
\<close>

theorem Run_fatal_handshake_stops:
  assumes "\<not> b_handshaked s" "wake e \<noteq> Killed" "\<not> (now e < next_exchange s \<and> wake e = Signalled)"
    "fst (Handshake (hs e) s) = VLC_AUDIOSCROBBLER_EFATAL"
  shows "Run (e # es) s = (RunUnload, snd (Handshake (hs e) s))"
proof -
  obtain s1 where "Handshake (hs e) s = (VLC_AUDIOSCROBBLER_EFATAL, s1)"
    using assms(4) by (cases "Handshake (hs e) s") simp
  with assms(1-3) show ?thesis
    by (simp add: Run_iter_proceeds after_handshake_def)
qed

theorem Run_fatal_handshake_stops_witness:
  "\<not> b_handshaked sys_init \<and> wake (demo_env\<lparr>hs := (hs demo_env)\<lparr>http_get := \<lambda>_. Some ''BADAUTH''\<rparr>\<rparr>) \<noteq> Killed \<and>
   \<not> (now (demo_env\<lparr>hs := (hs demo_env)\<lparr>http_get := \<lambda>_. Some ''BADAUTH''\<rparr>\<rparr>) < next_exchange sys_init \<and>
      wake (demo_env\<lparr>hs := (hs demo_env)\<lparr>http_get := \<lambda>_. Some ''BADAUTH''\<rparr>\<rparr>) = Signalled) \<and>
   fst (Handshake (hs (demo_env\<lparr>hs := (hs demo_env)\<lparr>http_get := \<lambda>_. Some ''BADAUTH''\<rparr>\<rparr>)) sys_init) =
     VLC_AUDIOSCROBBLER_EFATAL \<and>
   Run [demo_env\<lparr>hs := (hs demo_env)\<lparr>http_get := \<lambda>_. Some ''BADAUTH''\<rparr>\<rparr>, demo_env] sys_init =
     (RunUnload, snd (Handshake (hs (demo_env\<lparr>hs := (hs demo_env)\<lparr>http_get := \<lambda>_. Some ''BADAUTH''\<rparr>\<rparr>)) sys_init))"
proof -
  let ?e = "demo_env\<lparr>hs := (hs demo_env)\<lparr>http_get := \<lambda>_. Some ''BADAUTH''\<rparr>\<rparr>"
  have h: "\<not> b_handshaked sys_init" "wake ?e \<noteq> Killed"
    "\<not> (now ?e < next_exchange sys_init \<and> wake ?e = Signalled)"
    by (simp_all add: sys_init_def demo_env_def)
  have f: "fst (Handshake (hs ?e) sys_init) = VLC_AUDIOSCROBBLER_EFATAL"
    by (simp add: demo_env_def Handshake_def parse_handshake_response_def cstr_of_buffer_def)
  show ?thesis using Run_fatal_handshake_stops [OF h f, of "[demo_env]"] h f by blast
qed

text \<open>
  C26. \<^verbatim>\<open>BADSESSION\<close> takes priority over \<^verbatim>\<open>OK\<close>: a submission reply
  with \<^verbatim>\<open>BADSESSION\<close> and no \<^verbatim>\<open>FAILED\<close> drops the session and backs off,
  keeping the queue for the retry after a new handshake, even when the reply also
  contains \<^verbatim>\<open>OK\<close>.
\<close>

theorem submit_badsession_priority:
  assumes "b_handshaked s" "wake e \<noteq> Killed" "\<not> (now e < next_exchange s \<and> wake e = Signalled)"
    "connect_ok e" "send_ok e" "reply e (submit_request (vlc_version e) s) = Some bytes"
    "take 1023 bytes \<noteq> []" "strstr (cstr_of_buffer bytes) ''FAILED'' = None"
    "strstr (cstr_of_buffer bytes) ''BADSESSION'' \<noteq> None"
  shows "Run_iter e s = (RunContinue, apply_backoff (now e) (s\<lparr>b_handshaked := False\<rparr>)) \<and>
         queue_list (snd (Run_iter e s)) = queue_list s"
  using Run_iter_reply [OF assms(1-7)] assms(8,9)
  by (simp add: handle_reply_def classify_reply_def apply_backoff_eq)

theorem submit_badsession_priority_witness:
  "b_handshaked demo_queued \<and> Run_iter \<lparr>wake = Signalled, now = 0, hs = hs demo_env, vlc_version = ''0.9'', connect_ok = True, send_ok = True, reply = \<lambda>_. Some ''OK BADSESSION''\<rparr> demo_queued =
     (RunContinue, apply_backoff 0 (demo_queued\<lparr>b_handshaked := False\<rparr>)) \<and>
   queue_list (snd (Run_iter \<lparr>wake = Signalled, now = 0, hs = hs demo_env, vlc_version = ''0.9'', connect_ok = True, send_ok = True, reply = \<lambda>_. Some ''OK BADSESSION''\<rparr> demo_queued)) = queue_list demo_queued"
proof -
  let ?e = "\<lparr>wake = Signalled, now = 0, hs = hs demo_env, vlc_version = ''0.9'', connect_ok = True, send_ok = True, reply = \<lambda>_. Some ''OK BADSESSION''\<rparr>"
  have h: "b_handshaked demo_queued" "wake ?e \<noteq> Killed"
    "\<not> (now ?e < next_exchange demo_queued \<and> wake ?e = Signalled)" "connect_ok ?e" "send_ok ?e"
    "reply ?e (submit_request (vlc_version ?e) demo_queued) = Some ''OK BADSESSION''"
    "take 1023 ''OK BADSESSION'' \<noteq> []"
    "strstr (cstr_of_buffer ''OK BADSESSION'') ''FAILED'' = None"
    "strstr (cstr_of_buffer ''OK BADSESSION'') ''BADSESSION'' \<noteq> None"
    by (simp_all add: demo_queued_def sys_init_def cstr_of_buffer_def)
  show ?thesis using submit_badsession_priority [OF h] h by (simp add: apply_backoff_eq)
qed

text \<open>
  C27. A submission reply with none of the markers \<^verbatim>\<open>FAILED\<close>,
  \<^verbatim>\<open>BADSESSION\<close>, \<^verbatim>\<open>OK\<close> drops the session as well as backing off,
  where the specification treats it as a protocol failure that keeps the session.
\<close>

theorem submit_unrecognised_reply_drops_session:
  assumes "b_handshaked s" "wake e \<noteq> Killed" "\<not> (now e < next_exchange s \<and> wake e = Signalled)"
    "connect_ok e" "send_ok e" "reply e (submit_request (vlc_version e) s) = Some bytes"
    "take 1023 bytes \<noteq> []" "strstr (cstr_of_buffer bytes) ''FAILED'' = None"
    "strstr (cstr_of_buffer bytes) ''BADSESSION'' = None" "strstr (cstr_of_buffer bytes) ''OK'' = None"
  shows "Run_iter e s = (RunContinue, apply_backoff (now e) (s\<lparr>b_handshaked := False\<rparr>))"
  using Run_iter_reply [OF assms(1-7)] assms(8-10)
  by (simp add: handle_reply_def classify_reply_def)

theorem submit_unrecognised_reply_drops_session_witness:
  "b_handshaked demo_queued \<and> Run_iter \<lparr>wake = Signalled, now = 0, hs = hs demo_env, vlc_version = ''0.9'', connect_ok = True, send_ok = True, reply = \<lambda>_. Some ''HTTP/1.1 500''\<rparr> demo_queued =
     (RunContinue, apply_backoff 0 (demo_queued\<lparr>b_handshaked := False\<rparr>))"
proof -
  let ?e = "\<lparr>wake = Signalled, now = 0, hs = hs demo_env, vlc_version = ''0.9'', connect_ok = True, send_ok = True, reply = \<lambda>_. Some ''HTTP/1.1 500''\<rparr>"
  have h: "b_handshaked demo_queued" "wake ?e \<noteq> Killed"
    "\<not> (now ?e < next_exchange demo_queued \<and> wake ?e = Signalled)" "connect_ok ?e" "send_ok ?e"
    "reply ?e (submit_request (vlc_version ?e) demo_queued) = Some ''HTTP/1.1 500''"
    "take 1023 ''HTTP/1.1 500'' \<noteq> []"
    "strstr (cstr_of_buffer ''HTTP/1.1 500'') ''FAILED'' = None"
    "strstr (cstr_of_buffer ''HTTP/1.1 500'') ''BADSESSION'' = None"
    "strstr (cstr_of_buffer ''HTTP/1.1 500'') ''OK'' = None"
    by (simp_all add: demo_queued_def sys_init_def cstr_of_buffer_def)
  show ?thesis using submit_unrecognised_reply_drops_session [OF h] h by simp
qed

text \<open>
  C28. When the reply cannot be read (\<^verbatim>\<open>net_Read\<close> returns nothing), the
  iteration changes nothing: no backoff, the session kept, and the socket left
  open; the specification asks for a backoff and a new handshake on any transport
  error.
\<close>

theorem submit_read_failure_changes_nothing:
  assumes "b_handshaked s" "wake e \<noteq> Killed" "\<not> (now e < next_exchange s \<and> wake e = Signalled)"
    "connect_ok e" "send_ok e" "reply e (submit_request (vlc_version e) s) = None"
  shows "Run_iter e s = (RunContinue, s)"
  using assms by (simp add: Run_iter_proceeds submit_step_def)

theorem submit_read_failure_changes_nothing_witness:
  "b_handshaked demo_queued \<and>
   Run_iter \<lparr>wake = Signalled, now = 0, hs = hs demo_env, vlc_version = ''0.9'', connect_ok = True,
             send_ok = True, reply = \<lambda>_. None\<rparr> demo_queued = (RunContinue, demo_queued)"
proof -
  let ?e = "\<lparr>wake = Signalled, now = 0, hs = hs demo_env, vlc_version = ''0.9'', connect_ok = True,
             send_ok = True, reply = \<lambda>_. None\<rparr>"
  have h: "b_handshaked demo_queued" "wake ?e \<noteq> Killed"
    "\<not> (now ?e < next_exchange demo_queued \<and> wake ?e = Signalled)" "connect_ok ?e" "send_ok ?e"
    "reply ?e (submit_request (vlc_version ?e) demo_queued) = None"
    by (simp_all add: demo_queued_def sys_init_def)
  show ?thesis using submit_read_failure_changes_nothing [OF h] h by simp
qed

text \<open>
  C9. An acknowledged submission empties the queue, resets the backoff (interval
  0, next exchange now) and keeps the session and its token.
\<close>

theorem submit_success_clears_and_resets:
  assumes "run_inv s" "b_handshaked s" "wake e \<noteq> Killed" "\<not> (now e < next_exchange s \<and> wake e = Signalled)"
    "connect_ok e" "send_ok e" "reply e (submit_request (vlc_version e) s) = Some bytes"
    "take 1023 bytes \<noteq> []" "classify_reply (cstr_of_buffer bytes) = ReplyOK"
  shows "\<exists>s'. Run_iter e s = (RunContinue, s') \<and> queue_list s' = [] \<and> i_interval s' = 0 \<and>
              next_exchange s' = now e \<and> b_handshaked s' \<and> psz_auth_token s' = psz_auth_token s"
proof -
  from assms(1) have "\<forall>x\<in>set (take (nat (i_songs s)) (p_queue s)). song_ok x"
    by (simp add: run_inv_def queue_inv_def queue_list_def)
  then obtain q where q: "delete_prefix (nat (i_songs s)) (p_queue s) = Inr q"
    using delete_prefix_ok by blast
  show ?thesis
    using Run_iter_reply [OF assms(2-8)] assms(2,9) q by (simp add: handle_reply_def)
qed

theorem submit_success_clears_and_resets_witness:
  "run_inv demo_queued \<and> b_handshaked demo_queued \<and> wake demo_env \<noteq> Killed \<and>
   \<not> (now demo_env < next_exchange demo_queued \<and> wake demo_env = Signalled) \<and>
   connect_ok demo_env \<and> send_ok demo_env \<and>
   reply demo_env (submit_request (vlc_version demo_env) demo_queued) = Some ''OK'' \<and>
   classify_reply (cstr_of_buffer ''OK'') = ReplyOK \<and>
   (\<exists>s'. Run_iter demo_env demo_queued = (RunContinue, s') \<and> queue_list s' = [] \<and> i_interval s' = 0 \<and>
         next_exchange s' = now demo_env \<and> b_handshaked s' \<and> psz_auth_token s' = psz_auth_token demo_queued)"
proof -
  have h: "b_handshaked demo_queued" "wake demo_env \<noteq> Killed"
    "\<not> (now demo_env < next_exchange demo_queued \<and> wake demo_env = Signalled)"
    "connect_ok demo_env" "send_ok demo_env"
    "reply demo_env (submit_request (vlc_version demo_env) demo_queued) = Some ''OK''"
    "take 1023 ''OK'' \<noteq> []" "classify_reply (cstr_of_buffer ''OK'') = ReplyOK"
    by (simp_all add: demo_queued_def sys_init_def demo_env_def cstr_of_buffer_def classify_reply_def)
  show ?thesis
    using submit_success_clears_and_resets [OF run_inv_demo_queued h] h run_inv_demo_queued by blast
qed

text \<open>
  C23. The request never carries the submission host: for every state, changing
  \<^verbatim>\<open>psz_submit_host\<close> leaves the request unchanged, because the
  \<^verbatim>\<open>Host\<close> header is filled with \<^verbatim>\<open>psz_submit_file\<close>.
\<close>

theorem submit_request_ignores_host:
  "submit_request v (s\<lparr>psz_submit_host := h\<rparr>) = submit_request v s"
  by (simp add: submit_request_def queue_list_def)

end
