(* ===== verification/Player.thy ===== *)
theory Player
  imports Queue Codec
begin

text \<open>
  The playback callbacks, the producers of the engine: \<^verbatim>\<open>ReadMetaData\<close>
  (audioscrobbler.c, lines 917--1006) fills the current song from the input
  item's metadata under \<^verbatim>\<open>p_sys->lock\<close>; \<^verbatim>\<open>PlayingChange\<close> (lines
  468--493), the input's \<^verbatim>\<open>state\<close> callback, reads the metadata once
  playback starts, queues the song when the input ends and accounts for pauses;
  \<^verbatim>\<open>ItemChange\<close> (lines 498--561), the playlist's \<^verbatim>\<open>item-change\<close>
  callback, starts a new song. The player's answers (is there an input, an item,
  which metadata it has, whether URI encoding runs out of memory, the clocks)
  are input records. Whether a callback returns with \<^verbatim>\<open>p_sys->lock\<close>
  still held is returned as a flag. The input states are VLC's
  \<^verbatim>\<open>input_state_e\<close> (declared in vlc_input.h, outside this source), in
  their declaration order.
\<close>

section \<open>Definitions\<close>

subsection \<open>Input states\<close>

datatype input_state = INIT_S | OPENING_S | BUFFERING_S | PLAYING_S | PAUSE_S | END_S | ERROR_S

fun state_code :: "input_state \<Rightarrow> nat" where
  "state_code INIT_S = 0"
| "state_code OPENING_S = 1"
| "state_code BUFFERING_S = 2"
| "state_code PLAYING_S = 3"
| "state_code PAUSE_S = 4"
| "state_code END_S = 5"
| "state_code ERROR_S = 6"

text \<open>The source compares states as the enumeration's integers (\<^verbatim>\<open>newval.i_int >= PLAYING_S\<close>).\<close>

instantiation input_state :: linorder
begin

definition less_eq_input_state :: "input_state \<Rightarrow> input_state \<Rightarrow> bool" where
  "less_eq_input_state a b \<longleftrightarrow> state_code a \<le> state_code b"

definition less_input_state :: "input_state \<Rightarrow> input_state \<Rightarrow> bool" where
  "less_input_state a b \<longleftrightarrow> state_code a < state_code b"

instance
proof
  fix a b :: input_state
  show "a \<le> b \<Longrightarrow> b \<le> a \<Longrightarrow> a = b"
    by (cases a; cases b) (simp_all add: less_eq_input_state_def)
qed (auto simp: less_eq_input_state_def less_input_state_def)

end

subsection \<open>ReadMetaData\<close>

text \<open>
  What the player answers \<^verbatim>\<open>ReadMetaData\<close>: whether the playlist has an
  input and the input an item, each metadata string (\<^verbatim>\<open>input_item_Get*\<close>,
  NULL as \<open>None\<close>), the duration in microseconds, and
  \<^verbatim>\<open>encode_URI_component\<close> (\<open>None\<close> when it returns NULL).
\<close>

record meta_env =
  md_input :: bool
  md_item :: bool
  md_artist :: "string option"
  md_title :: "string option"
  md_album :: "string option"
  md_trackid :: "string option"
  md_tracknum :: "string option"
  md_duration :: mtime
  md_encode :: "string \<Rightarrow> string option"

text \<open>
  The three outcomes of the macro \<^verbatim>\<open>ALLOC_ITEM_META\<close>: the item has no
  (or an empty) value and the macro's \<^verbatim>\<open>else\<close> runs; the encoding failed
  (the field was set to NULL and the function returns \<^verbatim>\<open>VLC_ENOMEM\<close>); or
  the field now holds the encoded value.
\<close>

datatype meta_read = MetaAbsent | MetaNoMem | MetaOk string

definition alloc_item_meta :: "(string \<Rightarrow> string option) \<Rightarrow> string option \<Rightarrow> meta_read" where
  "alloc_item_meta enc m =
     (case m of
        None \<Rightarrow> MetaAbsent
      | Some x \<Rightarrow> if x = [] then MetaAbsent
                  else (case enc x of None \<Rightarrow> MetaNoMem | Some y \<Rightarrow> MetaOk y))"

text \<open>The optional fields: the encoded value, or \<^verbatim>\<open>calloc( 1, 1 )\<close>, an empty string.\<close>

fun meta_or_empty :: "meta_read \<Rightarrow> cptr" where
  "meta_or_empty (MetaOk x) = Ptr x"
| "meta_or_empty _ = Ptr []"

text \<open>
  The result is the return value, the state, and whether the lock is still held
  on return. The \<^verbatim>\<open>VLC_ENOMEM\<close> returns of the macro leave the function
  without \<^verbatim>\<open>vlc_mutex_unlock\<close>; a missing title frees \<^verbatim>\<open>psz_a\<close>
  without clearing the pointer.
\<close>

definition ReadMetaData :: "meta_env \<Rightarrow> intf_sys \<Rightarrow> vlc_ret \<times> intf_sys \<times> bool" where
  "ReadMetaData e s =
     (if \<not> md_input e then (VLC_SUCCESS, s, False)
      else if \<not> md_item e then (VLC_SUCCESS, s, False)
      else
        let s1 = s\<lparr>b_meta_read := True\<rparr>; c0 = p_current_song s in
        case alloc_item_meta (md_encode e) (md_artist e) of
          MetaAbsent \<Rightarrow> (VLC_EGENERIC, s1, False)
        | MetaNoMem \<Rightarrow> (VLC_ENOMEM, s1\<lparr>p_current_song := c0\<lparr>psz_a := NULL\<rparr>\<rparr>, True)
        | MetaOk a \<Rightarrow>
          let c1 = c0\<lparr>psz_a := Ptr a\<rparr> in
          case alloc_item_meta (md_encode e) (md_title e) of
            MetaAbsent \<Rightarrow> (VLC_EGENERIC, s1\<lparr>p_current_song := c1\<lparr>psz_a := Dangling\<rparr>\<rparr>, False)
          | MetaNoMem \<Rightarrow> (VLC_ENOMEM, s1\<lparr>p_current_song := c1\<lparr>psz_t := NULL\<rparr>\<rparr>, True)
          | MetaOk t \<Rightarrow>
            let c2 = c1\<lparr>psz_t := Ptr t\<rparr>; s2 = s1\<lparr>b_submit := True\<rparr> in
            case alloc_item_meta (md_encode e) (md_album e) of
              MetaNoMem \<Rightarrow> (VLC_ENOMEM, s2\<lparr>p_current_song := c2\<lparr>psz_b := NULL\<rparr>\<rparr>, True)
            | mb \<Rightarrow>
              let c3 = c2\<lparr>psz_b := meta_or_empty mb\<rparr> in
              case alloc_item_meta (md_encode e) (md_trackid e) of
                MetaNoMem \<Rightarrow> (VLC_ENOMEM, s2\<lparr>p_current_song := c3\<lparr>psz_m := NULL\<rparr>\<rparr>, True)
              | mm \<Rightarrow>
                let c4 = c3\<lparr>psz_m := meta_or_empty mm, i_l := c_div (md_duration e) 1000000\<rparr> in
                case alloc_item_meta (md_encode e) (md_tracknum e) of
                  MetaNoMem \<Rightarrow> (VLC_ENOMEM, s2\<lparr>p_current_song := c4\<lparr>psz_n := NULL\<rparr>\<rparr>, True)
                | mn \<Rightarrow> (VLC_SUCCESS, s2\<lparr>p_current_song := c4\<lparr>psz_n := meta_or_empty mn\<rparr>\<rparr>, False))"

subsection \<open>PlayingChange\<close>

text \<open>
  The arguments of the \<^verbatim>\<open>state\<close> callback: whether the interface is dying
  (\<^verbatim>\<open>p_intf->b_dead\<close>), the old and new input state, \<^verbatim>\<open>mdate()\<close>, and
  what \<^verbatim>\<open>ReadMetaData\<close> would find.
\<close>

record pc_env =
  pc_dead :: bool
  pc_old :: input_state
  pc_new :: input_state
  pc_now :: mtime
  pc_meta :: meta_env

definition PlayingChange :: "pc_env \<Rightarrow> intf_sys \<Rightarrow> c_error + intf_sys \<times> bool" where
  "PlayingChange e s =
     (if pc_dead e then Inr (s, False)
      else if \<not> b_meta_read s \<and> PLAYING_S \<le> pc_new e then
        (case ReadMetaData (pc_meta e) s of (r, s', held) \<Rightarrow> Inr (s', held))
      else if END_S \<le> pc_new e then
        (case AddToQueue (pc_now e) s of Inl err \<Rightarrow> Inl err | Inr (r, s') \<Rightarrow> Inr (s', False))
      else if pc_old e = PLAYING_S \<and> pc_new e = PAUSE_S then Inr (s\<lparr>time_pause := pc_now e\<rparr>, False)
      else if pc_old e = PAUSE_S \<and> pc_new e = PLAYING_S then
        Inr (s\<lparr>time_total_pauses := time_total_pauses s + (pc_now e - time_pause s)\<rparr>, False)
      else Inr (s, False))"

subsection \<open>ItemChange\<close>

text \<open>
  What the player answers \<^verbatim>\<open>ItemChange\<close>: whether the interface is dying,
  whether the playlist has a live input and the input an item, whether the item
  has video or is a network stream, \<^verbatim>\<open>time()\<close>, whether the item is
  preparsed, and what \<^verbatim>\<open>ReadMetaData\<close> would find.
\<close>

record ic_env =
  ic_dead :: bool
  ic_input :: bool
  ic_item :: bool
  ic_video_or_net :: bool
  ic_time :: time_t
  ic_preparsed :: bool
  ic_meta :: meta_env

definition ItemChange :: "ic_env \<Rightarrow> intf_sys \<Rightarrow> intf_sys \<times> bool" where
  "ItemChange e s =
     (if ic_dead e then (s, False)
      else
        let s1 = s\<lparr>b_state_cb := False, b_meta_read := False, b_submit := False\<rparr> in
        if \<not> ic_input e then (s1, False)
        else if \<not> ic_item e then (s1, False)
        else if ic_video_or_net e then (s1, False)
        else
          let s2 = s1\<lparr>time_total_pauses := 0, p_current_song := (p_current_song s1)\<lparr>date := ic_time e\<rparr>,
                      b_state_cb := True\<rparr>
          in if ic_preparsed e then (case ReadMetaData (ic_meta e) s2 of (r, s3, held) \<Rightarrow> (s3, held))
             else (s2, False))"

subsection \<open>What the callbacks leave alone\<close>

text \<open>
  The callbacks touch only the current song and the callback bookkeeping; the
  queue, the backoff state and the session belong to the engine.
\<close>

definition engine_same :: "intf_sys \<Rightarrow> intf_sys \<Rightarrow> bool" where
  "engine_same s s' \<longleftrightarrow> p_queue s' = p_queue s \<and> i_songs s' = i_songs s \<and>
     next_exchange s' = next_exchange s \<and> i_interval s' = i_interval s \<and>
     psz_submit_host s' = psz_submit_host s \<and> i_submit_port s' = i_submit_port s \<and>
     psz_submit_file s' = psz_submit_file s \<and> b_handshaked s' = b_handshaked s \<and>
     psz_auth_token s' = psz_auth_token s"

subsection \<open>Concrete instances\<close>

text \<open>An item with an artist and no title, and one whose encoder runs out of memory.\<close>

definition meta_no_title :: meta_env where
  "meta_no_title = \<lparr>md_input = True, md_item = True, md_artist = Some ''A'', md_title = None,
     md_album = None, md_trackid = None, md_tracknum = None, md_duration = 300000000,
     md_encode = Some\<rparr>"

definition meta_nomem :: meta_env where
  "meta_nomem = meta_no_title\<lparr>md_title := Some ''T'', md_encode := (\<lambda>_. None)\<rparr>"

definition ic_no_title :: ic_env where
  "ic_no_title = \<lparr>ic_dead = False, ic_input = True, ic_item = True, ic_video_or_net = False,
     ic_time = 0, ic_preparsed = True, ic_meta = meta_no_title\<rparr>"

definition ic_full :: ic_env where
  "ic_full = ic_no_title\<lparr>ic_meta := meta_no_title\<lparr>md_title := Some ''T''\<rparr>\<rparr>"

definition pc_end :: "mtime \<Rightarrow> pc_env" where
  "pc_end t = \<lparr>pc_dead = False, pc_old = PLAYING_S, pc_new = END_S, pc_now = t, pc_meta = meta_no_title\<rparr>"

section \<open>Lemmas\<close>

lemma alloc_item_meta_ok:
  "alloc_item_meta enc m \<noteq> MetaNoMem \<Longrightarrow> meta_or_empty (alloc_item_meta enc m) \<noteq> Dangling \<and>
     meta_or_empty (alloc_item_meta enc m) \<noteq> NULL"
  by (cases "alloc_item_meta enc m") simp_all

lemma ReadMetaData_success:
  assumes "md_input e" "md_item e" "ReadMetaData e s = (VLC_SUCCESS, s', held)"
  shows "b_submit s' \<and> song_ok (p_current_song s') \<and> (\<exists>a. psz_a (p_current_song s') = Ptr a) \<and>
         (\<exists>t. psz_t (p_current_song s') = Ptr t) \<and> \<not> held"
  using assms alloc_item_meta_ok [of "md_encode e" "md_album e"]
    alloc_item_meta_ok [of "md_encode e" "md_trackid e"] alloc_item_meta_ok [of "md_encode e" "md_tracknum e"]
  by (auto simp: ReadMetaData_def Let_def song_ok_def split: meta_read.splits)

lemma ReadMetaData_no_title:
  assumes "md_input e" "md_item e" "alloc_item_meta (md_encode e) (md_artist e) = MetaOk a"
    "alloc_item_meta (md_encode e) (md_title e) = MetaAbsent"
  shows "ReadMetaData e s =
           (VLC_EGENERIC, s\<lparr>b_meta_read := True, p_current_song := (p_current_song s)\<lparr>psz_a := Dangling\<rparr>\<rparr>, False)"
  using assms by (simp add: ReadMetaData_def)

lemma AddToQueue_unsubmitted_dangling:
  "\<not> b_submit s \<Longrightarrow> psz_a (p_current_song s) = Dangling \<Longrightarrow> AddToQueue t s = Inl DoubleFree"
  by (simp add: AddToQueue_def add_check_def DeleteSong_def)

lemma engine_same_refl [simp]: "engine_same s s"
  by (simp add: engine_same_def)

lemma ReadMetaData_held:
  "ReadMetaData e s = (r, s', held) \<Longrightarrow> held = (r = VLC_ENOMEM)"
  by (auto simp: ReadMetaData_def Let_def split: if_splits meta_read.splits)

lemma ReadMetaData_engine:
  "ReadMetaData e s = (r, s', held) \<Longrightarrow> engine_same s s'"
  by (auto simp: ReadMetaData_def engine_same_def Let_def split: if_splits meta_read.splits)

lemma ReadMetaData_current:
  assumes "ReadMetaData e s = (r, s', False)" "\<not> b_submit s"
  shows "current_inv s' \<and> (b_submit s' \<longrightarrow> b_meta_read s')"
  using assms alloc_item_meta_ok [of "md_encode e" "md_album e"]
    alloc_item_meta_ok [of "md_encode e" "md_trackid e"] alloc_item_meta_ok [of "md_encode e" "md_tracknum e"]
  by (auto simp: ReadMetaData_def Let_def song_ok_def current_inv_def split: if_splits meta_read.splits)

lemma ItemChange_engine:
  "ItemChange e s = (s', held) \<Longrightarrow> engine_same s s'"
  by (auto simp: ItemChange_def engine_same_def Let_def split: if_splits prod.splits
           dest!: ReadMetaData_engine)

lemma ItemChange_current:
  assumes "ItemChange e s = (s', False)" "current_inv s" "b_submit s \<longrightarrow> b_meta_read s"
  shows "current_inv s' \<and> (b_submit s' \<longrightarrow> b_meta_read s')"
  using assms
  by (auto simp: ItemChange_def Let_def current_inv_def split: if_splits prod.splits
           dest!: ReadMetaData_current)

lemma PlayingChange_cases:
  assumes "PlayingChange e s = Inr (s', False)"
  shows "(\<exists>r. AddToQueue (pc_now e) s = Inr (r, s')) \<or>
         (\<exists>r. \<not> b_meta_read s \<and> ReadMetaData (pc_meta e) s = (r, s', False)) \<or>
         (engine_same s s' \<and> p_current_song s' = p_current_song s \<and> b_submit s' = b_submit s \<and>
          b_meta_read s' = b_meta_read s)"
  using assms
  by (auto simp: PlayingChange_def engine_same_def split: if_splits prod.splits sum.splits)

section \<open>Properties\<close>

text \<open>
  C21. \<^verbatim>\<open>ReadMetaData\<close> returns with \<^verbatim>\<open>p_sys->lock\<close> held exactly when
  it returns \<^verbatim>\<open>VLC_ENOMEM\<close>: every early return of the macro skips the
  unlock, so the worker and every later callback block on the mutex.
\<close>

theorem ReadMetaData_lock_held_iff_enomem:
  "ReadMetaData e s = (r, s', held) \<Longrightarrow> held = (r = VLC_ENOMEM)"
  by (rule ReadMetaData_held)

theorem ReadMetaData_lock_held_iff_enomem_witness:
  "ReadMetaData meta_nomem sys_init = (VLC_ENOMEM, snd (ReadMetaData meta_nomem sys_init)) \<and>
   snd (snd (ReadMetaData meta_nomem sys_init))"
proof -
  have r: "fst (ReadMetaData meta_nomem sys_init) = VLC_ENOMEM"
    by (simp add: ReadMetaData_def meta_nomem_def meta_no_title_def alloc_item_meta_def)
  obtain s' h where e: "ReadMetaData meta_nomem sys_init = (VLC_ENOMEM, s', h)"
    using r by (cases "ReadMetaData meta_nomem sys_init") auto
  from ReadMetaData_lock_held_iff_enomem [OF e] e show ?thesis by simp
qed

text \<open>
  When \<^verbatim>\<open>ReadMetaData\<close> succeeds on an item, the current song is marked
  for submission, has an artist and a title, and holds no freed pointer: the
  metadata step of the interleaving (\<open>cstep.metadata\<close>) is what it does.
\<close>

theorem ReadMetaData_success_song_ok:
  "md_input e \<Longrightarrow> md_item e \<Longrightarrow> ReadMetaData e s = (VLC_SUCCESS, s', held) \<Longrightarrow>
   b_submit s' \<and> song_ok (p_current_song s') \<and> (\<exists>a. psz_a (p_current_song s') = Ptr a) \<and>
   (\<exists>t. psz_t (p_current_song s') = Ptr t) \<and> \<not> held"
  by (rule ReadMetaData_success)

theorem ReadMetaData_success_song_ok_witness:
  "md_input (meta_no_title\<lparr>md_title := Some ''T''\<rparr>) \<and> md_item (meta_no_title\<lparr>md_title := Some ''T''\<rparr>) \<and>
   b_submit (fst (snd (ReadMetaData (meta_no_title\<lparr>md_title := Some ''T''\<rparr>) sys_init))) \<and>
   song_ok (p_current_song (fst (snd (ReadMetaData (meta_no_title\<lparr>md_title := Some ''T''\<rparr>) sys_init))))"
proof -
  let ?e = "meta_no_title\<lparr>md_title := Some ''T''\<rparr>"
  have i: "md_input ?e" "md_item ?e" by (simp_all add: meta_no_title_def)
  have r: "fst (ReadMetaData ?e sys_init) = VLC_SUCCESS"
    by (simp add: ReadMetaData_def meta_no_title_def alloc_item_meta_def Let_def)
  obtain s' h where e: "ReadMetaData ?e sys_init = (VLC_SUCCESS, s', h)"
    using r by (cases "ReadMetaData ?e sys_init") auto
  from ReadMetaData_success_song_ok [OF i e] i e show ?thesis by simp
qed

text \<open>
  C20. A preparsed audio item with an artist and no title: \<^verbatim>\<open>ItemChange\<close>
  runs \<^verbatim>\<open>ReadMetaData\<close>, which frees the encoded artist and leaves the
  pointer in the current song; when the input then ends, \<^verbatim>\<open>PlayingChange\<close>
  calls \<^verbatim>\<open>AddToQueue\<close>, whose \<^verbatim>\<open>DeleteSong\<close> frees it a second time.
\<close>

theorem ItemChange_no_title_double_free:
  "\<not> ic_dead e \<Longrightarrow> ic_input e \<Longrightarrow> ic_item e \<Longrightarrow> \<not> ic_video_or_net e \<Longrightarrow> ic_preparsed e \<Longrightarrow>
   md_input (ic_meta e) \<Longrightarrow> md_item (ic_meta e) \<Longrightarrow>
   alloc_item_meta (md_encode (ic_meta e)) (md_artist (ic_meta e)) = MetaOk a \<Longrightarrow>
   alloc_item_meta (md_encode (ic_meta e)) (md_title (ic_meta e)) = MetaAbsent \<Longrightarrow>
   ItemChange e s = (s', held) \<Longrightarrow> \<not> pc_dead p \<Longrightarrow> END_S \<le> pc_new p \<Longrightarrow>
   \<not> held \<and> PlayingChange p s' = Inl DoubleFree"
  by (auto simp: ItemChange_def PlayingChange_def ReadMetaData_no_title Let_def
                 AddToQueue_unsubmitted_dangling)

theorem ItemChange_no_title_double_free_witness:
  "\<not> snd (ItemChange ic_no_title sys_init) \<and>
   PlayingChange (pc_end 300000000) (fst (ItemChange ic_no_title sys_init)) = Inl DoubleFree"
proof -
  have a: "alloc_item_meta (md_encode (ic_meta ic_no_title)) (md_artist (ic_meta ic_no_title)) = MetaOk ''A''"
    and t: "alloc_item_meta (md_encode (ic_meta ic_no_title)) (md_title (ic_meta ic_no_title)) = MetaAbsent"
    by (simp_all add: ic_no_title_def meta_no_title_def alloc_item_meta_def)
  have f: "\<not> ic_dead ic_no_title" "ic_input ic_no_title" "ic_item ic_no_title"
    "\<not> ic_video_or_net ic_no_title" "ic_preparsed ic_no_title"
    "md_input (ic_meta ic_no_title)" "md_item (ic_meta ic_no_title)"
    "\<not> pc_dead (pc_end 300000000)" "END_S \<le> pc_new (pc_end 300000000)"
    by (simp_all add: ic_no_title_def meta_no_title_def pc_end_def)
  show ?thesis
    using ItemChange_no_title_double_free [OF f(1-7) a t _ f(8,9), of sys_init
      "fst (ItemChange ic_no_title sys_init)" "snd (ItemChange ic_no_title sys_init)"]
    by simp
qed

text \<open>
  C33. A pause followed by a resume adds the paused time, in \<^verbatim>\<open>mdate()\<close>
  microseconds, to \<^verbatim>\<open>time_total_pauses\<close> and leaves the current song alone.
\<close>

theorem PlayingChange_pause_accounting:
  "b_meta_read s \<Longrightarrow>
   PlayingChange \<lparr>pc_dead = False, pc_old = PLAYING_S, pc_new = PAUSE_S, pc_now = t1, pc_meta = m\<rparr> s = Inr (s1, h1) \<Longrightarrow>
   PlayingChange \<lparr>pc_dead = False, pc_old = PAUSE_S, pc_new = PLAYING_S, pc_now = t2, pc_meta = m'\<rparr> s1 = Inr (s2, h2) \<Longrightarrow>
   time_total_pauses s2 = time_total_pauses s + (t2 - t1) \<and> p_current_song s2 = p_current_song s \<and>
   b_submit s2 = b_submit s \<and> \<not> h1 \<and> \<not> h2"
  by (auto simp: PlayingChange_def less_eq_input_state_def)

theorem PlayingChange_pause_accounting_witness:
  "PlayingChange \<lparr>pc_dead = False, pc_old = PAUSE_S, pc_new = PLAYING_S, pc_now = 7, pc_meta = meta_no_title\<rparr>
     (sys_init\<lparr>b_meta_read := True, time_pause := 4\<rparr>) =
     Inr (sys_init\<lparr>b_meta_read := True, time_pause := 4, time_total_pauses := 3\<rparr>, False) \<and>
   time_total_pauses (sys_init\<lparr>b_meta_read := True, time_pause := 4, time_total_pauses := 3\<rparr>) =
     time_total_pauses sys_init + (7 - 4)"
proof -
  have p: "PlayingChange \<lparr>pc_dead = False, pc_old = PLAYING_S, pc_new = PAUSE_S, pc_now = 4, pc_meta = meta_no_title\<rparr>
      (sys_init\<lparr>b_meta_read := True\<rparr>) = Inr (sys_init\<lparr>b_meta_read := True, time_pause := 4\<rparr>, False)"
    by (simp add: PlayingChange_def less_eq_input_state_def)
  have q: "PlayingChange \<lparr>pc_dead = False, pc_old = PAUSE_S, pc_new = PLAYING_S, pc_now = 7, pc_meta = meta_no_title\<rparr>
      (sys_init\<lparr>b_meta_read := True, time_pause := 4\<rparr>) =
      Inr (sys_init\<lparr>b_meta_read := True, time_pause := 4, time_total_pauses := 3\<rparr>, False)"
    by (simp add: PlayingChange_def less_eq_input_state_def sys_init_def)
  from PlayingChange_pause_accounting [OF _ p q] q show ?thesis by simp
qed

text \<open>
  An item with video, or a network stream, is never submitted:
  \<^verbatim>\<open>ItemChange\<close> clears \<^verbatim>\<open>b_submit\<close> and registers no state callback,
  so \<^verbatim>\<open>AddToQueue\<close> finds nothing to submit.
\<close>

theorem ItemChange_non_audio_not_submitted:
  "\<not> ic_dead e \<Longrightarrow> ic_video_or_net e \<Longrightarrow> ItemChange e s = (s', held) \<Longrightarrow>
   add_check t s' = NotSubmitting \<and> \<not> b_state_cb s' \<and> \<not> held"
  by (auto simp: ItemChange_def add_check_def Let_def split: if_splits)

theorem ItemChange_non_audio_not_submitted_witness:
  "add_check 0 (fst (ItemChange (ic_no_title\<lparr>ic_video_or_net := True\<rparr>) sys_init)) = NotSubmitting \<and>
   \<not> snd (ItemChange (ic_no_title\<lparr>ic_video_or_net := True\<rparr>) sys_init)"
  using ItemChange_non_audio_not_submitted [of "ic_no_title\<lparr>ic_video_or_net := True\<rparr>" sys_init
      "fst (ItemChange (ic_no_title\<lparr>ic_video_or_net := True\<rparr>) sys_init)"
      "snd (ItemChange (ic_no_title\<lparr>ic_video_or_net := True\<rparr>) sys_init)" 0]
  by (simp add: ic_no_title_def)

end
