(* ===== verification/Concurrency.thy ===== *)
theory Concurrency
  imports Session Player
begin

text \<open>
  The playback callbacks and the worker, interleaved. \<^verbatim>\<open>ItemChange\<close> and
  \<^verbatim>\<open>PlayingChange\<close> run on the player's threads at any time; the metadata
  they read and the \<^verbatim>\<open>AddToQueue\<close> they call run under
  \<^verbatim>\<open>p_sys->lock\<close>. The worker thread of \<^verbatim>\<open>Run\<close> takes the lock only to
  build the submission body (lines 351--384), then connects, sends and reads
  without it, and on an \<^verbatim>\<open>OK\<close> reply frees and zeroes the queue (lines
  446--451) still without it. The worker's atomic steps are therefore: the
  handshake, the snapshot (the queue it submits), and the handling of the reply.
  \<open>cstep\<close> is the step relation of the whole plugin on (state, worker phase); a
  callback that returns with the lock held (\<^verbatim>\<open>ReadMetaData\<close> out of memory)
  or faults (a double free) has no successor. \<open>creach\<close> is the set of
  configurations reachable from the state \<^verbatim>\<open>Open\<close> creates. The
  specification's \<open>Clear(snapshot)\<close> (spec section 4.2) is \<open>spec_clear\<close> on the
  abstract queue.
\<close>

section \<open>Definitions\<close>

text \<open>The worker between two lock sections: idle, or with the songs of the request in flight.\<close>

datatype worker = WIdle | WInFlight "song list"

type_synonym config = "intf_sys \<times> worker"

inductive cstep :: "config \<Rightarrow> config \<Rightarrow> bool" where
  item_change: "ItemChange e s = (s', False) \<Longrightarrow> cstep (s, w) (s', w)"
| playing_change: "PlayingChange p s = Inr (s', False) \<Longrightarrow> cstep (s, w) (s', w)"
| handshake: "\<not> b_handshaked s \<Longrightarrow> Handshake e s = (r, s1) \<Longrightarrow> after_handshake t r s1 = (x, s2) \<Longrightarrow>
    cstep (s, WIdle) (s2, WIdle)"
| snapshot: "b_handshaked s \<Longrightarrow> cstep (s, WIdle) (s, WInFlight (queue_list s))"
| transport_error: "cstep (s, WInFlight q) ((apply_backoff t s)\<lparr>b_handshaked := False\<rparr>, WIdle)"
| no_reply: "cstep (s, WInFlight q) (s, WIdle)"
| reply: "handle_reply t buf s = (RunContinue, s') \<Longrightarrow> cstep (s, WInFlight q) (s', WIdle)"

inductive creach :: "config \<Rightarrow> bool" where
  init: "creach (sys_init, WIdle)"
| step: "creach c \<Longrightarrow> cstep c c' \<Longrightarrow> creach c'"

text \<open>The specification's \<open>Clear\<close>: remove exactly the snapshot from the front of the queue.\<close>

definition spec_clear :: "song list \<Rightarrow> song list \<Rightarrow> song list" where
  "spec_clear snap q = (if take (length snap) q = snap then drop (length snap) q else q)"

text \<open>
  The invariant of the interleaving: the engine invariant, a current song safe to
  queue, a song marked for submission only once its metadata was read, and, while
  a request is in flight, its songs are still the front of the queue (producers
  only append).
\<close>

definition conc_inv :: "config \<Rightarrow> bool" where
  "conc_inv c \<longleftrightarrow> run_inv (fst c) \<and> current_inv (fst c) \<and>
     (b_submit (fst c) \<longrightarrow> b_meta_read (fst c)) \<and>
     (case snd c of WIdle \<Rightarrow> True | WInFlight snap \<Rightarrow> \<exists>extra. queue_list (fst c) = snap @ extra)"

subsection \<open>Concrete instances\<close>

text \<open>
  A handshake environment whose server accepts the credentials and names the
  submission endpoint \<^verbatim>\<open>post.example:80/submit\<close>.
\<close>

definition race_hs :: hs_env where
  "race_hs = \<lparr>cfg_username = Some ''u'', cfg_password = Some ''p'', hs_time = 0, md5 = (\<lambda>x. x),
     client_name = ''vlc'', client_version = ''0.9'',
     http_get = (\<lambda>_. Some (hs_reply_ok demo_sid ''np.example:80/np'' ''post.example'' 80 ''submit''))\<rparr>"

section \<open>Lemmas\<close>

lemma engine_same_run_inv:
  "engine_same s s' \<Longrightarrow> run_inv s' = run_inv s \<and> queue_list s' = queue_list s"
  by (simp add: engine_same_def run_inv_def queue_inv_def queue_list_def session_inv_def)

lemma AddToQueue_session_frame:
  "AddToQueue t s = Inr (r, s') \<Longrightarrow>
   i_interval s' = i_interval s \<and> b_handshaked s' = b_handshaked s \<and>
   psz_submit_host s' = psz_submit_host s \<and> psz_submit_file s' = psz_submit_file s \<and>
   i_submit_port s' = i_submit_port s \<and> next_exchange s' = next_exchange s \<and> \<not> b_submit s' \<and>
   psz_auth_token s' = psz_auth_token s"
  by (auto simp: AddToQueue_def queue_copy_def Let_def split: sum.splits if_splits)

lemma AddToQueue_run_inv:
  assumes "run_inv s" "current_inv s" "AddToQueue t s = Inr (r, s')"
  shows "run_inv s' \<and> current_inv s'"
proof -
  have "queue_inv s" using assms(1) by (simp add: run_inv_def)
  then have "queue_inv s' \<and> current_inv s'"
    using assms(2,3) by (rule AddToQueue_inv_step)
  moreover have "interval_ok (i_interval s') \<and> session_inv s'"
    using AddToQueue_session_frame [OF assms(3)] assms(1) by (simp add: run_inv_def session_inv_def)
  ultimately show ?thesis by (simp add: run_inv_def)
qed

lemma AddToQueue_eligible:
  assumes "queue_inv s" "b_submit s" "song_ok (p_current_song s)" "i_songs s < QUEUE_MAX"
    "eligible t (time_total_pauses s) (p_current_song s)"
  obtains s' where "AddToQueue t s = Inr (Queued, s')"
    "queue_list s' = queue_list s @ [p_current_song s]" "b_handshaked s' = b_handshaked s"
proof -
  have "current_inv s" using assms(3) by (simp add: current_inv_def)
  then obtain r s' where a: "AddToQueue t s = Inr (r, s')" using assms(2) AddToQueue_no_error by blast
  have "r = Queued"
    using AddToQueue_cases [OF a] add_check_eligible [OF assms(2,5)] assms(4) by simp
  with a AddToQueue_queue_list [OF assms(1) a] AddToQueue_session_frame [OF a] that show ?thesis
    by simp
qed

lemma handle_reply_current:
  "handle_reply t buf s = (out, s') \<Longrightarrow>
   p_current_song s' = p_current_song s \<and> b_submit s' = b_submit s \<and> b_meta_read s' = b_meta_read s"
  by (auto simp: handle_reply_def apply_backoff_eq split: submit_reply.splits sum.splits)

lemma after_handshake_current:
  "Handshake e s = (r, s1) \<Longrightarrow> after_handshake t r s1 = (x, s2) \<Longrightarrow>
   p_current_song s2 = p_current_song s \<and> b_submit s2 = b_submit s \<and> b_meta_read s2 = b_meta_read s"
  by (auto simp: Handshake_def after_handshake_def apply_backoff_eq Let_def
           split: option.splits if_splits prod.splits vlc_ret.splits)

lemma conc_inv_producer:
  assumes "conc_inv (s, w)" "engine_same s s'" "current_inv s'" "b_submit s' \<longrightarrow> b_meta_read s'"
  shows "conc_inv (s', w)"
  using assms engine_same_run_inv [OF assms(2)] by (cases w) (simp_all add: conc_inv_def)

lemma conc_inv_worker:
  assumes "conc_inv (s, w)" "run_inv s'" "p_current_song s' = p_current_song s"
    "b_submit s' = b_submit s" "b_meta_read s' = b_meta_read s"
  shows "conc_inv (s', WIdle)"
  using assms by (simp add: conc_inv_def current_inv_def)

lemma cstep_item_change:
  assumes "ItemChange e s = (s', False)" "conc_inv (s, w)"
  shows "conc_inv (s', w)"
proof -
  have "current_inv s" "b_submit s \<longrightarrow> b_meta_read s" using assms(2) by (simp_all add: conc_inv_def)
  with assms(1) have "current_inv s' \<and> (b_submit s' \<longrightarrow> b_meta_read s')" by (rule ItemChange_current)
  with assms ItemChange_engine [OF assms(1)] show ?thesis by (blast intro: conc_inv_producer)
qed

lemma cstep_playing_change:
  assumes "PlayingChange p s = Inr (s', False)" "conc_inv (s, w)"
  shows "conc_inv (s', w)"
  using PlayingChange_cases [OF assms(1)]
proof (elim disjE exE conjE)
  fix r assume a: "AddToQueue (pc_now p) s = Inr (r, s')"
  have "run_inv s' \<and> current_inv s'"
    using AddToQueue_run_inv [OF _ _ a] assms(2) by (simp add: conc_inv_def)
  moreover have "queue_inv s" using assms(2) by (simp add: conc_inv_def run_inv_def)
  then have "queue_list s' = (if r = Queued then queue_list s @ [p_current_song s] else queue_list s)"
    using a by (rule AddToQueue_queue_list)
  ultimately show ?thesis
    using assms(2) AddToQueue_session_frame [OF a] by (cases w) (auto simp: conc_inv_def)
next
  fix r assume "\<not> b_meta_read s" and m: "ReadMetaData (pc_meta p) s = (r, s', False)"
  then have "\<not> b_submit s" using assms(2) by (auto simp: conc_inv_def)
  with m have "current_inv s' \<and> (b_submit s' \<longrightarrow> b_meta_read s')" by (rule ReadMetaData_current)
  with assms(2) ReadMetaData_engine [OF m] show ?thesis by (blast intro: conc_inv_producer)
next
  assume "engine_same s s'" "p_current_song s' = p_current_song s" "b_submit s' = b_submit s"
    "b_meta_read s' = b_meta_read s"
  moreover from this assms(2) have "current_inv s'" "b_submit s' \<longrightarrow> b_meta_read s'"
    by (simp_all add: conc_inv_def current_inv_def)
  ultimately show ?thesis using assms(2) by (blast intro: conc_inv_producer)
qed

lemma cstep_conc_inv:
  assumes "cstep c c'" "conc_inv c"
  shows "conc_inv c'"
  using assms
proof (induction rule: cstep.induct)
  case (item_change e s s' w)
  then show ?case by (rule cstep_item_change)
next
  case (playing_change p s s' w)
  then show ?case by (rule cstep_playing_change)
next
  case (handshake s e r s1 t x s2)
  have "run_inv s" using handshake.prems by (simp add: conc_inv_def)
  then have "run_inv s2" using handshake(2,3,1) by (rule after_handshake_inv)
  with handshake.prems after_handshake_current [OF handshake(2,3)] show ?case
    by (blast intro: conc_inv_worker)
next
  case (snapshot s)
  then show ?case by (simp add: conc_inv_def)
next
  case (transport_error s q t)
  then show ?case
    using run_inv_backoff_unauth(1) [of s t] by (simp add: conc_inv_def current_inv_def apply_backoff_eq)
next
  case (no_reply s q)
  then show ?case by (simp add: conc_inv_def)
next
  case (reply t buf s s' q)
  have "run_inv s" using reply.prems by (simp add: conc_inv_def)
  then have "run_inv s'" using reply(1) by (rule handle_reply_inv)
  with reply.prems handle_reply_current [OF reply(1)] show ?case by (blast intro: conc_inv_worker)
qed

text \<open>
  Only the handshake writes the session token and the endpoint pointers; every
  other step keeps them.
\<close>

lemma cstep_session_fields:
  assumes "cstep c c'"
  shows "(psz_auth_token (fst c') = psz_auth_token (fst c) \<and> psz_submit_host (fst c') = psz_submit_host (fst c) \<and>
          psz_submit_file (fst c') = psz_submit_file (fst c)) \<or>
         (\<exists>e r s1. Handshake e (fst c) = (r, s1) \<and> psz_auth_token (fst c') = psz_auth_token s1 \<and>
           psz_submit_host (fst c') = psz_submit_host s1 \<and> psz_submit_file (fst c') = psz_submit_file s1)"
  using assms
proof (induction rule: cstep.induct)
  case (item_change e s s' w)
  then show ?case using ItemChange_engine [OF item_change] by (simp add: engine_same_def)
next
  case (playing_change p s s' w)
  from PlayingChange_cases [OF playing_change] have
    "psz_auth_token s' = psz_auth_token s \<and> psz_submit_host s' = psz_submit_host s \<and>
     psz_submit_file s' = psz_submit_file s"
    by (auto simp: engine_same_def dest: AddToQueue_session_frame ReadMetaData_engine)
  then show ?case by simp
next
  case (handshake s e r s1 t x s2)
  have "psz_auth_token s2 = psz_auth_token s1 \<and> psz_submit_host s2 = psz_submit_host s1 \<and>
        psz_submit_file s2 = psz_submit_file s1"
    using handshake(3) by (auto simp: after_handshake_def apply_backoff_eq split: vlc_ret.splits)
  with handshake(2) show ?case by auto
next
  case (reply t buf s s' q)
  then show ?case by (auto simp: handle_reply_def apply_backoff_eq split: submit_reply.splits sum.splits)
qed (simp_all add: apply_backoff_eq)

lemma creach_inv: "creach c \<Longrightarrow> conc_inv c"
proof (induction rule: creach.induct)
  case init
  have "current_inv sys_init" by (simp add: current_inv_def sys_init_def)
  with run_inv_init show ?case by (simp add: conc_inv_def sys_init_def)
next
  case (step c c')
  then show ?case by (blast intro: cstep_conc_inv)
qed

lemma handle_reply_ok_clears:
  "classify_reply buf = ReplyOK \<Longrightarrow> handle_reply t buf s = (RunContinue, s') \<Longrightarrow> queue_list s' = []"
  by (auto simp: handle_reply_def split: sum.splits)

lemma spec_clear_prefix [simp]: "spec_clear snap (snap @ extra) = extra"
  by (simp add: spec_clear_def)

lemma race_handshake: "fst (Handshake race_hs sys_init) = VLC_SUCCESS"
proof -
  let ?b = "hs_reply_ok demo_sid ''np.example:80/np'' ''post.example'' 80 ''submit''"
  have c: "cstr_of_buffer ?b = ?b"
    by code_simp
  have n: "take 1023 ?b \<noteq> []" by (simp add: hs_reply_ok_def)
  have h1: "length demo_sid = 32" by (simp add: demo_sid_def)
  have h2: "strstr demo_sid ''http://'' = None" by (simp add: demo_sid_def)
  have h3: "strstr ''np.example:80/np'' ''http://'' = None" by simp
  have h4: "LF \<notin> set ''post.example''" "LF \<notin> set ''submit''" "CHR '':'' \<notin> set ''post.example''"
    "CHR ''/'' \<notin> set ''post.example''" "(0::nat) < 80" by simp_all
  have h5: "strstr ?b ''FAILED '' = None" "strstr ?b ''BADAUTH'' = None"
    "strstr ?b ''BANNED'' = None" "strstr ?b ''BADTIME'' = None"
    by (simp_all add: hs_reply_ok_def demo_sid_def dec_nat.simps digit_char_def)
  have p: "\<And>tok ep. parse_handshake_response ?b tok ep = (VLC_SUCCESS, demo_sid, Ptr ''post.example'', Ptr ''submit'', int 80)"
    using parse_handshake_reply_ok [OF h1 h2 h3 h4 h5] .
  show ?thesis
    by (simp add: Handshake_def race_hs_def c n p Let_def del: take_eq_Nil)
qed

lemma ItemChange_full:
  "\<not> snd (ItemChange ic_full s) \<and> b_submit (fst (ItemChange ic_full s)) \<and>
   eligible 300000000 (time_total_pauses (fst (ItemChange ic_full s))) (p_current_song (fst (ItemChange ic_full s)))"
  by (simp add: ItemChange_def ic_full_def ic_no_title_def meta_no_title_def ReadMetaData_def
                alloc_item_meta_def eligible_def c_div_def Let_def)

lemma creach_play:
  assumes "creach (s, w)" "length (queue_list s) < nat QUEUE_MAX"
  obtains s' where "creach (s', w)" "queue_list s' = queue_list s @ [p_current_song (fst (ItemChange ic_full s))]"
    "b_handshaked s' = b_handshaked s"
proof -
  let ?s1 = "fst (ItemChange ic_full s)"
  have ic: "ItemChange ic_full s = (?s1, False)" and sub: "b_submit ?s1"
    and el: "eligible 300000000 (time_total_pauses ?s1) (p_current_song ?s1)"
    using ItemChange_full [of s] by (simp_all add: prod_eq_iff)
  have c1: "creach (?s1, w)" using assms(1) cstep.item_change [OF ic] by (rule creach.step)
  have inv: "conc_inv (?s1, w)" using c1 by (rule creach_inv)
  have same: "run_inv ?s1 = run_inv s \<and> queue_list ?s1 = queue_list s" "b_handshaked ?s1 = b_handshaked s"
    using engine_same_run_inv [OF ItemChange_engine [OF ic]] ItemChange_engine [OF ic]
    by (simp_all add: engine_same_def)
  have q: "queue_inv ?s1" and ok: "song_ok (p_current_song ?s1)" and m: "b_meta_read ?s1"
    using inv sub by (simp_all add: conc_inv_def run_inv_def current_inv_def)
  have "i_songs ?s1 < QUEUE_MAX"
    using length_queue_list [OF q] q assms(2) same(1) by (simp add: queue_inv_def nat_less_iff QUEUE_MAX_def)
  then obtain s' where a: "AddToQueue 300000000 ?s1 = Inr (Queued, s')"
    and ql: "queue_list s' = queue_list ?s1 @ [p_current_song ?s1]" and hs: "b_handshaked s' = b_handshaked ?s1"
    using AddToQueue_eligible [OF q sub ok _ el] by blast
  have "PlayingChange (pc_end 300000000) ?s1 = Inr (s', False)"
    using a m by (simp add: PlayingChange_def pc_end_def less_eq_input_state_def)
  with c1 have "creach (s', w)" by (blast intro: creach.step cstep.playing_change)
  with ql hs same that show ?thesis by simp
qed

lemma race_trace:
  "\<exists>s s' x y. creach (s, WInFlight [x]) \<and> queue_list s = [x, y] \<and>
     handle_reply 0 ''OK'' s = (RunContinue, s') \<and> queue_list s' = []"
proof -
  define s1 where "s1 = snd (Handshake race_hs sys_init)"
  have hs: "Handshake race_hs sys_init = (VLC_SUCCESS, s1)"
    using race_handshake by (simp add: s1_def prod_eq_iff)
  define s2 where "s2 = s1\<lparr>b_handshaked := True, i_interval := 0, next_exchange := 0\<rparr>"
  have ah: "after_handshake 0 VLC_SUCCESS s1 = (None, s2)" by (simp add: after_handshake_def s2_def)
  have "cstep (sys_init, WIdle) (s2, WIdle)"
    by (rule cstep.handshake [OF _ hs ah]) (simp add: sys_init_def)
  with creach.init have c2: "creach (s2, WIdle)" by (rule creach.step)
  have "p_queue s1 = p_queue sys_init \<and> i_songs s1 = 0"
    using Handshake_frame [OF hs] by (simp add: sys_init_def)
  then have q2: "queue_list s2 = []" "b_handshaked s2"
    by (simp_all add: s2_def queue_list_def)
  obtain s4 where c4: "creach (s4, WIdle)" and q4: "queue_list s4 = [p_current_song (fst (ItemChange ic_full s2))]"
    and b4: "b_handshaked s4"
    by (rule creach_play [OF c2]) (auto simp: q2 QUEUE_MAX_def)
  have "creach (s4, WInFlight (queue_list s4))"
    using c4 cstep.snapshot [OF b4] by (rule creach.step)
  then obtain s6 where c6: "creach (s6, WInFlight (queue_list s4))"
    and q6: "queue_list s6 = queue_list s4 @ [p_current_song (fst (ItemChange ic_full s4))]"
    by (rule creach_play) (auto simp: q4 QUEUE_MAX_def)
  have "queue_inv s6" using creach_inv [OF c6] by (simp add: conc_inv_def run_inv_def)
  then have "\<forall>x\<in>set (take (nat (i_songs s6)) (p_queue s6)). song_ok x"
    by (simp add: queue_inv_def queue_list_def)
  then obtain q where d: "delete_prefix (nat (i_songs s6)) (p_queue s6) = Inr q"
    using delete_prefix_ok by blast
  let ?s7 = "s6\<lparr>p_queue := q, i_songs := 0, i_interval := 0, next_exchange := 0\<rparr>"
  have "handle_reply 0 ''OK'' s6 = (RunContinue, ?s7)"
    by (simp add: handle_reply_def classify_reply_def d)
  moreover have "queue_list ?s7 = []" by (simp add: queue_list_def)
  ultimately show ?thesis using c6 q6 q4
    by (intro exI [of _ s6] exI [of _ ?s7] exI [of _ "p_current_song (fst (ItemChange ic_full s2))"]
        exI [of _ "p_current_song (fst (ItemChange ic_full s4))"]) simp
qed

section \<open>Properties\<close>

text \<open>
  C3. Every configuration reachable by interleaving the playback callbacks with
  the worker satisfies the engine invariant and a safe current song, a song is
  marked for submission only after its metadata was read, and while a request is
  in flight its songs are still the front of the queue.
\<close>

theorem creach_conc_inv: "creach c \<Longrightarrow> conc_inv c"
  by (rule creach_inv)

theorem creach_conc_inv_witness: "creach (sys_init, WIdle) \<and> conc_inv (sys_init, WIdle)"
  using creach_conc_inv [of "(sys_init, WIdle)"] creach.init by simp

text \<open>
  C10. On an \<^verbatim>\<open>OK\<close> reply to a request in flight, the worker's clearing of
  the queue (lines 446--451) agrees with the specification's
  \<open>Clear(snapshot)\<close> exactly when no song was queued after the snapshot was
  taken: the code empties the whole queue.
\<close>

theorem reply_ok_refines_clear_iff:
  "creach (s, WInFlight snap) \<Longrightarrow> classify_reply buf = ReplyOK \<Longrightarrow>
   handle_reply t buf s = (RunContinue, s') \<Longrightarrow>
   queue_list s' = [] \<and> (queue_list s' = spec_clear snap (queue_list s) \<longleftrightarrow> queue_list s = snap)"
proof -
  assume r: "creach (s, WInFlight snap)" "classify_reply buf = ReplyOK"
    "handle_reply t buf s = (RunContinue, s')"
  obtain extra where "queue_list s = snap @ extra"
    using creach_inv [OF r(1)] by (auto simp: conc_inv_def)
  moreover have "queue_list s' = []" using r(2,3) by (rule handle_reply_ok_clears)
  ultimately show ?thesis by auto
qed

theorem reply_ok_refines_clear_iff_witness:
  "\<exists>s s' x. creach (s, WInFlight [x]) \<and> classify_reply ''OK'' = ReplyOK \<and>
     handle_reply 0 ''OK'' s = (RunContinue, s') \<and>
     queue_list s' = [] \<and> queue_list s' \<noteq> spec_clear [x] (queue_list s)"
proof -
  obtain s s' x y where t: "creach (s, WInFlight [x])" "queue_list s = [x, y]"
    "handle_reply 0 ''OK'' s = (RunContinue, s')"
    using race_trace by blast
  have c: "classify_reply ''OK'' = ReplyOK" by (simp add: classify_reply_def)
  from reply_ok_refines_clear_iff [OF t(1) c t(3)] t(2)
  have "queue_list s' = [] \<and> queue_list s' \<noteq> spec_clear [x] (queue_list s)" by (simp add: spec_clear_def)
  with c t(1,3) show ?thesis by blast
qed

text \<open>
  C8. The race is reachable: after a handshake, a song plays to its end and is
  queued and sent; a second song ends while the request is in flight and is queued
  behind it; the server's \<^verbatim>\<open>OK\<close> then deletes both, so the second song is
  lost without ever having been submitted.
\<close>

theorem inflight_song_lost:
  "\<exists>s s' x y. creach (s, WInFlight [x]) \<and> queue_list s = [x, y] \<and>
     cstep (s, WInFlight [x]) (s', WIdle) \<and> creach (s', WIdle) \<and> queue_list s' = []"
proof -
  obtain s s' x y where t: "creach (s, WInFlight [x])" "queue_list s = [x, y]"
    "handle_reply 0 ''OK'' s = (RunContinue, s')" "queue_list s' = []"
    using race_trace by blast
  have "cstep (s, WInFlight [x]) (s', WIdle)" using t(3) by (rule cstep.reply)
  with t show ?thesis by (blast intro: creach.step)
qed

end
