(* ===== verification/Lifecycle.thy ===== *)
theory Lifecycle
  imports Concurrency
begin

text \<open>
  The module's life cycle: \<^verbatim>\<open>Open\<close> (audioscrobbler.c, lines 171--193)
  allocates the zeroed state, and \<^verbatim>\<open>Close\<close> (lines 198--239) takes
  \<^verbatim>\<open>p_sys->lock\<close>, releases the queued songs with \<^verbatim>\<open>DeleteSong\<close> and
  frees the submission host and file. Registering and removing the callbacks,
  the mutex's creation and destruction, and \<^verbatim>\<open>p_intf->b_dead\<close> are not
  state of \<^verbatim>\<open>intf_sys_t\<close> and are not modelled. \<^verbatim>\<open>Close\<close> is \<open>None\<close>
  when it blocks forever on a mutex that a callback left locked.
\<close>

section \<open>Definitions\<close>

text \<open>\<^verbatim>\<open>calloc\<close> of \<^verbatim>\<open>intf_sys_t\<close> succeeds or returns NULL.\<close>

definition Open :: "bool \<Rightarrow> vlc_ret \<times> intf_sys option" where
  "Open calloc_ok = (if calloc_ok then (VLC_SUCCESS, Some sys_init) else (VLC_ENOMEM, None))"

text \<open>\<^verbatim>\<open>free\<close>: NULL is allowed, a freed pointer is a double free.\<close>

definition free_cptr :: "cptr \<Rightarrow> c_error + unit" where
  "free_cptr p = (if p = Dangling then Inl DoubleFree else Inr ())"

definition Close :: "bool \<Rightarrow> intf_sys \<Rightarrow> (c_error + unit) option" where
  "Close held s =
     (if held then None
      else Some (case delete_prefix (nat (i_songs s)) (p_queue s) of
                   Inl e \<Rightarrow> Inl e
                 | Inr q \<Rightarrow> (case free_cptr (psz_submit_host s) of
                              Inl e \<Rightarrow> Inl e
                            | Inr u \<Rightarrow> free_cptr (psz_submit_file s))))"

text \<open>The endpoint pointers are never left dangling.\<close>

definition endpoint_live :: "intf_sys \<Rightarrow> bool" where
  "endpoint_live s \<longleftrightarrow> psz_submit_host s \<noteq> Dangling \<and> psz_submit_file s \<noteq> Dangling"

section \<open>Lemmas\<close>

lemma ParseURL_live:
  "ParseURL url p = (r, h, f, p') \<Longrightarrow> h \<noteq> Dangling \<and> f \<noteq> Dangling"
  by (auto simp: ParseURL_def Let_def split: if_splits)

lemma parse_handshake_live:
  assumes "parse_handshake_response buf tok (h0, f0, p0) = (r, tok', h, f, p)"
    "h0 \<noteq> Dangling" "f0 \<noteq> Dangling"
  shows "h \<noteq> Dangling \<and> f \<noteq> Dangling"
  using assms
  by (auto simp: parse_handshake_response_def Let_def split: if_splits option.splits prod.splits
           dest: ParseURL_live)

lemma Handshake_live:
  "Handshake e s = (r, s') \<Longrightarrow> endpoint_live s \<Longrightarrow> endpoint_live s'"
  by (auto simp: Handshake_def endpoint_live_def Let_def split: option.splits if_splits prod.splits
           dest: parse_handshake_live)

lemma after_handshake_endpoint:
  "after_handshake t r s = (x, s') \<Longrightarrow>
   psz_submit_host s' = psz_submit_host s \<and> psz_submit_file s' = psz_submit_file s"
  by (auto simp: after_handshake_def apply_backoff_eq split: vlc_ret.splits)

lemma handle_reply_endpoint:
  "handle_reply t buf s = (out, s') \<Longrightarrow>
   psz_submit_host s' = psz_submit_host s \<and> psz_submit_file s' = psz_submit_file s"
  by (auto simp: handle_reply_def apply_backoff_eq split: submit_reply.splits sum.splits)

lemma cstep_live:
  assumes "cstep c c'" "endpoint_live (fst c)"
  shows "endpoint_live (fst c')"
  using cstep_session_fields [OF assms(1)] assms(2)
  by (auto simp: endpoint_live_def dest!: Handshake_live)

lemma creach_live: "creach c \<Longrightarrow> endpoint_live (fst c)"
proof (induction rule: creach.induct)
  case init
  show ?case by (simp add: endpoint_live_def sys_init_def)
next
  case (step c c')
  then show ?case by (blast intro: cstep_live)
qed

lemma Close_ok:
  assumes "queue_inv s" "endpoint_live s"
  shows "Close False s = Some (Inr ())"
proof -
  have "\<forall>x\<in>set (take (nat (i_songs s)) (p_queue s)). song_ok x"
    using assms(1) by (simp add: queue_inv_def queue_list_def)
  then obtain q where "delete_prefix (nat (i_songs s)) (p_queue s) = Inr q"
    using delete_prefix_ok by blast
  with assms(2) show ?thesis by (simp add: Close_def free_cptr_def endpoint_live_def)
qed

section \<open>Properties\<close>

text \<open>
  C15. From every configuration the callbacks and the worker can reach,
  \<^verbatim>\<open>Close\<close> (with the mutex free) releases every queued song and the
  endpoint without freeing anything twice.
\<close>

theorem Close_reachable_releases:
  "creach (s, w) \<Longrightarrow> Close False s = Some (Inr ())"
proof -
  assume c: "creach (s, w)"
  have "queue_inv s" using creach_inv [OF c] by (simp add: conc_inv_def run_inv_def)
  moreover have "endpoint_live s" using creach_live [OF c] by simp
  ultimately show ?thesis by (rule Close_ok)
qed

theorem Close_reachable_releases_witness:
  "creach (sys_init, WIdle) \<and> Close False sys_init = Some (Inr ())"
  using Close_reachable_releases [OF creach.init] creach.init by simp

end
