(* ===== verification/Module.thy ===== *)
theory Module
  imports Lifecycle
begin

text \<open>
  The module around the engine. The worker's \<^verbatim>\<open>for(;;)\<close> loop of
  \<^verbatim>\<open>Run\<close> (audioscrobbler.c, lines 270--462) as a loop that may never
  return, over an infinite sequence of iteration inputs; \<^verbatim>\<open>Unload\<close> (lines
  243--251), which \<^verbatim>\<open>Run\<close> calls before it returns on a fatal error and
  which closes the module; and the module's two configuration options (lines
  154--166), whose default is the empty string. The section also states what
  the C declarations ask of every state: the fields fit their types, the session
  token its \<^verbatim>\<open>char[33]\<close> buffer.
\<close>

section \<open>Definitions\<close>

text \<open>
  \<open>Run_loop env k s\<close> runs the iterations \<open>env k\<close>, \<open>env (k+1)\<close>, \<dots> from the
  state \<open>s\<close>; it is \<open>None\<close> when every iteration \<^verbatim>\<open>continue\<close>s, and
  otherwise the outcome and state of the first iteration that leaves the loop.
\<close>

partial_function (option) Run_loop ::
  "(nat \<Rightarrow> iter_env) \<Rightarrow> nat \<Rightarrow> intf_sys \<Rightarrow> (run_outcome \<times> intf_sys) option" where
  "Run_loop env k s =
     (case Run_iter (env k) s of
        (RunContinue, s') \<Rightarrow> Run_loop env (Suc k) s'
      | (out, s') \<Rightarrow> Some (out, s'))"

text \<open>
  \<^verbatim>\<open>Unload\<close>: the object is killed and detached, and when it still has its
  module, \<^verbatim>\<open>module_Unneed\<close> deactivates it, which runs \<^verbatim>\<open>Close\<close>.
\<close>

definition Unload :: "bool \<Rightarrow> bool \<Rightarrow> intf_sys \<Rightarrow> (c_error + unit) option" where
  "Unload has_module held s = (if has_module then Close held s else Some (Inr ()))"

text \<open>
  The options the module declares (\<^verbatim>\<open>add_string\<close>, \<^verbatim>\<open>add_password\<close>)
  with their defaults, and \<^verbatim>\<open>config_GetPsz\<close> reading them.
\<close>

definition module_config :: "(string \<times> string) list" where
  "module_config = [(''lastfm-username'', []), (''lastfm-password'', [])]"

definition with_config :: "(string \<times> string) list \<Rightarrow> hs_env \<Rightarrow> hs_env" where
  "with_config cfg e = e\<lparr>cfg_username := map_of cfg ''lastfm-username'',
                         cfg_password := map_of cfg ''lastfm-password''\<rparr>"

text \<open>
  What the declarations of \<^verbatim>\<open>intf_sys_t\<close> ask of a state: the queue array has
  \<^verbatim>\<open>QUEUE_MAX\<close> entries and the count indexes it, the interval is one that
  \<^verbatim>\<open>HandleInterval\<close> produces, and the session token fits its
  \<^verbatim>\<open>char[33]\<close> buffer with its terminating NUL.
\<close>

definition state_typed :: "intf_sys \<Rightarrow> bool" where
  "state_typed s \<longleftrightarrow> length (p_queue s) = nat QUEUE_MAX \<and> 0 \<le> i_songs s \<and> i_songs s \<le> QUEUE_MAX \<and>
     unat (i_interval s) \<le> 120 \<and> length (psz_auth_token s) \<le> 32"

subsection \<open>Concrete instances\<close>

text \<open>
  Iteration inputs: the object killed, and the module's default configuration
  (empty username and password) with an iteration that is due.
\<close>

definition killed_env :: iter_env where
  "killed_env = demo_env\<lparr>wake := Killed\<rparr>"

definition default_env :: iter_env where
  "default_env = demo_env\<lparr>hs := with_config module_config (hs demo_env)\<rparr>"

section \<open>Lemmas\<close>


lemma Run_loop_step:
  "Run_iter (env k) s = (out, s') \<Longrightarrow>
   Run_loop env k s = (if out = RunContinue then Run_loop env (Suc k) s' else Some (out, s'))"
  by (subst Run_loop.simps) (cases out; simp)

lemma Run_loop_killed:
  assumes "wake (env j) = Killed" "k \<le> j"
  shows "\<exists>y. Run_loop env k s = Some y"
  using assms(2)
proof (induction "j - k" arbitrary: k s)
  case 0
  then have "k = j" by simp
  then show ?case using assms(1) Run_loop_step [of env k s RunExit s] by (simp add: Run_iter_def)
next
  case (Suc d)
  obtain out s' where it: "Run_iter (env k) s = (out, s')" by (cases "Run_iter (env k) s")
  show ?case
  proof (cases "out = RunContinue")
    case True
    have "d = j - Suc k" "Suc k \<le> j" using Suc.hyps(2) by arith+
    then obtain y where "Run_loop env (Suc k) s' = Some y" using Suc.hyps(1) by blast
    with True it show ?thesis by (simp add: Run_loop_step)
  next
    case False
    with it show ?thesis by (simp add: Run_loop_step)
  qed
qed

lemma Run_loop_returns:
  assumes "Run_loop env k s = Some r"
  shows "\<exists>n. Run (map env [k..<k + n]) s = r \<and> fst r \<noteq> RunContinue"
proof (rule Run_loop.raw_induct [where P = "\<lambda>env k s r. \<exists>n. Run (map env [k..<k + n]) s = r \<and> fst r \<noteq> RunContinue", OF _ assms])
  fix f :: "(nat \<Rightarrow> iter_env) \<Rightarrow> nat \<Rightarrow> intf_sys \<Rightarrow> (run_outcome \<times> intf_sys) option"
    and env k s r
  assume IH: "\<And>env k s r. f env k s = Some r \<Longrightarrow> \<exists>n. Run (map env [k..<k + n]) s = r \<and> fst r \<noteq> RunContinue"
    and eq: "(case Run_iter (env k) s of (RunContinue, s') \<Rightarrow> f env (Suc k) s' | (out, s') \<Rightarrow> Some (out, s')) = Some r"
  obtain o1 s1 where it: "Run_iter (env k) s = (o1, s1)" by (cases "Run_iter (env k) s")
  show "\<exists>n. Run (map env [k..<k + n]) s = r \<and> fst r \<noteq> RunContinue"
  proof (cases "o1 = RunContinue")
    case True
    with eq it have "f env (Suc k) s1 = Some r" by simp
    then obtain n where "Run (map env [Suc k..<Suc k + n]) s1 = r" "fst r \<noteq> RunContinue" using IH by blast
    moreover have "[k..<k + Suc n] = k # [Suc k..<Suc k + n]" by (simp add: upt_conv_Cons del: upt_Suc)
    ultimately show ?thesis using True it by (intro exI [of _ "Suc n"]) (simp del: upt_Suc)
  next
    case False
    with eq it have "r = (o1, s1)" by (cases o1) auto
    moreover have "[k..<k + 1] = [k]" by simp
    ultimately show ?thesis using False it by (intro exI [of _ 1]) (cases o1; simp)
  qed
qed

lemma Run_waiting:
  assumes "\<forall>i\<in>set es. wake i = Signalled \<and> now i < next_exchange s"
  shows "Run es s = (RunContinue, s)"
  using assms by (induction es) (simp_all add: Run_iter_def)

lemma Run_iter_live:
  assumes "Run_iter e s = (out, s')" "endpoint_live s"
  shows "endpoint_live s'"
proof -
  have sub: "endpoint_live s2" if "submit_step e s1 = (out, s2)" "endpoint_live s1" for s1 s2
    using that handle_reply_endpoint
    by (auto simp: submit_step_def endpoint_live_def apply_backoff_eq split: option.splits if_splits)
  show ?thesis
  proof (cases "wake e = Killed \<or> (now e < next_exchange s \<and> wake e = Signalled) \<or> b_handshaked s")
    case True
    with assms sub show ?thesis by (auto simp: Run_iter_def split: if_splits)
  next
    case False
    obtain r s1 where h: "Handshake (hs e) s = (r, s1)" by (cases "Handshake (hs e) s")
    have l1: "endpoint_live s1" using Handshake_live [OF h assms(2)] .
    obtain x s2 where a: "after_handshake (now e) r s1 = (x, s2)" by (cases "after_handshake (now e) r s1")
    have l2: "endpoint_live s2" using after_handshake_endpoint [OF a] l1 by (simp add: endpoint_live_def)
    from assms(1) False h a have "(case x of Some o' \<Rightarrow> (o', s2) | None \<Rightarrow> submit_step e s2) = (out, s')"
      by (auto simp: Run_iter_def split: option.splits)
    with l2 sub show ?thesis by (cases x) auto
  qed
qed

lemma Run_live:
  "endpoint_live s \<Longrightarrow> Run es s = (out, s') \<Longrightarrow> endpoint_live s'"
proof (induction es arbitrary: s)
  case (Cons e es)
  obtain o1 s1 where it: "Run_iter e s = (o1, s1)" by (cases "Run_iter e s")
  have "endpoint_live s1" using Run_iter_live [OF it Cons.prems(1)] .
  with Cons it show ?case by (cases o1) auto
qed simp

lemma parse_handshake_token:
  "parse_handshake_response buf tok ep = (r, tok', ep') \<Longrightarrow> length tok \<le> 32 \<Longrightarrow> length tok' \<le> 32"
  by (auto simp: parse_handshake_response_def Let_def split: if_splits option.splits prod.splits)

lemma Handshake_token:
  "Handshake e s = (r, s') \<Longrightarrow> length (psz_auth_token s) \<le> 32 \<Longrightarrow> length (psz_auth_token s') \<le> 32"
  by (auto simp: Handshake_def Let_def split: option.splits if_splits prod.splits
           dest!: parse_handshake_token)

lemma creach_token: "creach c \<Longrightarrow> length (psz_auth_token (fst c)) \<le> 32"
proof (induction rule: creach.induct)
  case init
  show ?case by (simp add: sys_init_def)
next
  case (step c c')
  then show ?case using cstep_session_fields [OF step(2)] by (auto dest!: Handshake_token)
qed

lemma default_config_enovar:
  "Handshake (with_config module_config h) s = (VLC_ENOVAR, s)"
  by (simp add: Handshake_def with_config_def module_config_def)

lemma default_env_unloads:
  "\<not> b_handshaked s \<Longrightarrow> next_exchange s \<le> 0 \<Longrightarrow> Run_iter default_env s = (RunUnload, s)"
  using default_config_enovar [of "hs demo_env" s]
  by (simp add: Run_iter_def default_env_def demo_env_def after_handshake_def)

lemma Run_unload_close:
  assumes "run_inv s" "endpoint_live s" "Run_loop env k s = Some (out, s')"
  shows "Close False s' = Some (Inr ())"
proof -
  obtain n where r: "Run (map env [k..<k + n]) s = (out, s')"
    using Run_loop_returns [OF assms(3)] by auto
  have "queue_inv s'" using Run_inv [OF assms(1) r] by (simp add: run_inv_def)
  moreover have "endpoint_live s'" using Run_live [OF assms(2) r] .
  ultimately show ?thesis by (rule Close_ok)
qed

section \<open>Properties\<close>

text \<open>
  C12. The worker's loop terminates once the object is killed: if some
  iteration's wait ends with the object dead, \<^verbatim>\<open>Run\<close> returns (at that
  iteration, or earlier on a fatal error).
\<close>

theorem Run_loop_terminates:
  "wake (env j) = Killed \<Longrightarrow> \<exists>y. Run_loop env 0 s = Some y"
  using Run_loop_killed [of env j 0 s] by simp

theorem Run_loop_terminates_witness:
  "wake ((\<lambda>_. killed_env) 0) = Killed \<and> (\<exists>y. Run_loop (\<lambda>_. killed_env) 0 sys_init = Some y)"
proof -
  have k: "wake ((\<lambda>_. killed_env) 0) = Killed" by (simp add: killed_env_def)
  from Run_loop_terminates [OF k] k show ?thesis by simp
qed

text \<open>
  C35. A signal before \<^verbatim>\<open>next_exchange\<close> only restarts the timed wait: if
  every wait from iteration \<open>k\<close> on is signalled before the deadline, the loop
  never returns and the state never changes.
\<close>

theorem Run_loop_waits_forever:
  "\<forall>i\<ge>k. wake (env i) = Signalled \<and> now (env i) < next_exchange s \<Longrightarrow> Run_loop env k s = None"
proof (rule ccontr)
  assume w: "\<forall>i\<ge>k. wake (env i) = Signalled \<and> now (env i) < next_exchange s"
    and "Run_loop env k s \<noteq> None"
  then obtain r where "Run_loop env k s = Some r" by auto
  then obtain n where r: "Run (map env [k..<k + n]) s = r" "fst r \<noteq> RunContinue"
    using Run_loop_returns by blast
  from w have "\<forall>i\<in>set (map env [k..<k + n]). wake i = Signalled \<and> now i < next_exchange s" by auto
  then have "Run (map env [k..<k + n]) s = (RunContinue, s)" by (rule Run_waiting)
  with r show False by auto
qed

theorem Run_loop_waits_forever_witness:
  "Run_loop (\<lambda>_. demo_env) 0 (sys_init\<lparr>next_exchange := 1\<rparr>) = None"
proof -
  have "\<forall>i\<ge>0. wake ((\<lambda>_. demo_env) i) = Signalled \<and> now ((\<lambda>_. demo_env) i) < next_exchange (sys_init\<lparr>next_exchange := 1\<rparr>)"
    by (simp add: demo_env_def)
  then show ?thesis by (rule Run_loop_waits_forever)
qed

text \<open>
  C34. With the module's default configuration (the options declared with an
  empty default), the first due iteration of an unauthenticated worker returns
  \<^verbatim>\<open>VLC_ENOVAR\<close> from the handshake and unloads the plugin, state unchanged.
\<close>

theorem default_config_unloads:
  "\<not> b_handshaked s \<Longrightarrow> wake e \<noteq> Killed \<Longrightarrow> \<not> (now e < next_exchange s \<and> wake e = Signalled) \<Longrightarrow>
   hs e = with_config module_config h \<Longrightarrow> Run_iter e s = (RunUnload, s)"
  by (simp add: Run_iter_def default_config_enovar after_handshake_def)

theorem default_config_unloads_witness:
  "\<not> b_handshaked sys_init \<and> wake default_env \<noteq> Killed \<and>
   \<not> (now default_env < next_exchange sys_init \<and> wake default_env = Signalled) \<and>
   hs default_env = with_config module_config (hs demo_env) \<and> Run_iter default_env sys_init = (RunUnload, sys_init)"
proof -
  have h: "\<not> b_handshaked sys_init" "wake default_env \<noteq> Killed"
    "\<not> (now default_env < next_exchange sys_init \<and> wake default_env = Signalled)"
    "hs default_env = with_config module_config (hs demo_env)"
    by (simp_all add: default_env_def demo_env_def sys_init_def)
  from default_config_unloads [OF h] h show ?thesis by simp
qed

text \<open>
  C14. When the worker unloads the plugin from a state satisfying the engine
  invariant, \<^verbatim>\<open>Unload\<close>'s \<^verbatim>\<open>Close\<close> releases every queued song and the
  endpoint without a double free.
\<close>

theorem Run_unload_releases:
  "run_inv s \<Longrightarrow> endpoint_live s \<Longrightarrow> Run_loop env 0 s = Some (RunUnload, s') \<Longrightarrow>
   Unload m False s' = Some (Inr ())"
  using Run_unload_close [of s env 0 RunUnload s'] by (simp add: Unload_def)

theorem Run_unload_releases_witness:
  "run_inv sys_init \<and> endpoint_live sys_init \<and>
   Run_loop (\<lambda>_. default_env) 0 sys_init = Some (RunUnload, sys_init) \<and>
   Unload True False sys_init = Some (Inr ())"
proof -
  have l: "Run_loop (\<lambda>_. default_env) 0 sys_init = Some (RunUnload, sys_init)"
    using default_env_unloads [of sys_init] by (simp add: Run_loop_step sys_init_def)
  have e: "endpoint_live sys_init" by (simp add: endpoint_live_def sys_init_def)
  from Run_unload_releases [OF run_inv_init e l] run_inv_init e l show ?thesis by simp
qed

text \<open>
  C13. Every configuration the callbacks and the worker can reach is well typed
  for the C declarations: the queue array and its count, the interval, and the
  session token within its \<^verbatim>\<open>char[33]\<close> buffer.
\<close>

theorem creach_state_typed:
  "creach c \<Longrightarrow> state_typed (fst c)"
proof -
  assume c: "creach c"
  have "run_inv (fst c)" using creach_inv [OF c] by (simp add: conc_inv_def)
  with creach_token [OF c] show ?thesis
    by (auto simp: state_typed_def run_inv_def queue_inv_def intro: interval_ok_unat_le)
qed

theorem creach_state_typed_witness:
  "creach (sys_init, WIdle) \<and> state_typed sys_init"
  using creach_state_typed [OF creach.init] creach.init by simp

end
