(* ===== verification/Spec2Isabelle.thy ===== *)
theory Spec2Isabelle
  imports Module
begin

text \<open>
  \<^bold>\<open>A verification model of VLC's last.fm audioscrobbler plugin.\<close>
  The program is one C file, \<^verbatim>\<open>src/modules/misc/audioscrobbler.c\<close>. It has
  two sides that share the state \<^verbatim>\<open>intf_sys_t\<close> under \<^verbatim>\<open>p_sys->lock\<close>:

  \<^item> The producers are the player's callbacks. \<^verbatim>\<open>ItemChange\<close> starts a
    song. \<^verbatim>\<open>ReadMetaData\<close> fills the current song.
    \<^verbatim>\<open>PlayingChange\<close> accounts for pauses and, at the end of the input,
    calls \<^verbatim>\<open>AddToQueue\<close>. That function filters the play and copies it
    into the fixed queue \<^verbatim>\<open>p_queue[50]\<close>.
  \<^item> The consumer is the worker thread \<^verbatim>\<open>Run\<close>. It waits until
    \<^verbatim>\<open>next_exchange\<close>, performs the \<^verbatim>\<open>Handshake\<close> when it is not
    authenticated, and then submits the queue over HTTP. The reply either clears
    the queue or applies the backoff of \<^verbatim>\<open>HandleInterval\<close> and, in some
    cases, drops the session.

  \<^bold>\<open>Theories.\<close> Each theory models one part of the program. All line
  numbers refer to audioscrobbler.c.

  \<^item> \<open>Prelude\<close>: the C vocabulary.
    \<^item> A \<^verbatim>\<open>char*\<close> is \<open>cptr\<close>: NULL, a live string, or
      \<open>Dangling\<close> (freed and not cleared). A second free of a dangling
      pointer is \<open>DoubleFree\<close>.
    \<^item> \<^verbatim>\<open>unsigned int\<close> is a 32-bit word, and \<^verbatim>\<open>mtime_t\<close> and
      \<^verbatim>\<open>time_t\<close> are \<open>int\<close>.
    \<^item> \<open>c_div\<close> is C's truncating division.
  \<^item> \<open>CString\<close>: the library functions the code calls (\<^verbatim>\<open>strstr\<close>,
    \<^verbatim>\<open>strcspn\<close>, \<^verbatim>\<open>atoi\<close>, decimal printing), and the C string that a
    read buffer holds.
  \<^item> \<open>Sys\<close>: the records \<^verbatim>\<open>audioscrobbler_song_t\<close> and
    \<^verbatim>\<open>intf_sys_t\<close> (lines 58--108), the state \<^verbatim>\<open>Open\<close> allocates
    (\<open>sys_init\<close>), and \<^verbatim>\<open>DeleteSong\<close>. The queue that the rest of the
    program sees, \<open>queue_list\<close>, is the first \<^verbatim>\<open>i_songs\<close> entries of
    the array. Its invariant \<open>queue_inv\<close> says:
    \<^item> the array has 50 entries;
    \<^item> 0 \<open>\<le>\<close> \<^verbatim>\<open>i_songs\<close> \<open>\<le>\<close> 50;
    \<^item> no queued song holds a freed pointer.
  \<^item> \<open>Backoff\<close>: \<^verbatim>\<open>HandleInterval\<close> (lines 1008--1023), with its
    32-bit arithmetic.
  \<^item> \<open>Queue\<close>: \<^verbatim>\<open>AddToQueue\<close> (lines 566--636). It is split into the
    guard chain \<open>add_check\<close> and the move \<open>queue_copy\<close>, followed by the
    release of the current song. The specification's eligibility filter is
    \<open>eligible\<close>.
  \<^item> \<open>Codec\<close>: the wire protocol.
    \<^item> \<^verbatim>\<open>ParseURL\<close> and the handshake reply parser (lines 652--892).
    \<^item> The authentication token and the handshake URL.
    \<^item> The submission body that the locked loop of \<^verbatim>\<open>Run\<close> builds
      (lines 344--384), the POST request, and the classification of the
      submission reply.
  \<^item> \<open>Session\<close>: \<^verbatim>\<open>Handshake\<close> (lines 696--900), one iteration
    \<open>Run_iter\<close> of the loop of \<^verbatim>\<open>Run\<close> (lines 270--462) with every
    \<^verbatim>\<open>continue\<close> and return, and \<open>Run\<close>, the loop over a list of
    iterations. Whatever the outside world decides is an input record:
    \<^item> how the wait ended, and the clock;
    \<^item> the configuration, the MD5 digest, and the HTTP stream;
    \<^item> whether connecting and sending succeed, and the server's reply.
  \<^item> \<open>Player\<close>: \<^verbatim>\<open>ReadMetaData\<close>, \<^verbatim>\<open>PlayingChange\<close> and
    \<^verbatim>\<open>ItemChange\<close> (lines 468--561 and 917--1006).
    \<^item> What the player answers is an input record.
    \<^item> Whether a callback returns with the lock held is an output flag.
    \<^item> VLC's input states are a datatype ordered as their enumeration.
  \<^item> \<open>Concurrency\<close>: the interleaving \<open>cstep\<close> of the callbacks with the
    worker's three atomic steps, on (state, worker phase), and the set
    \<open>creach\<close> of configurations reachable from \<open>sys_init\<close>. The three
    worker steps are:
    \<^item> the handshake;
    \<^item> the snapshot that the locked loop takes;
    \<^item> the handling of the reply, which the worker does without the lock.

    A callback that faults, or that returns with the lock held, has no successor.
  \<^item> \<open>Lifecycle\<close>: \<^verbatim>\<open>Open\<close> (lines 171--193) and \<^verbatim>\<open>Close\<close>
    (lines 198--239). \<^verbatim>\<open>Close\<close> takes the lock, releases the queued songs,
    and frees the endpoint. It is \<open>None\<close> when it blocks forever on a mutex
    that a callback left held.
  \<^item> \<open>Module\<close>: the module around the engine.
    \<^item> \<open>Run_loop\<close> is the worker's \<^verbatim>\<open>for(;;)\<close> loop over an infinite
      sequence of iteration inputs. It is a \<^theory_text>\<open>partial_function (option)\<close>:
      \<open>None\<close> is a loop that never returns.
    \<^item> \<^verbatim>\<open>Unload\<close> (lines 243--251) runs \<^verbatim>\<open>Close\<close> when the object
      still has its module.
    \<^item> The two configuration options have empty defaults (lines 154--166).
    \<^item> \<open>state_typed\<close> states what the C declarations ask of a state.

  \<^bold>\<open>What is shown.\<close>
  \<^item> Invariants.
    \<^item> \<open>Run\<close> keeps \<open>run_inv\<close>: the queue invariant, an interval in the
      doubling sequence, and an endpoint whenever authenticated.
    \<^item> \<^verbatim>\<open>AddToQueue\<close> keeps \<open>queue_inv\<close>.
    \<^item> Every reachable configuration of the interleaving satisfies
      \<open>conc_inv\<close>.
    \<^item> Every reachable configuration keeps the endpoint pointers live. From
      every reachable configuration, \<^verbatim>\<open>Close\<close> releases everything
      without a fault.
  \<^item> Ownership. \<^verbatim>\<open>AddToQueue\<close> moves a queued song: the current song keeps
    none of its pointers, so the final \<^verbatim>\<open>DeleteSong\<close> frees nothing the
    queue holds.
  \<^item> Refinements.
    \<^item> \<^verbatim>\<open>AddToQueue\<close> implements the specification's Enqueue on
      \<open>queue_list\<close>.
    \<^item> \<^verbatim>\<open>HandleInterval\<close> implements OnFailure.
    \<^item> Clearing the queue on \<^verbatim>\<open>OK\<close> implements Clear(snapshot) exactly
      when nothing was queued during the request.
  \<^item> The loop.
    \<^item> It returns once the object is killed.
    \<^item> It never returns while every wait is signalled before
      \<^verbatim>\<open>next_exchange\<close>.
    \<^item> When it unloads the plugin, \<^verbatim>\<open>Close\<close> releases everything.
  \<^item> Every reachable state is well typed: the queue array and its count, the
    interval, and the session token within its \<^verbatim>\<open>char[33]\<close> buffer.
  \<^item> Round trips of the URL and handshake parsers on the texts the protocol
    produces. The submission body equals its reference definition.
  \<^item> Every branch of the reply handling, the handshake errors, and the wait.
  \<^item> Bounds of the backoff, and its 32-bit wrap.
  \<^item> The findings listed below, each a general theorem except the last.

  \<^bold>\<open>Findings.\<close>
  \<^item> At the 120-minute cap the backoff delay wraps to about 48 minutes.
  \<^item> The listening time mixes microseconds and seconds.
  \<^item> An item with no title leaves a dangling artist pointer, which the end of
    playback frees a second time, from any state.
  \<^item> \<^verbatim>\<open>ReadMetaData\<close> keeps the lock when, and only when, it runs out of
    memory.
  \<^item> The request never depends on the submission host: the \<^verbatim>\<open>Host\<close>
    header carries the file path.
  \<^item> A URL without a port is rejected.
  \<^item> An unrecognised reply drops the session.
  \<^item> A failed read is retried without backoff.
  \<^item> A song queued while a request is in flight is deleted unsent.
  \<^item> The out-of-memory checks \<^verbatim>\<open>!asprintf(...)\<close> never fire, since
    \<^verbatim>\<open>asprintf\<close> returns -1 on failure. The model follows the code, in which
    these branches are never taken.

  \<^bold>\<open>Bounds and fuel.\<close>
  \<^item> No definition uses fuel.
  \<^item> \<open>Run\<close> recurses on a finite list of iteration inputs.
    \<open>Run_loop\<close> is the unbounded loop. The lemma \<open>Run_loop_returns\<close> says that
    a result of the loop is the result of \<open>Run\<close> on a finite prefix of its
    inputs, so the invariants of \<open>Run\<close> hold for every state the loop returns.
  \<^item> The other loops are bounded by the data:
    \<^item> string scans are structural;
    \<^item> the body loop and the clearing loop run over the first
      \<^verbatim>\<open>i_songs\<close> entries.

  \<^bold>\<open>Not modelled.\<close>
  \<^item> Module glue that changes no state of \<^verbatim>\<open>intf_sys_t\<close>:
    \<^item> the descriptor's category, name and capability;
    \<^item> the registration and removal of the callbacks;
    \<^item> \<^verbatim>\<open>vlc_object_detach\<close> and \<^verbatim>\<open>vlc_object_release\<close>;
    \<^item> the mutex's creation and destruction.
  \<^item> Pointer identity. A \<^verbatim>\<open>char*\<close> is a value, so two structures that share
    one allocation cannot be told apart from two copies. The code never shares a
    pointer: \<^verbatim>\<open>AddToQueue\<close> clears the current song's pointers after
    copying them, which \<open>AddToQueue_moves_song\<close> states. The claims that no
    string is freed twice therefore cover pointers freed but not cleared, which
    is how the code's one double free arises.
  \<^item> Logging and user dialogs.
  \<^item> Object reference counting.
  \<^item> The bytes of MD5, which is a parameter.
  \<^item> The network and HTTP layers, whose results are inputs.
  \<^item> Allocation failures of \<^verbatim>\<open>strndup\<close>, \<^verbatim>\<open>strdup\<close> and
    \<^verbatim>\<open>asprintf\<close> in the codec. \<^verbatim>\<open>calloc\<close> in \<^verbatim>\<open>ReadMetaData\<close> is
    taken to succeed. The encoder's failure is modelled.
  \<^item> Interleavings inside a callback. Each callback is one atomic step,
    although \<^verbatim>\<open>ItemChange\<close> writes \<^verbatim>\<open>b_submit\<close>,
    \<^verbatim>\<open>b_meta_read\<close> and the pause total without the lock.
  \<^item> The condition variable. It only decides when \<^verbatim>\<open>Run\<close> wakes, and that
    is an input of each iteration.
\<close>

section \<open>Properties across components\<close>

text \<open>
  C11. In every reachable configuration with a request in flight, an \<^verbatim>\<open>OK\<close>
  reply is handled without a fault: every song the clearing loop deletes is
  live, and the queue is left empty.
\<close>

theorem reply_ok_never_faults:
  "creach (s, WInFlight q) \<Longrightarrow> classify_reply buf = ReplyOK \<Longrightarrow>
   \<exists>s'. handle_reply t buf s = (RunContinue, s') \<and> queue_list s' = []"
proof -
  assume r: "creach (s, WInFlight q)" "classify_reply buf = ReplyOK"
  have "queue_inv s" using creach_inv [OF r(1)] by (simp add: conc_inv_def run_inv_def)
  then have "\<forall>x\<in>set (take (nat (i_songs s)) (p_queue s)). song_ok x"
    by (simp add: queue_inv_def queue_list_def)
  then obtain q' where d: "delete_prefix (nat (i_songs s)) (p_queue s) = Inr q'"
    using delete_prefix_ok by blast
  show ?thesis using r(2) d by (simp add: handle_reply_def queue_list_def)
qed

theorem reply_ok_never_faults_witness:
  "\<exists>s x s'. creach (s, WInFlight [x]) \<and> classify_reply ''OK'' = ReplyOK \<and>
     handle_reply 0 ''OK'' s = (RunContinue, s') \<and> queue_list s' = []"
proof -
  obtain s s' x y where t: "creach (s, WInFlight [x])" "queue_list s = [x, y]"
    "handle_reply 0 ''OK'' s = (RunContinue, s')"
    using race_trace by blast
  have c: "classify_reply ''OK'' = ReplyOK" by (simp add: classify_reply_def)
  from reply_ok_never_faults [OF t(1) c, of 0] c t(1) show ?thesis by blast
qed

end
